theory Spec2Isabelle
  imports Complex_Main "HOL-Library.Multiset"
begin

section \<open>Vectors and bodies\<close>

text \<open>
  JavaScript numbers are modelled as exact reals. The source uses the three-component
  vector class of the cannon physics library, which is not part of the repository.
\<close>

datatype vec3 = Vec3 (vx: real) (vy: real) (vz: real)

text \<open>
  A body is a JavaScript object; the walks compare bodies by reference
  (\<open>otherBody !== body\<close>, \<open>body === this.body\<close>). The field \<open>ident\<close> stands for the
  reference: two bodies are the same object exactly when their \<open>ident\<close> agree.
\<close>

datatype body = Body (ident: nat) (position: vec3) (mass: real)

definition same_object :: "body \<Rightarrow> body \<Rightarrow> bool" where
  "same_object a b = (ident a = ident b)"

text \<open>Modelled from the spec: the vector class \<open>Vec3\<close> of the cannon and cannon-es
  libraries, whose code is not under src/. Its methods are taken by the names under which
  the source calls them: \<open>vadd\<close>, \<open>vsub\<close>, \<open>scale\<close> (also \<open>mult\<close>), \<open>norm2\<close>, \<open>norm\<close>,
  \<open>distanceSquared\<close>, and \<open>unit\<close>, the vector divided by its norm. \<open>normalize\<close> is taken to
  give the normalised vector as well, which is how the chained call
  \<open>normalize().scale(magnitude)\<close> of OctreeNode.js uses it and what the spec's "unit vector
  times magnitude" asks for. For a vector of norm zero \<open>unit\<close> gives (1, 0, 0) and
  \<open>normalize\<close> gives (0, 0, 0).\<close>

definition vadd :: "vec3 \<Rightarrow> vec3 \<Rightarrow> vec3" where
  "vadd a b = Vec3 (vx a + vx b) (vy a + vy b) (vz a + vz b)"

definition vsub :: "vec3 \<Rightarrow> vec3 \<Rightarrow> vec3" where
  "vsub a b = Vec3 (vx a - vx b) (vy a - vy b) (vz a - vz b)"

definition scale_vec :: "vec3 \<Rightarrow> real \<Rightarrow> vec3" where
  "scale_vec a s = Vec3 (vx a * s) (vy a * s) (vz a * s)"

definition norm2 :: "vec3 \<Rightarrow> real" where
  "norm2 a = vx a * vx a + vy a * vy a + vz a * vz a"

definition norm_vec :: "vec3 \<Rightarrow> real" where
  "norm_vec a = sqrt (norm2 a)"

definition distanceSquared :: "vec3 \<Rightarrow> vec3 \<Rightarrow> real" where
  "distanceSquared a b = norm2 (vsub b a)"

definition unit_vec :: "vec3 \<Rightarrow> vec3" where
  "unit_vec a = (let n = norm_vec a in if n > 0 then scale_vec a (1 / n) else Vec3 1 0 0)"

definition normalize_vec :: "vec3 \<Rightarrow> vec3" where
  "normalize_vec a = (let n = norm_vec a in if n > 0 then scale_vec a (1 / n) else Vec3 0 0 0)"

definition zero3 :: vec3 where
  "zero3 = Vec3 0 0 0"

section \<open>The bucketed octree of octree.js\<close>

datatype bnode = BNode (center: vec3) (halfSize: real) (nmass: real) (com: vec3)
  (isLeaf: bool) (bodies: "body list") (children: "bnode list")

definition OctreeNode :: "vec3 \<Rightarrow> real \<Rightarrow> bnode" where
  "OctreeNode c h = BNode c h 0 (Vec3 0 0 0) True [] []"

definition MAX_BODIES_PER_NODE :: nat where
  "MAX_BODIES_PER_NODE = 10"

definition contains :: "bnode \<Rightarrow> vec3 \<Rightarrow> bool" where
  "contains n p =
     (vx p \<ge> vx (center n) - halfSize n \<and> vx p \<le> vx (center n) + halfSize n \<and>
      vy p \<ge> vy (center n) - halfSize n \<and> vy p \<le> vy (center n) + halfSize n \<and>
      vz p \<ge> vz (center n) - halfSize n \<and> vz p \<le> vz (center n) + halfSize n)"

text \<open>The new center of mass is a quotient by the new mass. Where the new mass is zero the
  source stores NaN or an infinity in \<open>com\<close>, which the model does not represent: the value
  of the definition there is not the value of the source. What is stated below about the
  value of a center of mass that an insertion stores is stated for a new mass that is not
  zero, or for bodies of positive mass, whose insertions never make a new mass zero; two
  rebuilds from the same bodies run the same operations on the same values.\<close>

definition updateMassDistribution :: "bnode \<Rightarrow> body \<Rightarrow> bnode" where
  "updateMassDistribution n b =
     (let newMass = nmass n + mass b;
          cx = (vx (com n) * nmass n + vx (position b) * mass b) / newMass;
          cy = (vy (com n) * nmass n + vy (position b) * mass b) / newMass;
          cz = (vz (com n) * nmass n + vz (position b) * mass b) / newMass
      in BNode (center n) (halfSize n) newMass (Vec3 cx cy cz) (isLeaf n) (bodies n) (children n))"

definition newChildren :: "bnode \<Rightarrow> bnode list" where
  "newChildren n =
     (let quarterSize = halfSize n * 0.5 in
      concat (map (\<lambda>x. concat (map (\<lambda>y. map (\<lambda>z.
        OctreeNode (Vec3 (vx (center n) + x * quarterSize)
                         (vy (center n) + y * quarterSize)
                         (vz (center n) + z * quarterSize)) quarterSize)
        [-1, 1]) [-1, 1])) [-1, 1]))"

text \<open>
  \<open>insert\<close>, \<open>subdivide\<close> and \<open>_insertIntoChild\<close> call each other, and nothing in the
  source bounds the depth of the calls. The definitions below take the method
  \<open>child.insert\<close> as the parameter \<open>ins\<close>: \<open>insertFirst\<close> is the loop of
  \<open>_insertIntoChild\<close>, \<open>moveBodies\<close> the \<open>forEach\<close> of \<open>subdivide\<close>, and \<open>insert_body\<close> the
  body of \<open>insert\<close>. \<open>insert_node\<close> ties the knot with a bound on the call depth, and
  \<open>None\<close> is the run that exceeds the bound.
\<close>

fun insertFirst :: "(bnode \<Rightarrow> body \<Rightarrow> bnode option) \<Rightarrow> bnode list \<Rightarrow> body \<Rightarrow> bnode list option" where
  "insertFirst ins [] b = Some []"
| "insertFirst ins (c # cs) b =
     (if contains c (position b)
      then (case ins c b of None \<Rightarrow> None | Some c' \<Rightarrow> Some (c' # cs))
      else (case insertFirst ins cs b of None \<Rightarrow> None | Some cs' \<Rightarrow> Some (c # cs')))"

definition insertIntoChild :: "(bnode \<Rightarrow> body \<Rightarrow> bnode option) \<Rightarrow> bnode \<Rightarrow> body \<Rightarrow> bnode option" where
  "insertIntoChild ins n b =
     (case insertFirst ins (children n) b of
        None \<Rightarrow> None
      | Some cs \<Rightarrow> Some (BNode (center n) (halfSize n) (nmass n) (com n) (isLeaf n) (bodies n) cs))"

fun moveBodies :: "(bnode \<Rightarrow> body \<Rightarrow> bnode option) \<Rightarrow> bnode \<Rightarrow> body list \<Rightarrow> bnode option" where
  "moveBodies ins n [] = Some n"
| "moveBodies ins n (b # bs) =
     (case insertIntoChild ins n b of None \<Rightarrow> None | Some n' \<Rightarrow> moveBodies ins n' bs)"

definition subdivide :: "(bnode \<Rightarrow> body \<Rightarrow> bnode option) \<Rightarrow> bnode \<Rightarrow> bnode option" where
  "subdivide ins n =
     moveBodies ins (BNode (center n) (halfSize n) (nmass n) (com n) False []
                       (children n @ newChildren n)) (bodies n)"

definition insert_body :: "(bnode \<Rightarrow> body \<Rightarrow> bnode option) \<Rightarrow> bnode \<Rightarrow> body \<Rightarrow> bnode option" where
  "insert_body ins n b =
     (case (if \<not> isLeaf n then insertIntoChild ins n b
            else (let n1 = BNode (center n) (halfSize n) (nmass n) (com n) (isLeaf n)
                             (bodies n @ [b]) (children n)
                  in if length (bodies n1) > MAX_BODIES_PER_NODE then subdivide ins n1
                     else Some n1)) of
        None \<Rightarrow> None
      | Some n2 \<Rightarrow>
          (let n3 = updateMassDistribution n2 b
           in if isLeaf n3 \<and> length (bodies n3) > MAX_BODIES_PER_NODE then subdivide ins n3
              else Some n3))"

fun insert_node :: "nat \<Rightarrow> bnode \<Rightarrow> body \<Rightarrow> bnode option" where
  "insert_node 0 n b = None"
| "insert_node (Suc k) n b = insert_body (insert_node k) n b"

text \<open>
  The class \<open>Octree\<close>: of its fields only the gravitational constant and the root take
  part in insertion and in the gravity walk.
\<close>

record octree =
  gravityConstant :: real
  root :: bnode

definition Octree :: "real \<Rightarrow> real \<Rightarrow> octree" where
  "Octree worldSize g =
     (let halfWorldSize = worldSize / 2
      in \<lparr>gravityConstant = g, root = OctreeNode (Vec3 0 0 0) halfWorldSize\<rparr>)"

definition clear :: "octree \<Rightarrow> octree" where
  "clear t = t\<lparr>root := OctreeNode (center (root t)) (halfSize (root t))\<rparr>"

definition insert_tree :: "nat \<Rightarrow> octree \<Rightarrow> body \<Rightarrow> octree option" where
  "insert_tree k t b =
     (case insert_node k (root t) b of None \<Rightarrow> None | Some r \<Rightarrow> Some (t\<lparr>root := r\<rparr>))"

text \<open>The rebuild cycle of \<open>Simulation.update\<close> and \<open>Simulation.restart\<close>: clear, then insert
  every body in turn.\<close>

fun insert_all :: "nat \<Rightarrow> octree \<Rightarrow> body list \<Rightarrow> octree option" where
  "insert_all k t [] = Some t"
| "insert_all k t (b # bs) =
     (case insert_tree k t b of None \<Rightarrow> None | Some t' \<Rightarrow> insert_all k t' bs)"

definition rebuild :: "nat \<Rightarrow> octree \<Rightarrow> body list \<Rightarrow> octree option" where
  "rebuild k t bs = insert_all k (clear t) bs"

text \<open>
  A quotient flows into the force only through \<open>js_div\<close>: JavaScript's \<open>a / d\<close> is
  Infinity, -Infinity or NaN when \<open>d\<close> is zero, and \<open>None\<close> stands for a force that holds
  such a value. In the comparison \<open>(a / d) < t\<close> with \<open>d\<close> zero only -Infinity, the
  quotient of a negative \<open>a\<close>, is below \<open>t\<close>. The threshold \<open>1e-10\<close> of the leaf walk is the
  real number \<open>1 / 10 ^ 10\<close>.
\<close>

definition js_div :: "real \<Rightarrow> real \<Rightarrow> real option" where
  "js_div a d = (if d = 0 then None else Some (a / d))"

definition js_div_less :: "real \<Rightarrow> real \<Rightarrow> real \<Rightarrow> bool" where
  "js_div_less a d t = (if d = 0 then a < 0 else a / d < t)"

definition pairForce :: "real \<Rightarrow> body \<Rightarrow> vec3 \<Rightarrow> body \<Rightarrow> vec3 option" where
  "pairForce g b force otherBody =
     (if \<not> same_object otherBody b
      then (let direction = vsub (position otherBody) (position b);
                d2 = norm2 direction
            in if d2 > 1 / 10 ^ 10
               then (case js_div (g * mass b * mass otherBody) d2 of
                       None \<Rightarrow> None
                     | Some strength \<Rightarrow> Some (vadd force (scale_vec (unit_vec direction) strength)))
               else Some force)
      else Some force)"

fun forEachBody :: "real \<Rightarrow> body \<Rightarrow> body list \<Rightarrow> vec3 \<Rightarrow> vec3 option" where
  "forEachBody g b [] force = Some force"
| "forEachBody g b (otherBody # rest) force =
     (case pairForce g b force otherBody of
        None \<Rightarrow> None
      | Some force' \<Rightarrow> forEachBody g b rest force')"

fun calculateGravity_node :: "real \<Rightarrow> bnode \<Rightarrow> body \<Rightarrow> real \<Rightarrow> vec3 \<Rightarrow> vec3 option"
  and forEachChild :: "real \<Rightarrow> bnode list \<Rightarrow> body \<Rightarrow> real \<Rightarrow> vec3 \<Rightarrow> vec3 option"
where
  "calculateGravity_node g (BNode c h m cm leaf bs cs) b theta force =
     (if \<not> leaf
      then (let directionToCOM = vsub cm (position b);
                distance = norm_vec directionToCOM
            in if js_div_less h distance theta
               then (case js_div (g * mass b * m) (distance * distance) of
                       None \<Rightarrow> None
                     | Some strength \<Rightarrow>
                         Some (vadd force (scale_vec (unit_vec directionToCOM) strength)))
               else forEachChild g cs b theta force)
      else forEachBody g b bs force)"
| "forEachChild g [] b theta force = Some force"
| "forEachChild g (child # rest) b theta force =
     (case calculateGravity_node g child b theta force of
        None \<Rightarrow> None
      | Some force' \<Rightarrow> forEachChild g rest b theta force')"

definition calculateGravity :: "octree \<Rightarrow> body \<Rightarrow> real \<Rightarrow> vec3 option" where
  "calculateGravity t b theta = calculateGravity_node (gravityConstant t) (root t) b theta zero3"

section \<open>The single-occupant octree of OctreeNode.js\<close>

datatype snode = SNode (s_center: vec3) (halfDimension: vec3) (s_children: "snode option list")
  (s_body: "body option") (s_mass: real) (centerOfMass: vec3)

text \<open>
  \<open>children\<close> is a JavaScript array, created with eight \<open>null\<close> entries. Reading past its
  end gives \<open>undefined\<close>, which the source's tests treat like \<open>null\<close>; writing past its end
  extends it.
\<close>

definition js_get :: "'a option list \<Rightarrow> nat \<Rightarrow> 'a option" where
  "js_get xs i = (if i < length xs then xs ! i else None)"

definition js_set :: "'a option list \<Rightarrow> nat \<Rightarrow> 'a option \<Rightarrow> 'a option list" where
  "js_set xs i v =
     (if i < length xs then xs[i := v] else xs @ replicate (i - length xs) None @ [v])"

definition OctreeNode_strict :: "vec3 \<Rightarrow> vec3 \<Rightarrow> snode" where
  "OctreeNode_strict c h = SNode c h (replicate 8 None) None 0 (Vec3 0 0 0)"

text \<open>\<open>clear\<close> also clears each child before it drops it; the dropped children are not
  part of the node any more.\<close>

definition clear_strict :: "snode \<Rightarrow> snode" where
  "clear_strict n =
     SNode (s_center n) (halfDimension n) (map (\<lambda>child. None) (s_children n)) None 0 (Vec3 0 0 0)"

definition isLeaf_strict :: "snode \<Rightarrow> bool" where
  "isLeaf_strict n = list_all (\<lambda>child. child = None) (s_children n)"

definition getOctantIndex :: "snode \<Rightarrow> vec3 \<Rightarrow> nat" where
  "getOctantIndex n p =
     (if vx p \<ge> vx (s_center n) then 4 else 0) +
     (if vy p \<ge> vy (s_center n) then 2 else 0) +
     (if vz p \<ge> vz (s_center n) then 1 else 0)"

text \<open>\<open>i & 4\<close>, \<open>i & 2\<close> and \<open>i & 1\<close> test bits 2, 1 and 0 of the octant index.\<close>

definition octantSign :: "nat \<Rightarrow> nat \<Rightarrow> real" where
  "octantSign i m = (if (i div m) mod 2 = 1 then 0.5 else - 0.5)"

definition subdivideChild :: "snode \<Rightarrow> nat \<Rightarrow> snode" where
  "subdivideChild n i =
     (let newHalf = scale_vec (halfDimension n) 0.5;
          x = vx (s_center n) + vx newHalf * octantSign i 4;
          y = vy (s_center n) + vy newHalf * octantSign i 2;
          z = vz (s_center n) + vz newHalf * octantSign i 1
      in OctreeNode_strict (Vec3 x y z) newHalf)"

definition subdivide_strict :: "snode \<Rightarrow> snode" where
  "subdivide_strict n =
     SNode (s_center n) (halfDimension n)
       (fold (\<lambda>i cs. js_set cs i (Some (subdivideChild n i))) [0..<8] (s_children n))
       (s_body n) (s_mass n) (centerOfMass n)"

text \<open>As in octree.js, the new center of mass is a quotient by the new mass,
  \<open>scale(1 / totalMass)\<close>. Where the new mass is zero the source stores NaN or an infinity
  in \<open>centerOfMass\<close>, and the value of the definition there is not the value of the source.
  No statement below gives the value of the center of mass that an insertion stores for
  such a node; two rebuilds from the same bodies run the same operations on the same
  values.\<close>

definition updateMassAndCenterOfMass :: "snode \<Rightarrow> body \<Rightarrow> snode" where
  "updateMassAndCenterOfMass n b =
     (let totalMass = s_mass n + mass b;
          cm = scale_vec (vadd (scale_vec (centerOfMass n) (s_mass n))
                               (scale_vec (position b) (mass b))) (1 / totalMass)
      in SNode (s_center n) (halfDimension n) (s_children n) (s_body n) totalMass cm)"

text \<open>The child that \<open>insert\<close> creates when the octant of the new body is still \<open>null\<close>.\<close>

definition lazyChild :: "snode \<Rightarrow> nat \<Rightarrow> snode" where
  "lazyChild n octantIndex =
     OctreeNode_strict
       (Vec3 (vx (s_center n) + vx (halfDimension n) * octantSign octantIndex 4)
             (vy (s_center n) + vy (halfDimension n) * octantSign octantIndex 2)
             (vz (s_center n) + vz (halfDimension n) * octantSign octantIndex 1))
       (scale_vec (halfDimension n) 0.5)"

text \<open>
  \<open>insert\<close> calls itself on a child, and nothing in the source bounds the depth of the
  calls. As for octree.js, the pieces of the method take \<open>child.insert\<close> as the parameter
  \<open>ins\<close>, and \<open>insert_strict\<close> ties the knot with a bound on the call depth; \<open>None\<close> is
  the run that exceeds the bound. The source's first test returns when the node is a leaf
  without a body, so in its second test a leaf has a body; after \<open>subdivide\<close> the child of
  every octant exists.
\<close>

definition set_children :: "snode \<Rightarrow> snode option list \<Rightarrow> snode" where
  "set_children n cs = SNode (s_center n) (halfDimension n) cs (s_body n) (s_mass n) (centerOfMass n)"

definition set_body :: "snode \<Rightarrow> body option \<Rightarrow> snode" where
  "set_body n bo = SNode (s_center n) (halfDimension n) (s_children n) bo (s_mass n) (centerOfMass n)"

text \<open>The second test of \<open>insert\<close>: a leaf that holds a body subdivides and hands its body
  to the child of the body's octant.\<close>

definition subdivideAndReinsert :: "(snode \<Rightarrow> body \<Rightarrow> snode option) \<Rightarrow> snode \<Rightarrow> snode option" where
  "subdivideAndReinsert ins n =
     (case s_body n of
        None \<Rightarrow> None
      | Some a \<Rightarrow>
          (let n1 = subdivide_strict n;
               i = getOctantIndex n1 (position a)
           in case js_get (s_children n1) i of
                None \<Rightarrow> None
              | Some child \<Rightarrow>
                  (case ins child a of
                     None \<Rightarrow> None
                   | Some child' \<Rightarrow>
                       Some (set_body (set_children n1 (js_set (s_children n1) i (Some child'))) None))))"

text \<open>The rest of \<open>insert\<close>: the new body goes to the child of its octant, which is created
  if it is still \<open>null\<close>, and the node's mass and center of mass are updated.\<close>

definition insertIntoOctant :: "(snode \<Rightarrow> body \<Rightarrow> snode option) \<Rightarrow> snode \<Rightarrow> body \<Rightarrow> snode option" where
  "insertIntoOctant ins n b =
     (let octantIndex = getOctantIndex n (position b);
          child = (case js_get (s_children n) octantIndex of
                     None \<Rightarrow> lazyChild n octantIndex
                   | Some c \<Rightarrow> c)
      in case ins child b of
           None \<Rightarrow> None
         | Some child' \<Rightarrow>
             Some (updateMassAndCenterOfMass
                     (set_children n (js_set (s_children n) octantIndex (Some child'))) b))"

definition insert_step :: "(snode \<Rightarrow> body \<Rightarrow> snode option) \<Rightarrow> snode \<Rightarrow> body \<Rightarrow> snode option" where
  "insert_step ins n b =
     (if s_body n = None \<and> isLeaf_strict n
      then Some (SNode (s_center n) (halfDimension n) (s_children n) (Some b) (mass b) (position b))
      else
        (case (if isLeaf_strict n then subdivideAndReinsert ins n else Some n) of
           None \<Rightarrow> None
         | Some n2 \<Rightarrow> insertIntoOctant ins n2 b))"

fun insert_strict :: "nat \<Rightarrow> snode \<Rightarrow> body \<Rightarrow> snode option" where
  "insert_strict 0 n b = None"
| "insert_strict (Suc k) n b = insert_step (insert_strict k) n b"

fun insert_all_strict :: "nat \<Rightarrow> snode \<Rightarrow> body list \<Rightarrow> snode option" where
  "insert_all_strict k n [] = Some n"
| "insert_all_strict k n (b # bs) =
     (case insert_strict k n b of None \<Rightarrow> None | Some n' \<Rightarrow> insert_all_strict k n' bs)"

definition rebuild_strict :: "nat \<Rightarrow> snode \<Rightarrow> body list \<Rightarrow> snode option" where
  "rebuild_strict k n bs = insert_all_strict k (clear_strict n) bs"

text \<open>
  \<open>calculateForcesOnBody\<close> reads \<open>this.size\<close>, a property that no method of the class
  sets: it is \<open>undefined\<close>, the quotient \<open>this.size * this.size / distanceSquared\<close> is NaN
  and the comparison with \<open>theta * theta\<close> is false.
\<close>

definition size_of :: "snode \<Rightarrow> real option" where
  "size_of n = None"

definition sizeTest :: "snode \<Rightarrow> real \<Rightarrow> real \<Rightarrow> bool" where
  "sizeTest n d2 theta =
     (case size_of n of
        None \<Rightarrow> False
      | Some s \<Rightarrow> s * s / d2 < theta * theta)"

definition is_occupant :: "body \<Rightarrow> body option \<Rightarrow> bool" where
  "is_occupant b bo = (case bo of None \<Rightarrow> False | Some a \<Rightarrow> same_object b a)"

fun calculateForcesOnBody :: "snode \<Rightarrow> body \<Rightarrow> real \<Rightarrow> vec3 \<Rightarrow> real \<Rightarrow> vec3 option"
  and forcesOfChildren :: "snode option list \<Rightarrow> body \<Rightarrow> real \<Rightarrow> vec3 \<Rightarrow> real \<Rightarrow> vec3 option"
where
  "calculateForcesOnBody (SNode c h cs bo m cm) b theta force g =
     (if m = 0 \<or> is_occupant b bo then Some force
      else (let d2 = distanceSquared cm (position b)
            in if d2 = 0 then Some force
               else if sizeTest (SNode c h cs bo m cm) d2 theta \<or> isLeaf_strict (SNode c h cs bo m cm)
               then (case js_div (g * m * mass b) d2 of
                       None \<Rightarrow> None
                     | Some magnitude \<Rightarrow>
                         Some (vadd force (scale_vec (normalize_vec (vsub cm (position b))) magnitude)))
               else forcesOfChildren cs b theta force g))"
| "forcesOfChildren [] b theta force g = Some force"
| "forcesOfChildren (None # rest) b theta force g = forcesOfChildren rest b theta force g"
| "forcesOfChildren (Some child # rest) b theta force g =
     (case calculateForcesOnBody child b theta force g of
        None \<Rightarrow> None
      | Some force' \<Rightarrow> forcesOfChildren rest b theta force' g)"

section \<open>Contributions to the force\<close>

text \<open>
  Both walks add to the vector \<open>force\<close> that they are given. The contributions they add
  are named here: the sum of a list of vectors, the term of one pair of bodies in a leaf of
  octree.js, and the point-mass term of the spec,
  \<open>gravityConstant * node.mass * targetBody.mass / distance\<^sup>2\<close> along the unit vector from
  the body to the center of mass.
\<close>

definition sum_vec :: "vec3 list \<Rightarrow> vec3" where
  "sum_vec vs = foldr vadd vs zero3"

definition pointMassTerm :: "real \<Rightarrow> real \<Rightarrow> vec3 \<Rightarrow> body \<Rightarrow> vec3" where
  "pointMassTerm g m cm b =
     (let direction = vsub cm (position b); distance = norm_vec direction
      in scale_vec (unit_vec direction) (g * m * mass b / (distance * distance)))"

definition pairTerm :: "real \<Rightarrow> body \<Rightarrow> body \<Rightarrow> vec3" where
  "pairTerm g b otherBody =
     (let direction = vsub (position otherBody) (position b); d2 = norm2 direction
      in if same_object otherBody b \<or> d2 \<le> 1 / 10 ^ 10 then zero3
         else scale_vec (unit_vec direction) (g * mass b * mass otherBody / d2))"

text \<open>What a node adds to a force that starts at zero.\<close>

definition contribution_strict :: "snode \<Rightarrow> body \<Rightarrow> real \<Rightarrow> real \<Rightarrow> vec3" where
  "contribution_strict n b theta g =
     (case calculateForcesOnBody n b theta zero3 g of None \<Rightarrow> zero3 | Some v \<Rightarrow> v)"

definition contribution :: "real \<Rightarrow> bnode \<Rightarrow> body \<Rightarrow> real \<Rightarrow> vec3" where
  "contribution g n b theta =
     (case calculateGravity_node g n b theta zero3 of None \<Rightarrow> zero3 | Some v \<Rightarrow> v)"

text \<open>Every node of the tree has a half-size that is not negative, as in every tree that
  grows from \<open>Octree worldSize g\<close> with \<open>worldSize\<close> not negative.\<close>

fun nonneg_sizes :: "bnode \<Rightarrow> bool" where
  "nonneg_sizes (BNode c h m cm leaf bs cs) = (0 \<le> h \<and> (\<forall>child \<in> set cs. nonneg_sizes child))"

section \<open>Bodies and masses of a subtree\<close>

text \<open>
  The bodies stored in the subtree of a node, the nodes of a subtree, and the invariants of
  insertion into the tree of octree.js: \<open>mass_ok\<close>, every node's mass is the sum of the
  masses of the bodies stored below it; \<open>tree_ok\<close>, a leaf has no children, an internal node
  holds no bodies and has the eight regions that \<open>subdivide\<close> gives it, and a leaf contains
  the positions of its bodies.
\<close>

fun all_bodies :: "bnode \<Rightarrow> body list" where
  "all_bodies (BNode c h m cm leaf bs cs) = bs @ concat (map all_bodies cs)"

fun subtree_nodes :: "bnode \<Rightarrow> bnode list" where
  "subtree_nodes (BNode c h m cm leaf bs cs) =
     BNode c h m cm leaf bs cs # concat (map subtree_nodes cs)"

fun mass_ok :: "bnode \<Rightarrow> bool" where
  "mass_ok (BNode c h m cm leaf bs cs) =
     (m = sum_list (map mass (all_bodies (BNode c h m cm leaf bs cs))) \<and>
      (\<forall>child \<in> set cs. mass_ok child))"

definition box :: "bnode \<Rightarrow> vec3 \<times> real" where
  "box n = (center n, halfSize n)"

fun tree_ok :: "bnode \<Rightarrow> bool" where
  "tree_ok (BNode c h m cm leaf bs cs) =
     ((if leaf then cs = []
       else bs = [] \<and> map box cs = map box (newChildren (BNode c h m cm leaf bs cs))) \<and>
      (\<forall>b \<in> set bs. contains (BNode c h m cm leaf bs cs) (position b)) \<and>
      (\<forall>child \<in> set cs. tree_ok child))"

definition kids_ok :: "bnode list \<Rightarrow> bool" where
  "kids_ok cs = (\<forall>c \<in> set cs. tree_ok c \<and> mass_ok c)"

definition kids_bodies :: "bnode list \<Rightarrow> body multiset" where
  "kids_bodies cs = mset (concat (map all_bodies cs))"

definition ins_ok :: "(bnode \<Rightarrow> body \<Rightarrow> bnode option) \<Rightarrow> bool" where
  "ins_ok ins = (\<forall>c b c'. ins c b = Some c' \<longrightarrow> tree_ok c \<longrightarrow> mass_ok c \<longrightarrow>
       contains c (position b) \<longrightarrow>
       tree_ok c' \<and> mass_ok c' \<and> box c' = box c \<and>
       mset (all_bodies c') = mset (all_bodies c) + {#b#})"

text \<open>The same for the tree of OctreeNode.js, whose children may be \<open>null\<close>.\<close>

definition occupant :: "body option \<Rightarrow> body list" where
  "occupant bo = (case bo of None \<Rightarrow> [] | Some a \<Rightarrow> [a])"

fun all_bodies_strict :: "snode \<Rightarrow> body list"
  and children_bodies :: "snode option list \<Rightarrow> body list"
where
  "all_bodies_strict (SNode c h cs bo m cm) = occupant bo @ children_bodies cs"
| "children_bodies [] = []"
| "children_bodies (None # rest) = children_bodies rest"
| "children_bodies (Some child # rest) = all_bodies_strict child @ children_bodies rest"

fun subtree_nodes_strict :: "snode \<Rightarrow> snode list"
  and children_nodes :: "snode option list \<Rightarrow> snode list"
where
  "subtree_nodes_strict (SNode c h cs bo m cm) = SNode c h cs bo m cm # children_nodes cs"
| "children_nodes [] = []"
| "children_nodes (None # rest) = children_nodes rest"
| "children_nodes (Some child # rest) = subtree_nodes_strict child @ children_nodes rest"

fun mass_ok_strict :: "snode \<Rightarrow> bool"
  and children_mass_ok :: "snode option list \<Rightarrow> bool"
where
  "mass_ok_strict (SNode c h cs bo m cm) =
     (m = sum_list (map mass (all_bodies_strict (SNode c h cs bo m cm))) \<and> children_mass_ok cs)"
| "children_mass_ok [] = True"
| "children_mass_ok (None # rest) = children_mass_ok rest"
| "children_mass_ok (Some child # rest) = (mass_ok_strict child \<and> children_mass_ok rest)"

definition child_bodies :: "snode option \<Rightarrow> body multiset" where
  "child_bodies co = (case co of None \<Rightarrow> {#} | Some c \<Rightarrow> mset (all_bodies_strict c))"

definition child_ok :: "snode option \<Rightarrow> bool" where
  "child_ok co = (case co of None \<Rightarrow> True | Some c \<Rightarrow> mass_ok_strict c)"

definition ins_ok_strict :: "(snode \<Rightarrow> body \<Rightarrow> snode option) \<Rightarrow> bool" where
  "ins_ok_strict ins = (\<forall>c b c'. ins c b = Some c' \<longrightarrow> mass_ok_strict c \<longrightarrow>
       mass_ok_strict c' \<and> mset (all_bodies_strict c') = mset (all_bodies_strict c) + {#b#})"

text \<open>What insertion leaves unchanged in a node of OctreeNode.js.\<close>

definition frame_strict :: "snode \<Rightarrow> snode \<Rightarrow> bool" where
  "frame_strict n n' = (s_center n' = s_center n \<and> halfDimension n' = halfDimension n \<and>
     length (s_children n') = 8)"

section \<open>Example inputs\<close>

text \<open>Eleven bodies inside the cube of side 16, one more than a leaf of octree.js holds,
  and three bodies in three octants of that cube.\<close>

definition eleven :: "body list" where
  "eleven =
     [Body 1 (Vec3 (- 5) 1 1) 1, Body 2 (Vec3 (- 4) 1 1) 2, Body 3 (Vec3 (- 3) 1 1) 3,
      Body 4 (Vec3 (- 2) 1 1) 4, Body 5 (Vec3 (- 1) 1 1) 5, Body 6 (Vec3 0 1 1) 6,
      Body 7 (Vec3 1 1 1) 7, Body 8 (Vec3 2 1 1) 8, Body 9 (Vec3 3 1 1) 9,
      Body 10 (Vec3 4 1 1) 10, Body 11 (Vec3 5 1 1) 11]"

definition three :: "body list" where
  "three = [Body 1 (Vec3 (- 5) 1 1) 1, Body 2 (Vec3 3 1 1) 2, Body 3 (Vec3 3 (- 1) 1) 3]"

section \<open>The path of an insertion\<close>

text \<open>
  The nodes that \<open>insert\<close> of octree.js visits for a position: the node itself and, below an
  internal node, the nodes visited in the first child that contains the position. The
  position is dropped when the path ends at an internal node none of whose children contains
  it. \<open>bumped\<close> relates a node before and after \<open>updateMassDistribution\<close>.
\<close>

fun visited :: "bnode \<Rightarrow> vec3 \<Rightarrow> bnode list"
  and visited_in :: "bnode list \<Rightarrow> vec3 \<Rightarrow> bnode list"
where
  "visited (BNode c h m cm leaf bs cs) p =
     BNode c h m cm leaf bs cs # (if leaf then [] else visited_in cs p)"
| "visited_in [] p = []"
| "visited_in (child # rest) p = (if contains child p then visited child p else visited_in rest p)"

fun dropped :: "bnode \<Rightarrow> vec3 \<Rightarrow> bool"
  and dropped_in :: "bnode list \<Rightarrow> vec3 \<Rightarrow> bool"
where
  "dropped (BNode c h m cm leaf bs cs) p = (\<not> leaf \<and> dropped_in cs p)"
| "dropped_in [] p = True"
| "dropped_in (child # rest) p = (if contains child p then dropped child p else dropped_in rest p)"

definition bumped :: "body \<Rightarrow> bnode \<Rightarrow> bnode \<Rightarrow> bool" where
  "bumped b n n' = (nmass n' = nmass n + mass b \<and> com n' = com (updateMassDistribution n b))"

definition drop_result :: "body \<Rightarrow> bnode \<Rightarrow> bnode \<Rightarrow> bool" where
  "drop_result b n n' =
     (box n' = box n \<and> all_bodies n' = all_bodies n \<and>
      list_all2 (bumped b) (visited n (position b)) (visited n' (position b)))"

text \<open>A leaf of octree.js without children that contains the position \<open>p\<close> and holds
  \<open>m\<close> bodies, all of them at \<open>p\<close>.\<close>

definition stack :: "vec3 \<Rightarrow> nat \<Rightarrow> bnode \<Rightarrow> bool" where
  "stack p m c = (isLeaf c \<and> children c = [] \<and> contains c p \<and> length (bodies c) = m \<and>
     (\<forall>a \<in> set (bodies c). position a = p))"

text \<open>An insertion that keeps the half-sizes of a tree from being negative.\<close>

definition ins_nonneg :: "(bnode \<Rightarrow> body \<Rightarrow> bnode option) \<Rightarrow> bool" where
  "ins_nonneg ins = (\<forall>c b c'. ins c b = Some c' \<longrightarrow> nonneg_sizes c \<longrightarrow> nonneg_sizes c')"

section \<open>Bodies that no subdivision separates, and positive masses\<close>

text \<open>
  \<open>subdivide\<close> of OctreeNode.js puts the center of child 7 at the center of the node plus a
  quarter of its half-dimension, and halves the half-dimension. The point at the center plus
  half the half-dimension is therefore the same for the node and for its child 7, and a
  position at or beyond that point in all three coordinates lies in octant 7 of the node, of
  its child 7, and so on.
\<close>

definition beyond :: "snode \<Rightarrow> vec3 \<Rightarrow> bool" where
  "beyond n p =
     (0 \<le> vx (halfDimension n) \<and> 0 \<le> vy (halfDimension n) \<and> 0 \<le> vz (halfDimension n) \<and>
      vx (s_center n) + vx (halfDimension n) / 2 \<le> vx p \<and>
      vy (s_center n) + vy (halfDimension n) / 2 \<le> vy p \<and>
      vz (s_center n) + vz (halfDimension n) / 2 \<le> vz p)"

text \<open>
  In a tree of octree.js whose bodies have positive masses and whose nodes have masses that
  are not negative, \<open>updateMassDistribution\<close> with a body of positive mass divides by a new
  mass that is positive: the center of mass that it stores is a number, and is the one of the
  definition. \<open>ins_positive\<close> is an insertion that keeps a tree so.
\<close>

fun positive_masses :: "bnode \<Rightarrow> bool" where
  "positive_masses (BNode c h m cm leaf bs cs) =
     (0 \<le> m \<and> (\<forall>a \<in> set bs. 0 < mass a) \<and> (\<forall>child \<in> set cs. positive_masses child))"

definition ins_positive :: "(bnode \<Rightarrow> body \<Rightarrow> bnode option) \<Rightarrow> bool" where
  "ins_positive ins = (\<forall>c b c'. ins c b = Some c' \<longrightarrow> positive_masses c \<longrightarrow> 0 < mass b \<longrightarrow>
       positive_masses c')"

section \<open>The walks add their contribution to the force\<close>

lemma vadd_assoc: "vadd (vadd a b) c = vadd a (vadd b c)"
  by (simp add: vadd_def)

lemma vadd_zero3 [simp]: "vadd a zero3 = a" "vadd zero3 a = a"
  by (simp_all add: vadd_def zero3_def)

lemma sum_vec_simps [simp]: "sum_vec [] = zero3" "sum_vec (v # vs) = vadd v (sum_vec vs)"
  by (simp_all add: sum_vec_def)

lemma forcesOfChildren_acc:
  assumes "\<And>c. Some c \<in> set cs \<Longrightarrow> \<exists>v. \<forall>f. calculateForcesOnBody c b theta f g = Some (vadd f v)"
  shows "\<exists>v. \<forall>f. forcesOfChildren cs b theta f g = Some (vadd f v)"
  using assms
proof (induction cs)
  case Nil
  have "\<forall>f. forcesOfChildren [] b theta f g = Some (vadd f zero3)" by simp
  then show ?case by blast
next
  case (Cons co cs)
  from Cons obtain w where w: "\<forall>f. forcesOfChildren cs b theta f g = Some (vadd f w)"
    by auto
  show ?case
  proof (cases co)
    case None
    with w show ?thesis by auto
  next
    case (Some c)
    with Cons.prems obtain v where v: "\<forall>f. calculateForcesOnBody c b theta f g = Some (vadd f v)"
      by auto
    have "\<forall>f. forcesOfChildren (co # cs) b theta f g = Some (vadd f (vadd v w))"
      using Some v w by (simp add: vadd_assoc)
    then show ?thesis by blast
  qed
qed

lemma calculateForcesOnBody_acc:
  "\<exists>v. \<forall>f. calculateForcesOnBody n b theta f g = Some (vadd f v)"
proof (induction n)
  case (SNode c h cs bo m cm)
  have kids: "\<exists>v. \<forall>f. forcesOfChildren cs b theta f g = Some (vadd f v)"
    by (rule forcesOfChildren_acc) (use SNode in auto)
  then obtain w where w: "\<forall>f. forcesOfChildren cs b theta f g = Some (vadd f w)" by blast
  let ?d2 = "distanceSquared cm (position b)"
  let ?pm = "scale_vec (normalize_vec (vsub cm (position b))) (g * m * mass b / ?d2)"
  show ?case
  proof (cases "m = 0 \<or> is_occupant b bo \<or> ?d2 = 0")
    case True
    then have "\<forall>f. calculateForcesOnBody (SNode c h cs bo m cm) b theta f g = Some (vadd f zero3)"
      by auto
    then show ?thesis by blast
  next
    case False
    show ?thesis
    proof (cases "sizeTest (SNode c h cs bo m cm) ?d2 theta \<or> isLeaf_strict (SNode c h cs bo m cm)")
      case True
      with False have "\<forall>f. calculateForcesOnBody (SNode c h cs bo m cm) b theta f g = Some (vadd f ?pm)"
        by (simp add: js_div_def)
      then show ?thesis by blast
    next
      case no: False
      with False w have "\<forall>f. calculateForcesOnBody (SNode c h cs bo m cm) b theta f g = Some (vadd f w)"
        by simp
      then show ?thesis by blast
    qed
  qed
qed

lemma pairForce_eq: "pairForce g b f otherBody = Some (vadd f (pairTerm g b otherBody))"
proof -
  have pos: "(0::real) < 1 / 10 ^ 10" by simp
  show ?thesis
    using pos by (auto simp: pairForce_def pairTerm_def js_div_def Let_def)
qed

lemma forEachBody_eq:
  "forEachBody g b os f = Some (vadd f (sum_vec (map (pairTerm g b) os)))"
  by (induction os arbitrary: f) (simp_all add: pairForce_eq vadd_assoc)

lemma forEachChild_acc:
  assumes "\<And>c. c \<in> set cs \<Longrightarrow> \<exists>v. \<forall>f. calculateGravity_node g c b theta f = Some (vadd f v)"
  shows "\<exists>v. \<forall>f. forEachChild g cs b theta f = Some (vadd f v)"
  using assms
proof (induction cs)
  case Nil
  have "\<forall>f. forEachChild g [] b theta f = Some (vadd f zero3)" by simp
  then show ?case by blast
next
  case (Cons c cs)
  from Cons obtain w where w: "\<forall>f. forEachChild g cs b theta f = Some (vadd f w)"
    by auto
  from Cons.prems obtain v where v: "\<forall>f. calculateGravity_node g c b theta f = Some (vadd f v)"
    by auto
  have "\<forall>f. forEachChild g (c # cs) b theta f = Some (vadd f (vadd v w))"
    using v w by (simp add: vadd_assoc)
  then show ?case by blast
qed

lemma js_div_less_nonzero: "0 \<le> h \<Longrightarrow> js_div_less h d theta \<Longrightarrow> d \<noteq> 0"
  by (auto simp: js_div_less_def)

lemma calculateGravity_node_acc:
  "nonneg_sizes n \<Longrightarrow> \<exists>v. \<forall>f. calculateGravity_node g n b theta f = Some (vadd f v)"
proof (induction n)
  case (BNode c h m cm leaf bs cs)
  have "\<exists>v. \<forall>f. forEachChild g cs b theta f = Some (vadd f v)"
    by (rule forEachChild_acc) (use BNode in auto)
  then obtain w where w: "\<forall>f. forEachChild g cs b theta f = Some (vadd f w)" by blast
  let ?dir = "vsub cm (position b)"
  let ?d = "norm_vec ?dir"
  show ?case
  proof (cases leaf)
    case True
    then have "\<forall>f. calculateGravity_node g (BNode c h m cm leaf bs cs) b theta f =
        Some (vadd f (sum_vec (map (pairTerm g b) bs)))"
      by (simp add: forEachBody_eq)
    then show ?thesis by blast
  next
    case False
    show ?thesis
    proof (cases "js_div_less h ?d theta")
      case True
      with BNode.prems have "?d \<noteq> 0" using js_div_less_nonzero by auto
      with True False have "\<forall>f. calculateGravity_node g (BNode c h m cm leaf bs cs) b theta f =
          Some (vadd f (scale_vec (unit_vec ?dir) (g * mass b * m / (?d * ?d))))"
        by (simp add: js_div_def Let_def)
      then show ?thesis by blast
    next
      case no: False
      with False w have "\<forall>f. calculateGravity_node g (BNode c h m cm leaf bs cs) b theta f =
          Some (vadd f w)"
        by (simp add: Let_def)
      then show ?thesis by blast
    qed
  qed
qed

lemma calculateForcesOnBody_contribution:
  "calculateForcesOnBody n b theta f g = Some (vadd f (contribution_strict n b theta g))"
proof -
  obtain v where v: "\<forall>f. calculateForcesOnBody n b theta f g = Some (vadd f v)"
    using calculateForcesOnBody_acc by blast
  then have "calculateForcesOnBody n b theta zero3 g = Some v"
    by (metis vadd_zero3(2))
  then have "contribution_strict n b theta g = v"
    by (simp add: contribution_strict_def)
  with v show ?thesis by simp
qed

lemma forcesOfChildren_contribution:
  "forcesOfChildren cs b theta f g =
     Some (vadd f (sum_vec (map (\<lambda>c. contribution_strict c b theta g) (List.map_filter id cs))))"
proof (induction cs arbitrary: f)
  case Nil
  then show ?case by (simp add: List.map_filter_simps)
next
  case (Cons co cs)
  then show ?case
    by (cases co) (simp_all add: List.map_filter_simps calculateForcesOnBody_contribution vadd_assoc)
qed

lemma calculateGravity_node_contribution:
  assumes "nonneg_sizes n"
  shows "calculateGravity_node g n b theta f = Some (vadd f (contribution g n b theta))"
proof -
  obtain v where v: "\<forall>f. calculateGravity_node g n b theta f = Some (vadd f v)"
    using calculateGravity_node_acc[OF assms] by blast
  then have "calculateGravity_node g n b theta zero3 = Some v"
    by (metis vadd_zero3(2))
  then have "contribution g n b theta = v"
    by (simp add: contribution_def)
  with v show ?thesis by simp
qed

lemma forEachChild_contribution:
  assumes "\<forall>c \<in> set cs. nonneg_sizes c"
  shows "forEachChild g cs b theta f =
     Some (vadd f (sum_vec (map (\<lambda>c. contribution g c b theta) cs)))"
  using assms
  by (induction cs arbitrary: f) (simp_all add: calculateGravity_node_contribution vadd_assoc)

lemma norm2_nonneg: "0 \<le> norm2 a"
  by (simp add: norm2_def)

lemma norm_vec_square: "norm_vec a * norm_vec a = norm2 a"
  by (simp add: norm_vec_def norm2_nonneg)

lemma norm_vec_zero_iff: "norm_vec a = 0 \<longleftrightarrow> norm2 a = 0"
  by (simp add: norm_vec_def)

lemma norm2_vsub_swap: "norm2 (vsub a b) = norm2 (vsub b a)"
  by (simp add: norm2_def vsub_def algebra_simps)

lemma unit_normalize: "norm2 a \<noteq> 0 \<Longrightarrow> normalize_vec a = unit_vec a"
  using norm2_nonneg[of a]
  by (simp add: normalize_vec_def unit_vec_def norm_vec_def Let_def)

lemma strict_pointMass:
  assumes "distanceSquared cm (position b) \<noteq> 0"
  shows "scale_vec (normalize_vec (vsub cm (position b))) (g * m * mass b / distanceSquared cm (position b))
     = pointMassTerm g m cm b"
proof -
  have d: "distanceSquared cm (position b) = norm2 (vsub cm (position b))"
    by (simp add: distanceSquared_def norm2_vsub_swap)
  with assms have "norm2 (vsub cm (position b)) \<noteq> 0" by simp
  then show ?thesis
    by (simp add: pointMassTerm_def Let_def unit_normalize norm_vec_square d)
qed

lemma pairTerm_pointMass:
  "pairTerm g b a =
     (if same_object a b \<or> norm2 (vsub (position a) (position b)) \<le> 1 / 10 ^ 10 then zero3
      else pointMassTerm g (mass a) (position a) b)"
  by (simp add: pairTerm_def pointMassTerm_def Let_def norm_vec_square mult.commute mult.left_commute)

lemma sqrt_square_numeral: "sqrt 4 = 2" "sqrt 9 = 3" "sqrt 256 = 16"
  using real_sqrt_abs[of 2] real_sqrt_abs[of 3] real_sqrt_abs[of 16] by simp_all

section \<open>Magnitudes and single-body trees\<close>

lemma norm2_scale: "norm2 (scale_vec a s) = s * s * norm2 a"
  by (simp add: norm2_def scale_vec_def algebra_simps)

lemma norm2_unit: "norm2 a \<noteq> 0 \<Longrightarrow> norm2 (unit_vec a) = 1"
proof -
  assume nz: "norm2 a \<noteq> 0"
  with norm2_nonneg[of a] have pos: "0 < norm2 a" by simp
  then have "0 < norm_vec a" by (simp add: norm_vec_def)
  then have "unit_vec a = scale_vec a (1 / norm_vec a)"
    by (simp add: unit_vec_def Let_def)
  then have "norm2 (unit_vec a) = (1 / norm_vec a) * (1 / norm_vec a) * norm2 a"
    by (simp add: norm2_scale)
  also have "\<dots> = norm2 a / (norm_vec a * norm_vec a)" by simp
  also have "\<dots> = 1" using nz by (simp add: norm_vec_square)
  finally show ?thesis .
qed

lemma norm_scaled_unit: "norm2 a \<noteq> 0 \<Longrightarrow> norm_vec (scale_vec (unit_vec a) s) = \<bar>s\<bar>"
proof -
  assume "norm2 a \<noteq> 0"
  then have "norm2 (scale_vec (unit_vec a) s) = s * s" by (simp add: norm2_scale norm2_unit)
  then show ?thesis by (simp add: norm_vec_def)
qed

lemma norm_pointMassTerm:
  assumes "norm2 (vsub cm (position b)) \<noteq> 0"
  shows "norm_vec (pointMassTerm g m cm b) = \<bar>g * m * mass b\<bar> / norm2 (vsub cm (position b))"
  using assms norm2_nonneg[of "vsub cm (position b)"]
  by (simp add: pointMassTerm_def Let_def norm_scaled_unit norm_vec_square)

lemma isLeaf_strict_clear: "isLeaf_strict (clear_strict n)"
  by (simp add: isLeaf_strict_def clear_strict_def list_all_iff)

lemma rebuild_strict_single:
  "rebuild_strict (Suc k) n [b] =
     Some (SNode (s_center n) (halfDimension n) (map (\<lambda>child. None) (s_children n)) (Some b)
             (mass b) (position b))"
  using isLeaf_strict_clear[of n]
  by (simp add: rebuild_strict_def insert_step_def) (simp add: clear_strict_def)

lemma rebuild_single:
  "rebuild (Suc k) t [b] =
     Some (t\<lparr>root := BNode (center (root t)) (halfSize (root t)) (mass b)
             (Vec3 ((vx (position b) * mass b) / mass b) ((vy (position b) * mass b) / mass b)
                   ((vz (position b) * mass b) / mass b)) True [b] []\<rparr>)"
  by (simp add: rebuild_def clear_def insert_tree_def insert_body_def OctreeNode_def
      MAX_BODIES_PER_NODE_def updateMassDistribution_def Let_def)

lemma sum_pos_zero_nil:
  assumes "\<forall>x \<in> set xs. (0::real) < f x" "sum_list (map f xs) = 0"
  shows "xs = []"
proof (cases xs)
  case Nil then show ?thesis .
next
  case (Cons x ys)
  have "0 \<le> sum_list (map f ys)" using assms(1) Cons
    by (intro sum_list_nonneg) auto
  moreover have "0 < f x" using assms(1) Cons by simp
  ultimately show ?thesis using assms(2) Cons by simp
qed

section \<open>Insertion into the tree of octree.js keeps the invariants\<close>

lemma contains_box: "box c = box d \<Longrightarrow> contains c p = contains d p"
  by (simp add: box_def contains_def)

lemma exists_contains_box:
  "map box cs = map box ds \<Longrightarrow> (\<exists>c \<in> set cs. contains c p) = (\<exists>d \<in> set ds. contains d p)"
proof (induction cs arbitrary: ds)
  case Nil
  then show ?case by simp
next
  case (Cons c cs)
  then obtain d ds' where ds: "ds = d # ds'" by (cases ds) auto
  with Cons.prems have "box c = box d" "map box cs = map box ds'" by auto
  with Cons.IH[of ds'] contains_box[of c d p] ds show ?case by simp
qed

lemma newChildren_list:
  "newChildren n =
     (let q = halfSize n * 0.5; cx = vx (center n); cy = vy (center n); cz = vz (center n) in
      [OctreeNode (Vec3 (cx - q) (cy - q) (cz - q)) q, OctreeNode (Vec3 (cx - q) (cy - q) (cz + q)) q,
       OctreeNode (Vec3 (cx - q) (cy + q) (cz - q)) q, OctreeNode (Vec3 (cx - q) (cy + q) (cz + q)) q,
       OctreeNode (Vec3 (cx + q) (cy - q) (cz - q)) q, OctreeNode (Vec3 (cx + q) (cy - q) (cz + q)) q,
       OctreeNode (Vec3 (cx + q) (cy + q) (cz - q)) q, OctreeNode (Vec3 (cx + q) (cy + q) (cz + q)) q])"
  by (simp add: newChildren_def Let_def)

lemma newChildren_cover:
  assumes "contains n p"
  shows "\<exists>c \<in> set (newChildren n). contains c p"
proof -
  let ?q = "halfSize n * 0.5"
  have x: "vx p \<le> vx (center n) \<or> vx (center n) \<le> vx p" by linarith
  have y: "vy p \<le> vy (center n) \<or> vy (center n) \<le> vy p" by linarith
  have z: "vz p \<le> vz (center n) \<or> vz (center n) \<le> vz p" by linarith
  from x y z assms show ?thesis
    unfolding newChildren_list Let_def
    by (elim disjE) (simp_all add: contains_def OctreeNode_def)
qed

lemma kids_bodies_simps [simp]:
  "kids_bodies [] = {#}" "kids_bodies (c # cs) = mset (all_bodies c) + kids_bodies cs"
  by (simp_all add: kids_bodies_def)

lemma kids_ok_simps [simp]:
  "kids_ok []" "kids_ok (c # cs) = (tree_ok c \<and> mass_ok c \<and> kids_ok cs)"
  by (auto simp: kids_ok_def)

lemma insertFirst_ok:
  assumes "ins_ok ins"
  shows "insertFirst ins cs b = Some cs' \<Longrightarrow> kids_ok cs \<Longrightarrow>
         \<exists>c \<in> set cs. contains c (position b) \<Longrightarrow>
         kids_ok cs' \<and> map box cs' = map box cs \<and> kids_bodies cs' = kids_bodies cs + {#b#}"
proof (induction cs arbitrary: cs')
  case Nil
  then show ?case by simp
next
  case (Cons c cs)
  show ?case
  proof (cases "contains c (position b)")
    case True
    with Cons.prems obtain c' where c': "ins c b = Some c'" "cs' = c' # cs"
      by (auto split: option.splits)
    with assms Cons.prems True have "tree_ok c' \<and> mass_ok c' \<and> box c' = box c \<and>
       mset (all_bodies c') = mset (all_bodies c) + {#b#}"
      unfolding ins_ok_def by auto
    with c' Cons.prems show ?thesis by simp
  next
    case False
    with Cons.prems obtain ds where ds: "insertFirst ins cs b = Some ds" "cs' = c # ds"
      by (auto split: option.splits)
    with Cons.IH[of ds] Cons.prems False show ?thesis by auto
  qed
qed

lemma moveBodies_ok:
  assumes "ins_ok ins"
  shows "moveBodies ins n bs = Some n' \<Longrightarrow> kids_ok (children n) \<Longrightarrow>
         \<forall>b \<in> set bs. \<exists>c \<in> set (children n). contains c (position b) \<Longrightarrow>
         (\<exists>cs'. n' = BNode (center n) (halfSize n) (nmass n) (com n) (isLeaf n) (bodies n) cs' \<and>
            kids_ok cs' \<and> map box cs' = map box (children n) \<and>
            kids_bodies cs' = kids_bodies (children n) + mset bs)"
proof (induction bs arbitrary: n)
  case Nil
  then show ?case by (cases n) auto
next
  case (Cons b bs)
  from Cons.prems(1) obtain cs1 where
    cs1: "insertFirst ins (children n) b = Some cs1" and
    rest: "moveBodies ins (BNode (center n) (halfSize n) (nmass n) (com n) (isLeaf n) (bodies n) cs1) bs = Some n'"
    by (auto simp: insertIntoChild_def split: option.splits)
  let ?n1 = "BNode (center n) (halfSize n) (nmass n) (com n) (isLeaf n) (bodies n) cs1"
  from insertFirst_ok[OF assms cs1] Cons.prems have
    ok1: "kids_ok cs1" "map box cs1 = map box (children n)"
      "kids_bodies cs1 = kids_bodies (children n) + {#b#}"
    by auto
  have cover: "\<forall>b \<in> set bs. \<exists>c \<in> set (children ?n1). contains c (position b)"
    using Cons.prems(3) exists_contains_box[OF ok1(2)] by simp
  from Cons.IH[OF rest _ cover] ok1 show ?case by auto
qed

lemma mass_sum_mset: "mset xs = M \<Longrightarrow> sum_list (map mass xs) = sum_mset (image_mset mass M)"
  by (metis mset_map sum_mset_sum_list)

lemma newChildren_box: "box a = box b \<Longrightarrow> newChildren a = newChildren b"
  by (simp add: box_def newChildren_def)

lemma newChildren_fresh: "kids_ok (newChildren n)" "kids_bodies (newChildren n) = {#}"
  by (simp_all add: newChildren_list Let_def OctreeNode_def)

lemma updateMassDistribution_sel [simp]:
  "center (updateMassDistribution n b) = center n"
  "halfSize (updateMassDistribution n b) = halfSize n"
  "nmass (updateMassDistribution n b) = nmass n + mass b"
  "isLeaf (updateMassDistribution n b) = isLeaf n"
  "bodies (updateMassDistribution n b) = bodies n"
  "children (updateMassDistribution n b) = children n"
  by (simp_all add: updateMassDistribution_def Let_def)

lemma mass_ok_iff:
  "mass_ok n = (nmass n = sum_list (map mass (all_bodies n)) \<and> (\<forall>c \<in> set (children n). mass_ok c))"
  by (cases n) simp

lemma tree_ok_iff:
  "tree_ok n =
     ((if isLeaf n then children n = []
       else bodies n = [] \<and> map box (children n) = map box (newChildren n)) \<and>
      (\<forall>b \<in> set (bodies n). contains n (position b)) \<and>
      (\<forall>c \<in> set (children n). tree_ok c))"
  by (cases n) simp

lemma all_bodies_iff: "mset (all_bodies n) = mset (bodies n) + kids_bodies (children n)"
  by (cases n) (simp add: kids_bodies_def)

lemma all_bodies_update [simp]: "all_bodies (updateMassDistribution n b) = all_bodies n"
  by (cases n) (simp add: updateMassDistribution_def Let_def)

lemma tree_ok_update [simp]: "tree_ok (updateMassDistribution n b) = tree_ok n"
  by (cases n) (simp add: updateMassDistribution_def Let_def newChildren_def contains_def)

lemma mass_ok_update:
  "mass_ok (updateMassDistribution n b) =
     (nmass n + mass b = sum_list (map mass (all_bodies n)) \<and> (\<forall>c \<in> set (children n). mass_ok c))"
  by (cases n) (simp add: updateMassDistribution_def Let_def)

text \<open>An internal node with sound children, once its mass is updated.\<close>

lemma internal_after_update:
  assumes "n2 = BNode c h m cm False [] cs'" "kids_ok cs'"
    "map box cs' = map box (newChildren n2)" "kids_bodies cs' = B + {#b#}"
    "m = sum_mset (image_mset mass B)"
  shows "tree_ok (updateMassDistribution n2 b) \<and> mass_ok (updateMassDistribution n2 b) \<and>
         mset (all_bodies (updateMassDistribution n2 b)) = B + {#b#}"
proof -
  have bodies: "mset (all_bodies n2) = B + {#b#}"
    using assms(1,4) by (simp add: kids_bodies_def)
  have "tree_ok n2"
    using assms(1,2,3) by (simp add: kids_ok_def)
  moreover have "mass_ok (updateMassDistribution n2 b)"
    using assms(1,2,5) mass_sum_mset[OF bodies] by (simp add: mass_ok_update kids_ok_def)
  ultimately show ?thesis using bodies by simp
qed

lemma insert_body_ok:
  assumes ins: "ins_ok ins"
  shows "ins_ok (insert_body ins)"
  unfolding ins_ok_def
proof (intro allI impI)
  fix n b n'
  assume run: "insert_body ins n b = Some n'" and t: "tree_ok n" and m: "mass_ok n"
    and inside: "contains n (position b)"
  obtain c h ms cm leaf bs cs where n: "n = BNode c h ms cm leaf bs cs" by (cases n)
  have msum: "ms = sum_mset (image_mset mass (mset (all_bodies n)))"
    using m n mass_sum_mset[of "all_bodies n"] by simp
  show "tree_ok n' \<and> mass_ok n' \<and> box n' = box n \<and> mset (all_bodies n') = mset (all_bodies n) + {#b#}"
  proof (cases leaf)
    case False
    with t n have bs: "bs = []" and boxes: "map box cs = map box (newChildren n)"
      and kids: "kids_ok cs"
      using m by (auto simp: kids_ok_def)
    from run False n obtain cs' where
      first: "insertFirst ins cs b = Some cs'" and
      n': "n' = updateMassDistribution (BNode c h ms cm False [] cs') b"
      by (auto simp: insert_body_def insertIntoChild_def bs Let_def split: option.splits if_splits)
    have "\<exists>c \<in> set cs. contains c (position b)"
      using newChildren_cover[OF inside] exists_contains_box[OF boxes] by simp
    from insertFirst_ok[OF ins first kids this] have
      ok: "kids_ok cs'" "map box cs' = map box cs" "kids_bodies cs' = kids_bodies cs + {#b#}"
      by auto
    let ?n2 = "BNode c h ms cm False [] cs'"
    have same: "newChildren ?n2 = newChildren n"
      by (rule newChildren_box) (simp add: n box_def)
    have "kids_bodies cs = mset (all_bodies n)"
      using n bs by (simp add: kids_bodies_def)
    with internal_after_update[of ?n2 c h ms cm cs' "mset (all_bodies n)" b] ok boxes same msum
    have "tree_ok n' \<and> mass_ok n' \<and> mset (all_bodies n') = mset (all_bodies n) + {#b#}"
      using n' by simp
    moreover have "box n' = box n" using n' n by (simp add: box_def)
    ultimately show ?thesis by simp
  next
    case True
    with t n have cs: "cs = []" and held: "\<forall>a \<in> set bs. contains n (position a)" by auto
    from m n cs have ms: "ms = sum_list (map mass bs)" by simp
    let ?n1 = "BNode c h ms cm True (bs @ [b]) []"
    show ?thesis
    proof (cases "length (bs @ [b]) > MAX_BODIES_PER_NODE")
      case False
      with run True n cs have n': "n' = updateMassDistribution ?n1 b"
        by (auto simp: insert_body_def Let_def split: option.splits if_splits)
      have "tree_ok n'"
        using held inside n by (simp add: n' contains_def)
      moreover have "mass_ok n'"
        using ms by (simp add: n' mass_ok_update)
      moreover have "box n' = box n" using n' n by (simp add: box_def)
      moreover have "mset (all_bodies n') = mset (all_bodies n) + {#b#}"
        using n cs by (simp add: n' all_bodies_iff)
      ultimately show ?thesis by simp
    next
      case big: True
      let ?n0 = "BNode c h ms cm False [] (newChildren ?n1)"
      from run True n cs big obtain n2 where
        mv: "moveBodies ins ?n0 (bs @ [b]) = Some n2" and
        fin: "(if isLeaf n2 \<and> length (bodies n2) > MAX_BODIES_PER_NODE
              then subdivide ins (updateMassDistribution n2 b)
              else Some (updateMassDistribution n2 b)) = Some n'"
        by (auto simp: insert_body_def subdivide_def Let_def split: option.splits)
      have same: "newChildren ?n1 = newChildren n" "newChildren ?n0 = newChildren n"
        by (rule newChildren_box, simp add: n box_def)+
      have cover: "\<forall>a \<in> set (bs @ [b]). \<exists>c \<in> set (children ?n0). contains c (position a)"
        using held inside newChildren_cover[of n] same by auto
      from moveBodies_ok[OF ins mv _ cover] newChildren_fresh[of ?n1]
      obtain cs' where n2: "n2 = BNode c h ms cm False [] cs'" and
        ok: "kids_ok cs'" "map box cs' = map box (newChildren n)"
          "kids_bodies cs' = mset bs + {#b#}"
        using same by auto
      from fin n2 have n': "n' = updateMassDistribution n2 b" by simp
      have same2: "newChildren n2 = newChildren n"
        by (rule newChildren_box) (simp add: n n2 box_def)
      have all: "mset (all_bodies n) = mset bs" using n cs by simp
      from internal_after_update[of n2 c h ms cm cs' "mset bs" b] n2 ok same2 msum all
      have "tree_ok n' \<and> mass_ok n' \<and> mset (all_bodies n') = mset bs + {#b#}"
        using n' by simp
      moreover have "box n' = box n" using n' n n2 by (simp add: box_def)
      ultimately show ?thesis using all by simp
    qed
  qed
qed

lemma insert_node_ok: "ins_ok (insert_node k)"
proof (induction k)
  case 0
  have "insert_node 0 = (\<lambda>n b. None)" by (intro ext) simp
  then show ?case by (simp add: ins_ok_def)
next
  case (Suc k)
  have "insert_node (Suc k) = insert_body (insert_node k)" by (intro ext) simp
  with insert_body_ok[OF Suc] show ?case by simp
qed

lemma insert_node_invariant:
  assumes "insert_node k n b = Some n'" "tree_ok n" "mass_ok n" "contains n (position b)"
  shows "tree_ok n'" "mass_ok n'" "box n' = box n" "mset (all_bodies n') = mset (all_bodies n) + {#b#}"
  using insert_node_ok[of k] assms unfolding ins_ok_def by blast+

lemma insert_all_invariant:
  "insert_all k t bs = Some t' \<Longrightarrow> tree_ok (root t) \<Longrightarrow> mass_ok (root t) \<Longrightarrow>
   \<forall>b \<in> set bs. contains (root t) (position b) \<Longrightarrow>
   tree_ok (root t') \<and> mass_ok (root t') \<and> box (root t') = box (root t) \<and>
   mset (all_bodies (root t')) = mset (all_bodies (root t)) + mset bs"
proof (induction bs arbitrary: t)
  case Nil
  then show ?case by simp
next
  case (Cons b bs)
  from Cons.prems(1) obtain r where
    r: "insert_node k (root t) b = Some r" and rest: "insert_all k (t\<lparr>root := r\<rparr>) bs = Some t'"
    by (auto simp: insert_tree_def split: option.splits)
  from insert_node_invariant[OF r] Cons.prems have
    ok: "tree_ok r" "mass_ok r" "box r = box (root t)"
      "mset (all_bodies r) = mset (all_bodies (root t)) + {#b#}"
    by auto
  have "\<forall>a \<in> set bs. contains (root (t\<lparr>root := r\<rparr>)) (position a)"
    using Cons.prems(4) contains_box[OF ok(3)] by simp
  from Cons.IH[OF rest _ _ this] ok show ?case by simp
qed

lemma mass_ok_subtree:
  "mass_ok n \<Longrightarrow> x \<in> set (subtree_nodes n) \<Longrightarrow> nmass x = sum_list (map mass (all_bodies x))"
proof (induction n)
  case (BNode c h m cm leaf bs cs)
  then show ?case by auto
qed

section \<open>Insertion into the tree of OctreeNode.js keeps the masses\<close>

lemma js_get_set: "js_get (js_set xs i v) j = (if i = j then v else js_get xs j)"
  by (auto simp: js_get_def js_set_def nth_append nth_list_update)

lemma children_bodies_cons: "mset (children_bodies (co # cs)) = child_bodies co + mset (children_bodies cs)"
  by (cases co) (simp_all add: child_bodies_def)

lemma children_mass_ok_cons: "children_mass_ok (co # cs) = (child_ok co \<and> children_mass_ok cs)"
  by (cases co) (simp_all add: child_ok_def)

lemma children_bodies_append:
  "mset (children_bodies (xs @ ys)) = mset (children_bodies xs) + mset (children_bodies ys)"
  by (induction xs) (simp_all add: children_bodies_cons)

lemma children_mass_ok_append:
  "children_mass_ok (xs @ ys) = (children_mass_ok xs \<and> children_mass_ok ys)"
  by (induction xs) (simp_all add: children_mass_ok_cons)

lemma children_replicate_None [simp]:
  "children_bodies (replicate k None) = []" "children_mass_ok (replicate k None)"
  by (induction k) simp_all

lemma js_set_bodies:
  assumes "child_bodies v = child_bodies (js_get cs i) + B"
  shows "mset (children_bodies (js_set cs i v)) = mset (children_bodies cs) + B"
proof (cases "i < length cs")
  case False
  with assms show ?thesis
    by (simp add: js_set_def js_get_def children_bodies_append children_bodies_cons child_bodies_def)
next
  case True
  then show ?thesis using assms
  proof (induction cs arbitrary: i)
    case Nil
    then show ?case by simp
  next
    case (Cons co cs)
    show ?case
    proof (cases i)
      case 0
      with Cons.prems show ?thesis
        by (simp add: js_set_def js_get_def children_bodies_cons)
    next
      case (Suc j)
      with Cons.prems have "j < length cs" "child_bodies v = child_bodies (js_get cs j) + B"
        by (simp_all add: js_get_def)
      from Cons.IH[OF this] Suc Cons.prems(1) show ?thesis
        by (simp add: js_set_def children_bodies_cons)
    qed
  qed
qed

lemma js_set_mass_ok:
  assumes "children_mass_ok cs" "child_ok v"
  shows "children_mass_ok (js_set cs i v)"
proof (cases "i < length cs")
  case False
  with assms show ?thesis
    by (simp add: js_set_def children_mass_ok_append children_mass_ok_cons)
next
  case True
  then show ?thesis using assms(1)
  proof (induction cs arbitrary: i)
    case Nil
    then show ?case by simp
  next
    case (Cons co cs)
    show ?case
    proof (cases i)
      case 0
      with Cons.prems assms(2) show ?thesis
        by (simp add: js_set_def children_mass_ok_cons)
    next
      case (Suc j)
      with Cons.prems have "j < length cs" "children_mass_ok cs"
        by (simp_all add: children_mass_ok_cons)
      from Cons.IH[OF this] Suc Cons.prems show ?thesis
        by (simp add: js_set_def children_mass_ok_cons)
    qed
  qed
qed

lemma getOctantIndex_less: "getOctantIndex n p < 8"
  by (simp add: getOctantIndex_def)

lemma fold_js_set_get:
  "js_get (fold (\<lambda>i cs. js_set cs i (Some (f i))) [0..<k] xs) j =
     (if j < k then Some (f j) else js_get xs j)"
  by (induction k) (auto simp: js_get_set)

lemma subdivide_strict_child:
  "i < 8 \<Longrightarrow> js_get (s_children (subdivide_strict n)) i = Some (subdivideChild n i)"
  by (simp add: subdivide_strict_def fold_js_set_get)

lemma js_get_Cons: "js_get (co # cs) 0 = co" "js_get (co # cs) (Suc j) = js_get cs j"
  by (simp_all add: js_get_def)

lemma child_bodies_js_get:
  "mset (children_bodies cs) = {#} \<Longrightarrow> child_bodies (js_get cs i) = {#}"
proof (induction cs arbitrary: i)
  case Nil
  then show ?case by (simp add: js_get_def child_bodies_def)
next
  case (Cons co cs)
  then have here: "child_bodies co = {#}" and rest: "mset (children_bodies cs) = {#}"
    by (simp_all add: children_bodies_cons)
  show ?case
  proof (cases i)
    case 0
    with here show ?thesis by (simp add: js_get_Cons)
  next
    case (Suc j)
    with Cons.IH[OF rest, of j] show ?thesis by (simp add: js_get_Cons)
  qed
qed

lemma child_ok_js_get: "children_mass_ok cs \<Longrightarrow> child_ok (js_get cs i)"
proof (induction cs arbitrary: i)
  case Nil
  then show ?case by (simp add: js_get_def child_ok_def)
next
  case (Cons co cs)
  then have here: "child_ok co" and rest: "children_mass_ok cs"
    by (simp_all add: children_mass_ok_cons)
  show ?case
  proof (cases i)
    case 0
    with here show ?thesis by (simp add: js_get_Cons)
  next
    case (Suc j)
    with Cons.IH[OF rest, of j] show ?thesis by (simp add: js_get_Cons)
  qed
qed

lemma fresh_child [simp]:
  "mass_ok_strict (OctreeNode_strict c h)" "all_bodies_strict (OctreeNode_strict c h) = []"
  by (simp_all add: OctreeNode_strict_def occupant_def)

lemma fold_fresh:
  assumes "children_mass_ok xs" "mset (children_bodies xs) = {#}"
    "\<And>i. mass_ok_strict (f i) \<and> all_bodies_strict (f i) = []"
  shows "children_mass_ok (fold (\<lambda>i cs. js_set cs i (Some (f i))) is xs) \<and>
         mset (children_bodies (fold (\<lambda>i cs. js_set cs i (Some (f i))) is xs)) = {#}"
  using assms(1,2)
proof (induction "is" arbitrary: xs)
  case Nil
  then show ?case by simp
next
  case (Cons i "is")
  have ok: "children_mass_ok (js_set xs i (Some (f i)))"
    using Cons.prems(1) assms(3) by (intro js_set_mass_ok) (simp_all add: child_ok_def)
  have "child_bodies (Some (f i)) = child_bodies (js_get xs i) + {#}"
    using child_bodies_js_get[OF Cons.prems(2)] assms(3) by (simp add: child_bodies_def)
  from js_set_bodies[OF this] Cons.prems(2)
  have "mset (children_bodies (js_set xs i (Some (f i)))) = {#}" by simp
  from Cons.IH[OF ok this] show ?case by simp
qed

lemma leaf_children:
  "isLeaf_strict n \<Longrightarrow> children_mass_ok (s_children n) \<and> children_bodies (s_children n) = []"
proof -
  have "list_all (\<lambda>child. child = None) cs \<Longrightarrow> children_mass_ok cs \<and> children_bodies cs = []" for cs :: "snode option list"
    by (induction cs) auto
  then show "isLeaf_strict n \<Longrightarrow> children_mass_ok (s_children n) \<and> children_bodies (s_children n) = []"
    by (simp add: isLeaf_strict_def)
qed

lemma subdivide_strict_fresh:
  assumes "isLeaf_strict n"
  shows "children_mass_ok (s_children (subdivide_strict n))"
    "mset (children_bodies (s_children (subdivide_strict n))) = {#}"
  using fold_fresh[of "s_children n" "subdivideChild n" "[0..<8]"] leaf_children[OF assms]
  by (simp_all add: subdivide_strict_def subdivideChild_def Let_def)

lemma mass_ok_strict_iff:
  "mass_ok_strict n =
     (s_mass n = sum_list (map mass (all_bodies_strict n)) \<and> children_mass_ok (s_children n))"
  by (cases n) simp

lemma all_bodies_strict_iff:
  "mset (all_bodies_strict n) = mset (occupant (s_body n)) + mset (children_bodies (s_children n))"
  by (cases n) simp

lemma strict_sel [simp]:
  "s_children (set_children n cs) = cs" "s_body (set_children n cs) = s_body n"
  "s_mass (set_children n cs) = s_mass n" "s_center (set_children n cs) = s_center n"
  "halfDimension (set_children n cs) = halfDimension n"
  "s_children (set_body n bo) = s_children n" "s_body (set_body n bo) = bo"
  "s_mass (set_body n bo) = s_mass n" "s_center (set_body n bo) = s_center n"
  "halfDimension (set_body n bo) = halfDimension n"
  "s_children (updateMassAndCenterOfMass n b) = s_children n"
  "s_body (updateMassAndCenterOfMass n b) = s_body n"
  "s_mass (updateMassAndCenterOfMass n b) = s_mass n + mass b"
  "s_center (updateMassAndCenterOfMass n b) = s_center n"
  "halfDimension (updateMassAndCenterOfMass n b) = halfDimension n"
  "s_children (subdivide_strict n) = fold (\<lambda>i cs. js_set cs i (Some (subdivideChild n i))) [0..<8] (s_children n)"
  "s_body (subdivide_strict n) = s_body n" "s_mass (subdivide_strict n) = s_mass n"
  "s_center (subdivide_strict n) = s_center n" "halfDimension (subdivide_strict n) = halfDimension n"
  by (simp_all add: set_children_def set_body_def updateMassAndCenterOfMass_def subdivide_strict_def Let_def)

lemma getOctantIndex_center: "s_center a = s_center b \<Longrightarrow> getOctantIndex a p = getOctantIndex b p"
  by (simp add: getOctantIndex_def)

lemma subdivideAndReinsert_ok:
  assumes ins: "ins_ok_strict ins" and leaf: "isLeaf_strict n" and ok: "mass_ok_strict n"
    and run: "subdivideAndReinsert ins n = Some n2"
  shows "mass_ok_strict n2 \<and> mset (all_bodies_strict n2) = mset (all_bodies_strict n)"
proof -
  from run obtain a where a: "s_body n = Some a" by (auto simp: subdivideAndReinsert_def split: option.splits)
  let ?n1 = "subdivide_strict n"
  let ?i = "getOctantIndex ?n1 (position a)"
  have child: "js_get (s_children ?n1) ?i = Some (subdivideChild n ?i)"
    by (rule subdivide_strict_child) (rule getOctantIndex_less)
  with run a obtain child' where
    c': "ins (subdivideChild n ?i) a = Some child'" and
    n2: "n2 = set_body (set_children ?n1 (js_set (s_children ?n1) ?i (Some child'))) None"
    by (auto simp: subdivideAndReinsert_def Let_def split: option.splits)
  have fresh: "mass_ok_strict (subdivideChild n ?i)" "all_bodies_strict (subdivideChild n ?i) = []"
    by (simp_all add: subdivideChild_def Let_def)
  with ins c' have c'ok: "mass_ok_strict child'" "mset (all_bodies_strict child') = {#a#}"
    unfolding ins_ok_strict_def by auto
  have kids: "children_mass_ok (js_set (s_children ?n1) ?i (Some child'))"
    using subdivide_strict_fresh(1)[OF leaf] c'ok(1)
    by (intro js_set_mass_ok) (simp_all add: child_ok_def)
  have "child_bodies (Some child') = child_bodies (js_get (s_children ?n1) ?i) + {#a#}"
    using child fresh(2) c'ok(2) by (simp add: child_bodies_def)
  from js_set_bodies[OF this] subdivide_strict_fresh(2)[OF leaf]
  have kb: "mset (children_bodies (js_set (s_children ?n1) ?i (Some child'))) = {#a#}"
    by simp
  have all_n: "mset (all_bodies_strict n) = {#a#}"
    using leaf_children[OF leaf] a by (simp add: all_bodies_strict_iff occupant_def)
  have all_n2: "mset (all_bodies_strict n2) = {#a#}"
    using kb by (simp add: n2 all_bodies_strict_iff occupant_def)
  have "s_mass n = sum_list (map mass (all_bodies_strict n))"
    using ok by (simp add: mass_ok_strict_iff)
  then have "s_mass n2 = sum_list (map mass (all_bodies_strict n2))"
    using mass_sum_mset[OF all_n] mass_sum_mset[OF all_n2] by (simp add: n2)
  with kids have "mass_ok_strict n2" unfolding mass_ok_strict_iff[of n2] by (simp add: n2)
  with all_n all_n2 show ?thesis by simp
qed

lemma insertIntoOctant_ok:
  assumes ins: "ins_ok_strict ins" and ok: "mass_ok_strict n"
    and run: "insertIntoOctant ins n b = Some n'"
  shows "mass_ok_strict n' \<and> mset (all_bodies_strict n') = mset (all_bodies_strict n) + {#b#}"
proof -
  let ?j = "getOctantIndex n (position b)"
  let ?child = "case js_get (s_children n) ?j of None \<Rightarrow> lazyChild n ?j | Some c \<Rightarrow> c"
  from run obtain child' where
    c': "ins ?child b = Some child'" and
    n': "n' = updateMassAndCenterOfMass (set_children n (js_set (s_children n) ?j (Some child'))) b"
    by (auto simp: insertIntoOctant_def Let_def split: option.splits)
  from ok have kids0: "children_mass_ok (s_children n)"
    and m0: "s_mass n = sum_list (map mass (all_bodies_strict n))"
    by (simp_all add: mass_ok_strict_iff)
  have child_ok: "mass_ok_strict ?child" and child_b: "mset (all_bodies_strict ?child) = child_bodies (js_get (s_children n) ?j)"
    using child_ok_js_get[OF kids0, of ?j]
    by (auto simp: child_ok_def child_bodies_def lazyChild_def split: option.splits)
  with ins c' have c'ok: "mass_ok_strict child'"
    "mset (all_bodies_strict child') = child_bodies (js_get (s_children n) ?j) + {#b#}"
    unfolding ins_ok_strict_def by auto
  have kids: "children_mass_ok (js_set (s_children n) ?j (Some child'))"
    using kids0 c'ok(1) by (intro js_set_mass_ok) (simp_all add: child_ok_def)
  have "child_bodies (Some child') = child_bodies (js_get (s_children n) ?j) + {#b#}"
    using c'ok(2) by (simp add: child_bodies_def)
  from js_set_bodies[OF this]
  have all: "mset (all_bodies_strict n') = mset (all_bodies_strict n) + {#b#}"
    by (simp add: n' all_bodies_strict_iff)
  have "s_mass n' = sum_list (map mass (all_bodies_strict n'))"
    using m0 mass_sum_mset[OF all] mass_sum_mset[of "all_bodies_strict n", OF refl] by (simp add: n')
  with kids have "mass_ok_strict n'" unfolding mass_ok_strict_iff[of n'] by (simp add: n')
  with all show ?thesis by simp
qed

lemma insert_step_ok:
  assumes ins: "ins_ok_strict ins"
  shows "ins_ok_strict (insert_step ins)"
  unfolding ins_ok_strict_def
proof (intro allI impI)
  fix n b n'
  assume run: "insert_step ins n b = Some n'" and ok: "mass_ok_strict n"
  show "mass_ok_strict n' \<and> mset (all_bodies_strict n') = mset (all_bodies_strict n) + {#b#}"
  proof (cases "isLeaf_strict n")
    case False
    with run have "insertIntoOctant ins n b = Some n'" by (simp add: insert_step_def)
    from insertIntoOctant_ok[OF ins ok this] show ?thesis .
  next
    case True
    show ?thesis
    proof (cases "s_body n")
      case None
      with run True have n': "n' = SNode (s_center n) (halfDimension n) (s_children n) (Some b) (mass b) (position b)"
        by (simp add: insert_step_def)
      with leaf_children[OF True] None show ?thesis
        by (simp add: occupant_def all_bodies_strict_iff[of n])
    next
      case (Some a)
      with run True obtain n2 where
        n2: "subdivideAndReinsert ins n = Some n2" and fin: "insertIntoOctant ins n2 b = Some n'"
        by (auto simp: insert_step_def split: option.splits)
      from subdivideAndReinsert_ok[OF ins True ok n2] insertIntoOctant_ok[OF ins _ fin]
      show ?thesis by simp
    qed
  qed
qed

lemma insert_strict_ok: "ins_ok_strict (insert_strict k)"
proof (induction k)
  case 0
  have "insert_strict 0 = (\<lambda>n b. None)" by (intro ext) simp
  then show ?case by (simp add: ins_ok_strict_def)
next
  case (Suc k)
  have "insert_strict (Suc k) = insert_step (insert_strict k)" by (intro ext) simp
  with insert_step_ok[OF Suc] show ?case by simp
qed

lemma insert_all_strict_invariant:
  "insert_all_strict k n bs = Some n' \<Longrightarrow> mass_ok_strict n \<Longrightarrow>
   mass_ok_strict n' \<and> mset (all_bodies_strict n') = mset (all_bodies_strict n) + mset bs"
proof (induction bs arbitrary: n)
  case Nil
  then show ?case by simp
next
  case (Cons b bs)
  from Cons.prems(1) obtain r where
    r: "insert_strict k n b = Some r" and rest: "insert_all_strict k r bs = Some n'"
    by (auto split: option.splits)
  from insert_strict_ok[of k] r Cons.prems(2) have
    ok: "mass_ok_strict r" "mset (all_bodies_strict r) = mset (all_bodies_strict n) + {#b#}"
    unfolding ins_ok_strict_def by auto
  from Cons.IH[OF rest ok(1)] ok(2) show ?case by simp
qed

lemma mass_ok_strict_subtree:
  "mass_ok_strict n \<Longrightarrow> x \<in> set (subtree_nodes_strict n) \<Longrightarrow>
   s_mass x = sum_list (map mass (all_bodies_strict x))"
  and "children_mass_ok cs \<Longrightarrow> x \<in> set (children_nodes cs) \<Longrightarrow>
   s_mass x = sum_list (map mass (all_bodies_strict x))"
  by (induction n and cs rule: mass_ok_strict_children_mass_ok.induct) auto

lemma clear_root [simp]:
  "tree_ok (root (clear t))" "mass_ok (root (clear t))" "all_bodies (root (clear t)) = []"
  "box (root (clear t)) = box (root t)"
  by (simp_all add: clear_def OctreeNode_def box_def)

lemma clear_strict_ok [simp]:
  "mass_ok_strict (clear_strict n)" "all_bodies_strict (clear_strict n) = []"
proof -
  have "children_mass_ok (map (\<lambda>child. None) cs) \<and> children_bodies (map (\<lambda>child. None) cs) = []"
    for cs :: "snode option list"
    by (induction cs) simp_all
  then show "mass_ok_strict (clear_strict n)" "all_bodies_strict (clear_strict n) = []"
    by (simp_all add: clear_strict_def occupant_def)
qed

section \<open>Insertion keeps the region of a node\<close>

lemma insertFirst_boxes:
  assumes "\<And>c b c'. ins c b = Some c' \<Longrightarrow> box c' = box c"
  shows "insertFirst ins cs b = Some cs' \<Longrightarrow> map box cs' = map box cs"
proof (induction cs arbitrary: cs')
  case Nil
  then show ?case by simp
next
  case (Cons c cs)
  then show ?case using assms by (auto split: if_splits option.splits)
qed

lemma insertIntoChild_fields:
  "insertIntoChild ins n b = Some n' \<Longrightarrow>
     box n' = box n \<and> isLeaf n' = isLeaf n \<and> bodies n' = bodies n \<and> nmass n' = nmass n \<and> com n' = com n"
  by (auto simp: insertIntoChild_def box_def split: option.splits)

lemma moveBodies_fields:
  "moveBodies ins n bs = Some n' \<Longrightarrow>
     box n' = box n \<and> isLeaf n' = isLeaf n \<and> bodies n' = bodies n \<and> nmass n' = nmass n \<and> com n' = com n"
proof (induction bs arbitrary: n)
  case Nil
  then show ?case by simp
next
  case (Cons b bs)
  from Cons.prems obtain n1 where
    n1: "insertIntoChild ins n b = Some n1" and rest: "moveBodies ins n1 bs = Some n'"
    by (auto split: option.splits)
  from Cons.IH[OF rest] insertIntoChild_fields[OF n1] show ?case by simp
qed

lemma subdivide_fields:
  "subdivide ins n = Some n' \<Longrightarrow> box n' = box n \<and> \<not> isLeaf n' \<and> nmass n' = nmass n \<and> com n' = com n"
  using moveBodies_fields[of ins _ "bodies n" n']
  by (auto simp: subdivide_def box_def)

lemma box_update [simp]: "box (updateMassDistribution n b) = box n"
  by (simp add: box_def)

lemma insert_body_box: "insert_body ins n b = Some n' \<Longrightarrow> box n' = box n"
  unfolding insert_body_def Let_def
  by (auto split: option.splits if_splits dest!: insertIntoChild_fields subdivide_fields
      simp: box_def)

lemma insert_node_box: "insert_node k n b = Some n' \<Longrightarrow> box n' = box n"
  by (cases k) (simp_all add: insert_body_box)

lemma insert_all_frame:
  "insert_all k t bs = Some t' \<Longrightarrow> box (root t') = box (root t) \<and> t'\<lparr>root := r\<rparr> = t\<lparr>root := r\<rparr>"
proof (induction bs arbitrary: t)
  case Nil
  then show ?case by simp
next
  case (Cons b bs)
  from Cons.prems obtain r1 where
    r1: "insert_node k (root t) b = Some r1" and rest: "insert_all k (t\<lparr>root := r1\<rparr>) bs = Some t'"
    by (auto simp: insert_tree_def split: option.splits)
  from Cons.IH[OF rest] insert_node_box[OF r1] show ?case by simp
qed

lemma js_set_length: "i < length cs \<Longrightarrow> length (js_set cs i v) = length cs"
  by (simp add: js_set_def)

lemma fold_js_set_length:
  "\<forall>i \<in> set is. i < length cs \<Longrightarrow> length (fold (\<lambda>i cs. js_set cs i (f i)) is cs) = length cs"
  by (induction "is" arbitrary: cs) (simp_all add: js_set_length)

lemma subdivide_strict_length:
  "length (s_children n) = 8 \<Longrightarrow> length (s_children (subdivide_strict n)) = 8"
  using fold_js_set_length[of "[0..<8]" "s_children n" "\<lambda>i. Some (subdivideChild n i)"]
  by simp

lemma insertIntoOctant_frame:
  "length (s_children n) = 8 \<Longrightarrow> insertIntoOctant ins n b = Some n' \<Longrightarrow> frame_strict n n'"
  using getOctantIndex_less[of n "position b"]
  by (auto simp: insertIntoOctant_def frame_strict_def Let_def js_set_length split: option.splits)

lemma subdivideAndReinsert_frame:
  "length (s_children n) = 8 \<Longrightarrow> subdivideAndReinsert ins n = Some n' \<Longrightarrow> frame_strict n n'"
proof -
  assume len: "length (s_children n) = 8" and run: "subdivideAndReinsert ins n = Some n'"
  from run obtain a where a: "s_body n = Some a"
    by (auto simp: subdivideAndReinsert_def split: option.splits)
  let ?n1 = "subdivide_strict n"
  let ?i = "getOctantIndex ?n1 (position a)"
  from run a obtain child' where
    n': "n' = set_body (set_children ?n1 (js_set (s_children ?n1) ?i (Some child'))) None"
    by (auto simp: subdivideAndReinsert_def Let_def split: option.splits)
  have "length (js_set (s_children ?n1) ?i (Some child')) = 8"
    using subdivide_strict_length[OF len] getOctantIndex_less[of ?n1 "position a"]
    by (simp add: js_set_length del: strict_sel(16))
  then show ?thesis by (simp add: n' frame_strict_def del: strict_sel(16))
qed

lemma insert_step_frame:
  "length (s_children n) = 8 \<Longrightarrow> insert_step ins n b = Some n' \<Longrightarrow> frame_strict n n'"
proof -
  assume len: "length (s_children n) = 8" and run: "insert_step ins n b = Some n'"
  show ?thesis
  proof (cases "s_body n = None \<and> isLeaf_strict n")
    case True
    with run len show ?thesis by (auto simp: insert_step_def frame_strict_def)
  next
    case False
    show ?thesis
    proof (cases "isLeaf_strict n")
      case True
      with run False obtain n2 where
        n2: "subdivideAndReinsert ins n = Some n2" and fin: "insertIntoOctant ins n2 b = Some n'"
        by (auto simp: insert_step_def split: option.splits)
      from subdivideAndReinsert_frame[OF len n2] have f2: "frame_strict n n2" .
      then have "length (s_children n2) = 8" by (simp add: frame_strict_def)
      from insertIntoOctant_frame[OF this fin] f2 show ?thesis by (simp add: frame_strict_def)
    next
      case leaf: False
      with run False have "insertIntoOctant ins n b = Some n'" by (simp add: insert_step_def)
      from insertIntoOctant_frame[OF len this] show ?thesis .
    qed
  qed
qed

lemma insert_all_strict_frame:
  "insert_all_strict k n bs = Some n' \<Longrightarrow> length (s_children n) = 8 \<Longrightarrow>
   s_center n' = s_center n \<and> halfDimension n' = halfDimension n \<and> length (s_children n') = 8"
proof (induction bs arbitrary: n)
  case Nil
  then show ?case by simp
next
  case (Cons b bs)
  from Cons.prems(1) obtain r where
    r: "insert_strict k n b = Some r" and rest: "insert_all_strict k r bs = Some n'"
    by (auto split: option.splits)
  from r obtain k' where "k = Suc k'" by (cases k) auto
  with r have "insert_step (insert_strict k') n b = Some r" by simp
  from insert_step_frame[OF Cons.prems(2) this] have f: "frame_strict n r" .
  then have "length (s_children r) = 8" by (simp add: frame_strict_def)
  from Cons.IH[OF rest this] f show ?case by (simp add: frame_strict_def)
qed

lemma clear_strict_frame:
  "s_center n' = s_center n \<Longrightarrow> halfDimension n' = halfDimension n \<Longrightarrow>
   length (s_children n') = length (s_children n) \<Longrightarrow> clear_strict n' = clear_strict n"
  by (simp add: clear_strict_def map_replicate_const)

section \<open>A body that no child contains\<close>

lemma dropped_insert:
  "dropped n (position b) \<Longrightarrow>
     \<exists>n'. insert_node (length (visited n (position b))) n b = Some n' \<and> drop_result b n n'"
  and "dropped_in cs (position b) \<Longrightarrow>
     \<exists>cs'. insertFirst (insert_node (length (visited_in cs (position b)))) cs b = Some cs' \<and>
       map box cs' = map box cs \<and> concat (map all_bodies cs') = concat (map all_bodies cs) \<and>
       list_all2 (bumped b) (visited_in cs (position b)) (visited_in cs' (position b))"
proof (induction n "position b" and cs "position b" rule: dropped_dropped_in.induct)
  case (1 c h m cm leaf bs cs)
  let ?n = "BNode c h m cm leaf bs cs"
  from 1 have nl: "\<not> leaf" and d: "dropped_in cs (position b)" by simp_all
  from 1(1)[OF d] obtain cs' where
    first: "insertFirst (insert_node (length (visited_in cs (position b)))) cs b = Some cs'" and
    boxes: "map box cs' = map box cs" and
    same: "concat (map all_bodies cs') = concat (map all_bodies cs)" and
    path: "list_all2 (bumped b) (visited_in cs (position b)) (visited_in cs' (position b))"
    by blast
  let ?n' = "updateMassDistribution (BNode c h m cm leaf bs cs') b"
  have len: "length (visited ?n (position b)) = Suc (length (visited_in cs (position b)))"
    using nl by simp
  have run: "insert_node (length (visited ?n (position b))) ?n b = Some ?n'"
    unfolding len using nl first
    by (simp add: insert_body_def insertIntoChild_def Let_def)
  have v': "visited ?n' (position b) = ?n' # visited_in cs' (position b)"
    using nl by (simp add: updateMassDistribution_def Let_def)
  have "bumped b ?n ?n'"
    by (simp add: bumped_def updateMassDistribution_def Let_def)
  with path v' nl have "list_all2 (bumped b) (visited ?n (position b)) (visited ?n' (position b))"
    by simp
  moreover have "box ?n' = box ?n" by (simp add: box_def)
  moreover have "all_bodies ?n' = all_bodies ?n" using same by simp
  ultimately have "drop_result b ?n ?n'" by (simp add: drop_result_def)
  with run show ?case by blast
next
  case 2
  then show ?case by simp
next
  case (3 child rest)
  show ?case
  proof (cases "contains child (position b)")
    case True
    with 3 have "dropped child (position b)" by simp
    from 3(1)[OF True this] obtain c' where
      c': "insert_node (length (visited child (position b))) child b = Some c'" and
      res: "drop_result b child c'"
      by blast
    from res have "contains c' (position b) = contains child (position b)"
      using contains_box[of c' child] by (simp add: drop_result_def)
    with True c' res show ?thesis
      by (simp add: drop_result_def)
  next
    case False
    with 3 have "dropped_in rest (position b)" by simp
    from 3(2)[OF False this] False show ?thesis by auto
  qed
qed


lemma insertFirst_none:
  "\<forall>c \<in> set cs. \<not> contains c (position b) \<Longrightarrow> insertFirst ins cs b = Some cs"
  by (induction cs) simp_all

lemma dropped_in_none:
  "\<forall>c \<in> set cs. \<not> contains c p \<Longrightarrow> dropped_in cs p \<and> visited_in cs p = []"
  by (induction cs) simp_all

lemma child_inside_parent:
  assumes "c \<in> set (newChildren n)" "contains c p"
  shows "contains n p"
  using assms unfolding newChildren_list Let_def
  by (auto simp: contains_def OctreeNode_def)

lemma com_weighted:
  assumes "nmass n + mass b \<noteq> 0"
  shows "scale_vec (com (updateMassDistribution n b)) (nmass n + mass b) =
         vadd (scale_vec (com n) (nmass n)) (scale_vec (position b) (mass b))"
  using assms by (simp add: updateMassDistribution_def Let_def scale_vec_def vadd_def)

section \<open>Insertion without a depth limit\<close>

lemma isLeaf_strict_fresh [simp]:
  "isLeaf_strict (OctreeNode_strict c h)" "s_body (OctreeNode_strict c h) = None"
  "isLeaf_strict (subdivideChild n i)" "s_body (subdivideChild n i) = None"
  by (simp_all add: OctreeNode_strict_def isLeaf_strict_def subdivideChild_def Let_def list_all_iff)

lemma insert_step_empty_leaf:
  "s_body n = None \<Longrightarrow> isLeaf_strict n \<Longrightarrow>
   insert_step ins n b =
     Some (SNode (s_center n) (halfDimension n) (s_children n) (Some b) (mass b) (position b))"
  by (simp add: insert_step_def)

lemma coincident_never_returns:
  "isLeaf_strict n \<Longrightarrow> s_body n = Some a \<Longrightarrow> position a = position b \<Longrightarrow>
   insert_strict k n b = None"
proof (induction k arbitrary: n)
  case 0
  then show ?case by simp
next
  case (Suc k)
  let ?n1 = "subdivide_strict n"
  let ?i = "getOctantIndex ?n1 (position a)"
  let ?child = "subdivideChild n ?i"
  have child: "js_get (s_children ?n1) ?i = Some ?child"
    by (rule subdivide_strict_child) (rule getOctantIndex_less)
  show ?case
  proof (cases "insert_strict k ?child a")
    case None
    with child Suc.prems show ?thesis
      by (simp add: insert_step_def subdivideAndReinsert_def Let_def del: strict_sel(16))
  next
    case (Some child')
    then obtain k' where k: "k = Suc k'" by (cases k) auto
    with Some have c': "child' = SNode (s_center ?child) (halfDimension ?child) (s_children ?child)
        (Some a) (mass a) (position a)"
      by (simp add: insert_step_empty_leaf)
    then have leaf': "isLeaf_strict child'" "s_body child' = Some a"
      using isLeaf_strict_fresh(3)[of n ?i] by (simp_all add: isLeaf_strict_def)
    let ?n2 = "set_body (set_children ?n1 (js_set (s_children ?n1) ?i (Some child'))) None"
    have reinsert: "subdivideAndReinsert (insert_strict k) n = Some ?n2"
      using child Some Suc.prems
      by (simp add: subdivideAndReinsert_def Let_def del: strict_sel(16))
    have idx: "getOctantIndex ?n2 (position b) = ?i"
      using Suc.prems(3) by (simp add: getOctantIndex_def)
    have "js_get (s_children ?n2) ?i = Some child'"
      by (simp add: js_get_set del: strict_sel(16))
    with idx Suc.IH[OF leaf' Suc.prems(3)]
    have "insertIntoOctant (insert_strict k) ?n2 b = None"
      by (simp add: insertIntoOctant_def Let_def del: strict_sel(16))
    with reinsert Suc.prems show ?thesis
      by (simp add: insert_step_def)
  qed
qed

lemma insert_node_leaf_room:
  "isLeaf n \<Longrightarrow> length (bodies n) < MAX_BODIES_PER_NODE \<Longrightarrow>
   insert_node (Suc k) n b =
     Some (updateMassDistribution
       (BNode (center n) (halfSize n) (nmass n) (com n) True (bodies n @ [b]) (children n)) b)"
  by (simp add: insert_body_def Let_def)

lemma insertFirst_split:
  "\<forall>x \<in> set pre. \<not> contains x (position b) \<Longrightarrow> contains c (position b) \<Longrightarrow>
   insertFirst ins (pre @ c # post) b =
     (case ins c b of None \<Rightarrow> None | Some c' \<Rightarrow> Some (pre @ c' # post))"
  by (induction pre) (auto split: option.splits)

lemma moveBodies_stack:
  assumes full: "\<And>c b. stack p MAX_BODIES_PER_NODE c \<Longrightarrow> position b = p \<Longrightarrow> insert_node k c b = None"
  shows "\<forall>a \<in> set bs. position a = p \<Longrightarrow> children n = pre @ c # post \<Longrightarrow>
         \<forall>x \<in> set pre. \<not> contains x p \<Longrightarrow> stack p m c \<Longrightarrow> m \<le> MAX_BODIES_PER_NODE \<Longrightarrow>
         MAX_BODIES_PER_NODE < m + length bs \<Longrightarrow> moveBodies (insert_node k) n bs = None"
proof (induction bs arbitrary: n c m)
  case Nil
  then show ?case by simp
next
  case (Cons b bs)
  from Cons.prems have pb: "position b = p" by simp
  from Cons.prems(4) have inside: "contains c (position b)" by (simp add: stack_def pb)
  have first: "insertFirst (insert_node k) (children n) b =
      (case insert_node k c b of None \<Rightarrow> None | Some c' \<Rightarrow> Some (pre @ c' # post))"
    using Cons.prems(2,3) inside by (simp add: insertFirst_split pb)
  show ?case
  proof (cases "insert_node k c b")
    case None
    with first show ?thesis by (simp add: insertIntoChild_def)
  next
    case (Some c')
    with full[OF _ pb] Cons.prems(4,5) have room: "m < MAX_BODIES_PER_NODE"
      by (cases "m = MAX_BODIES_PER_NODE") auto
    from Some obtain k' where "k = Suc k'" by (cases k) auto
    with Some room Cons.prems(4) have c': "c' = updateMassDistribution
       (BNode (center c) (halfSize c) (nmass c) (com c) True (bodies c @ [b]) (children c)) b"
      using insert_node_leaf_room[of c k' b] by (simp add: stack_def)
    have st: "stack p (Suc m) c'"
      using Cons.prems(4) pb by (simp add: c' stack_def contains_def)
    let ?n1 = "BNode (center n) (halfSize n) (nmass n) (com n) (isLeaf n) (bodies n) (pre @ c' # post)"
    have step: "insertIntoChild (insert_node k) n b = Some ?n1"
      using first Some by (simp add: insertIntoChild_def)
    have "moveBodies (insert_node k) ?n1 bs = None"
      using Cons.prems room st
      by (intro Cons.IH[of ?n1 c' "Suc m"]) simp_all
    with step show ?thesis by simp
  qed
qed

lemma first_containing:
  "\<exists>c \<in> set cs. contains c p \<Longrightarrow>
   \<exists>pre c post. cs = pre @ c # post \<and> (\<forall>x \<in> set pre. \<not> contains x p) \<and> contains c p"
  using split_list_first_prop[of cs "\<lambda>c. contains c p"] by blast

lemma newChildren_leaves: "c \<in> set (newChildren n) \<Longrightarrow> isLeaf c \<and> bodies c = []"
  unfolding newChildren_list Let_def by (auto simp: OctreeNode_def)

lemma full_leaf_never_returns:
  "stack p MAX_BODIES_PER_NODE n \<Longrightarrow> position b = p \<Longrightarrow> insert_node k n b = None"
proof (induction k arbitrary: n b)
  case 0
  then show ?case by simp
next
  case (Suc k)
  let ?n1 = "BNode (center n) (halfSize n) (nmass n) (com n) (isLeaf n) (bodies n @ [b]) (children n)"
  let ?n0 = "BNode (center ?n1) (halfSize ?n1) (nmass ?n1) (com ?n1) False []
               (children ?n1 @ newChildren ?n1)"
  from Suc.prems have leaf: "isLeaf n" and len: "length (bodies n) = MAX_BODIES_PER_NODE"
    and none: "children n = []"
    and inside: "contains n p" and at: "\<forall>a \<in> set (bodies n @ [b]). position a = p"
    by (simp_all add: stack_def)
  have "contains ?n1 p" using inside by (simp add: contains_def)
  from newChildren_cover[OF this] have "\<exists>c \<in> set (children ?n0). contains c p"
    using none by simp
  from first_containing[OF this] obtain pre c post where
    split: "children ?n0 = pre @ c # post" "\<forall>x \<in> set pre. \<not> contains x p" "contains c p"
    by blast
  then have "c \<in> set (newChildren ?n1)"
    using none by (metis in_set_conv_decomp append_Nil bnode.sel(7))
  then have st0: "stack p 0 c"
    using split(3) newChildren_leaves[of c ?n1] unfolding newChildren_list Let_def
    by (auto simp: stack_def OctreeNode_def)
  have "moveBodies (insert_node k) ?n0 (bodies n @ [b]) = None"
    using at split(1,2) st0 len Suc.IH
    by (intro moveBodies_stack[of p k "bodies n @ [b]" ?n0 pre c post 0]) simp_all
  then have "subdivide (insert_node k) ?n1 = None" by (simp add: subdivide_def)
  with leaf len show ?case by (simp add: insert_body_def Let_def)
qed

lemma insert_all_stack:
  "\<forall>a \<in> set bs. position a = p \<Longrightarrow> stack p m (root t) \<Longrightarrow> m \<le> MAX_BODIES_PER_NODE \<Longrightarrow>
   MAX_BODIES_PER_NODE < m + length bs \<Longrightarrow> insert_all k t bs = None"
proof (induction bs arbitrary: t m)
  case Nil
  then show ?case by simp
next
  case (Cons b bs)
  from Cons.prems have pb: "position b = p" by simp
  show ?case
  proof (cases "insert_node k (root t) b")
    case None
    then show ?thesis by (simp add: insert_tree_def)
  next
    case (Some r)
    with full_leaf_never_returns[where n="root t" and k=k, OF _ pb] Cons.prems(2,3)
    have room: "m < MAX_BODIES_PER_NODE"
      by (cases "m = MAX_BODIES_PER_NODE") auto
    from Some obtain k' where "k = Suc k'" by (cases k) auto
    with Some room Cons.prems(2) have r: "r = updateMassDistribution
       (BNode (center (root t)) (halfSize (root t)) (nmass (root t)) (com (root t)) True
          (bodies (root t) @ [b]) (children (root t))) b"
      using insert_node_leaf_room[of "root t" k' b] by (simp add: stack_def)
    have st: "stack p (Suc m) (root (t\<lparr>root := r\<rparr>))"
      using Cons.prems(2) pb by (simp add: r stack_def contains_def)
    have "insert_all k (t\<lparr>root := r\<rparr>) bs = None"
      using Cons.prems room st by (intro Cons.IH[of "Suc m"]) simp_all
    with Some show ?thesis by (simp add: insert_tree_def)
  qed
qed


lemma insert_strict_two_octants:
  assumes "isLeaf_strict n" "s_body n = Some a"
    "getOctantIndex n (position a) \<noteq> getOctantIndex n (position b)"
  shows "\<exists>n'. insert_strict (Suc (Suc k)) n b = Some n'"
proof -
  let ?n1 = "subdivide_strict n"
  let ?i = "getOctantIndex ?n1 (position a)"
  let ?j = "getOctantIndex ?n1 (position b)"
  have i: "js_get (s_children ?n1) ?i = Some (subdivideChild n ?i)"
    and j: "js_get (s_children ?n1) ?j = Some (subdivideChild n ?j)"
    by (rule subdivide_strict_child, rule getOctantIndex_less)+
  obtain child' where c': "insert_strict (Suc k) (subdivideChild n ?i) a = Some child'"
    by (simp add: insert_step_empty_leaf)
  let ?n2 = "set_body (set_children ?n1 (js_set (s_children ?n1) ?i (Some child'))) None"
  have re: "subdivideAndReinsert (insert_strict (Suc k)) n = Some ?n2"
    using i c' assms(2) by (simp add: subdivideAndReinsert_def Let_def del: strict_sel(16) insert_strict.simps)
  have idx: "getOctantIndex ?n2 (position b) = ?j" by (simp add: getOctantIndex_def)
  have ne: "?i \<noteq> ?j" using assms(3) by (simp add: getOctantIndex_def)
  have "js_get (s_children ?n2) ?j = Some (subdivideChild n ?j)"
    using j ne by (simp add: js_get_set del: strict_sel(16))
  moreover obtain c2 where "insert_strict (Suc k) (subdivideChild n ?j) b = Some c2"
    by (simp add: insert_step_empty_leaf)
  ultimately have "\<exists>n'. insertIntoOctant (insert_strict (Suc k)) ?n2 b = Some n'"
    using idx by (simp add: insertIntoOctant_def Let_def del: strict_sel(16) insert_strict.simps)
  with re assms show ?thesis
    by (simp add: insert_step_def del: insert_strict.simps(2))
       (simp add: insert_step_def)
qed

section \<open>Trees without negative half-sizes\<close>

lemma nonneg_sizes_iff:
  "nonneg_sizes n = (0 \<le> halfSize n \<and> (\<forall>c \<in> set (children n). nonneg_sizes c))"
  by (cases n) simp

lemma insertFirst_nonneg:
  assumes "ins_nonneg ins"
  shows "insertFirst ins cs b = Some cs' \<Longrightarrow> \<forall>c \<in> set cs. nonneg_sizes c \<Longrightarrow>
         \<forall>c \<in> set cs'. nonneg_sizes c"
proof (induction cs arbitrary: cs')
  case Nil
  then show ?case by simp
next
  case (Cons c cs)
  show ?case
  proof (cases "contains c (position b)")
    case True
    with Cons.prems obtain c' where "ins c b = Some c'" "cs' = c' # cs"
      by (auto split: option.splits)
    with assms Cons.prems(2) show ?thesis unfolding ins_nonneg_def by auto
  next
    case False
    with Cons.prems obtain ds where "insertFirst ins cs b = Some ds" "cs' = c # ds"
      by (auto split: option.splits)
    with Cons.IH[of ds] Cons.prems(2) show ?thesis by auto
  qed
qed

lemma insertIntoChild_nonneg:
  assumes "ins_nonneg ins" "insertIntoChild ins n b = Some n'" "nonneg_sizes n"
  shows "nonneg_sizes n'"
proof -
  from assms(2) obtain cs' where
    cs': "insertFirst ins (children n) b = Some cs'" and
    n': "n' = BNode (center n) (halfSize n) (nmass n) (com n) (isLeaf n) (bodies n) cs'"
    by (auto simp: insertIntoChild_def split: option.splits)
  from insertFirst_nonneg[OF assms(1) cs'] assms(3) nonneg_sizes_iff[of n]
  show ?thesis by (simp add: n')
qed

lemma moveBodies_nonneg:
  assumes "ins_nonneg ins"
  shows "moveBodies ins n bs = Some n' \<Longrightarrow> nonneg_sizes n \<Longrightarrow> nonneg_sizes n'"
proof (induction bs arbitrary: n)
  case Nil
  then show ?case by simp
next
  case (Cons b bs)
  from Cons.prems(1) obtain n1 where
    n1: "insertIntoChild ins n b = Some n1" and rest: "moveBodies ins n1 bs = Some n'"
    by (auto split: option.splits)
  from Cons.IH[OF rest insertIntoChild_nonneg[OF assms n1 Cons.prems(2)]] show ?case .
qed

lemma newChildren_nonneg: "0 \<le> halfSize n \<Longrightarrow> \<forall>c \<in> set (newChildren n). nonneg_sizes c"
  unfolding newChildren_list Let_def by (simp add: OctreeNode_def)

lemma subdivide_nonneg:
  assumes "ins_nonneg ins" "subdivide ins n = Some n'" "nonneg_sizes n"
  shows "nonneg_sizes n'"
proof -
  let ?n0 = "BNode (center n) (halfSize n) (nmass n) (com n) False [] (children n @ newChildren n)"
  have same: "newChildren ?n0 = newChildren n" by (rule newChildren_box) (simp add: box_def)
  from assms(3) have "nonneg_sizes ?n0"
    using nonneg_sizes_iff[of n] newChildren_nonneg[of n] by auto
  with moveBodies_nonneg[OF assms(1), of ?n0 "bodies n" n'] assms(2)
  show ?thesis by (simp add: subdivide_def)
qed

lemma nonneg_sizes_update [simp]: "nonneg_sizes (updateMassDistribution n b) = nonneg_sizes n"
  by (cases n) (simp add: updateMassDistribution_def Let_def)

lemma insert_body_run:
  assumes "insert_body ins n b = Some n'"
  obtains n2 where
    "(if \<not> isLeaf n then insertIntoChild ins n b
      else if length (bodies n @ [b]) > MAX_BODIES_PER_NODE
           then subdivide ins (BNode (center n) (halfSize n) (nmass n) (com n) (isLeaf n)
                                 (bodies n @ [b]) (children n))
           else Some (BNode (center n) (halfSize n) (nmass n) (com n) (isLeaf n)
                        (bodies n @ [b]) (children n))) = Some n2"
    "(if isLeaf n2 \<and> length (bodies n2) > MAX_BODIES_PER_NODE
      then subdivide ins (updateMassDistribution n2 b)
      else Some (updateMassDistribution n2 b)) = Some n'"
proof -
  let ?first = "if \<not> isLeaf n then insertIntoChild ins n b
      else if length (bodies n @ [b]) > MAX_BODIES_PER_NODE
           then subdivide ins (BNode (center n) (halfSize n) (nmass n) (com n) (isLeaf n)
                                 (bodies n @ [b]) (children n))
           else Some (BNode (center n) (halfSize n) (nmass n) (com n) (isLeaf n)
                        (bodies n @ [b]) (children n))"
  have eq: "insert_body ins n b =
      (case ?first of None \<Rightarrow> None
       | Some n2 \<Rightarrow> (if isLeaf n2 \<and> length (bodies n2) > MAX_BODIES_PER_NODE
                     then subdivide ins (updateMassDistribution n2 b)
                     else Some (updateMassDistribution n2 b)))"
    by (simp add: insert_body_def Let_def cong: option.case_cong)
  show thesis
  proof (cases ?first)
    case None
    with eq assms show ?thesis by simp
  next
    case (Some n2)
    with eq assms that[of n2] show ?thesis by simp
  qed
qed

lemma insert_body_nonneg:
  assumes ins: "ins_nonneg ins"
  shows "ins_nonneg (insert_body ins)"
  unfolding ins_nonneg_def
proof (intro allI impI)
  fix n b n'
  assume run: "insert_body ins n b = Some n'" and ok: "nonneg_sizes n"
  let ?n1 = "BNode (center n) (halfSize n) (nmass n) (com n) (isLeaf n) (bodies n @ [b]) (children n)"
  have ok1: "nonneg_sizes ?n1" using ok nonneg_sizes_iff[of n] by simp
  from run obtain n2 where
    first: "(if \<not> isLeaf n then insertIntoChild ins n b
             else if length (bodies n @ [b]) > MAX_BODIES_PER_NODE then subdivide ins ?n1
                  else Some ?n1) = Some n2" and
    last: "(if isLeaf n2 \<and> length (bodies n2) > MAX_BODIES_PER_NODE
            then subdivide ins (updateMassDistribution n2 b)
            else Some (updateMassDistribution n2 b)) = Some n'"
    by (rule insert_body_run)
  from first have "nonneg_sizes n2"
    using insertIntoChild_nonneg[OF ins _ ok, of b n2] subdivide_nonneg[OF ins _ ok1, of n2] ok1
    by (auto split: if_splits)
  with last show "nonneg_sizes n'"
    using subdivide_nonneg[OF ins, of "updateMassDistribution n2 b" n']
    by (auto split: if_splits)
qed

lemma insert_node_nonneg: "ins_nonneg (insert_node k)"
proof (induction k)
  case 0
  have "insert_node 0 = (\<lambda>n b. None)" by (intro ext) simp
  then show ?case by (simp add: ins_nonneg_def)
next
  case (Suc k)
  have "insert_node (Suc k) = insert_body (insert_node k)" by (intro ext) simp
  with insert_body_nonneg[OF Suc] show ?case by simp
qed

lemma insert_all_nonneg:
  "insert_all k t bs = Some t' \<Longrightarrow> nonneg_sizes (root t) \<Longrightarrow>
   nonneg_sizes (root t') \<and> gravityConstant t' = gravityConstant t"
proof (induction bs arbitrary: t)
  case Nil
  then show ?case by simp
next
  case (Cons b bs)
  from Cons.prems(1) obtain r where
    r: "insert_node k (root t) b = Some r" and rest: "insert_all k (t\<lparr>root := r\<rparr>) bs = Some t'"
    by (auto simp: insert_tree_def split: option.splits)
  from insert_node_nonneg[of k] r Cons.prems(2) have "nonneg_sizes r"
    unfolding ins_nonneg_def by blast
  with Cons.IH[OF rest] show ?case by simp
qed

lemma rebuild_nonneg:
  assumes "0 \<le> w" "rebuild k (Octree w g) bs = Some t"
  shows "nonneg_sizes (root t)" "gravityConstant t = g"
proof -
  have "nonneg_sizes (root (clear (Octree w g)))"
    using assms(1) by (simp add: clear_def Octree_def OctreeNode_def)
  with insert_all_nonneg[of k "clear (Octree w g)" bs t] assms(2)
  show "nonneg_sizes (root t)" "gravityConstant t = g"
    by (simp_all add: rebuild_def clear_def Octree_def)
qed

lemma sqrt_tiny: "sqrt (1 / 1000000000000) = 1 / 1000000"
  using real_sqrt_abs[of "1 / 1000000"] by (simp add: power2_eq_square)

section \<open>A subtree without bodies\<close>

lemma scale_vec_zero [simp]: "scale_vec a 0 = zero3"
  by (simp add: scale_vec_def zero3_def)

lemma forEachChild_same:
  "\<forall>c \<in> set cs. \<forall>f. calculateGravity_node g c b theta f = Some f \<Longrightarrow>
   forEachChild g cs b theta f = Some f"
  by (induction cs) simp_all

lemma empty_subtree_adds_nothing:
  "nonneg_sizes m \<Longrightarrow> mass_ok m \<Longrightarrow> all_bodies m = [] \<Longrightarrow>
   calculateGravity_node g m b theta f = Some f"
proof (induction m arbitrary: f)
  case (BNode c h ms cm leaf bs cs)
  from BNode.prems have bs: "bs = []" and h: "0 \<le> h"
    and kids: "\<forall>child \<in> set cs. nonneg_sizes child \<and> mass_ok child \<and> all_bodies child = []"
    by auto
  from BNode.prems(2) have "ms = sum_list (map mass (all_bodies (BNode c h ms cm leaf bs cs)))"
    by (simp only: mass_ok.simps)
  then have ms: "ms = 0"
    by (simp only: BNode.prems(3) list.map sum_list.Nil)
  have rec: "forEachChild g cs b theta f = Some f"
    by (rule forEachChild_same) (use BNode.IH kids in blast)
  let ?d = "norm_vec (vsub cm (position b))"
  show ?case
  proof (cases "\<not> leaf \<and> js_div_less h ?d theta")
    case True
    with h have "?d \<noteq> 0" using js_div_less_nonzero by blast
    with True ms show ?thesis by (simp add: js_div_def Let_def)
  next
    case False
    with bs rec show ?thesis by (auto simp: Let_def)
  qed
qed

lemma zero_mass_node:
  assumes "nonneg_sizes m" "mass_ok m" "\<forall>a \<in> set (all_bodies m). 0 < mass a" "nmass m = 0"
  shows "calculateGravity_node g m b theta f = Some f"
proof -
  from assms(2,4) have "sum_list (map mass (all_bodies m)) = 0"
    using mass_ok_iff[of m] by simp
  with assms(3) have "all_bodies m = []" by (rule sum_pos_zero_nil)
  with assms(1,2) show ?thesis by (rule empty_subtree_adds_nothing)
qed

section \<open>Trees of bodies with positive masses\<close>

lemma positive_masses_iff:
  "positive_masses n = (0 \<le> nmass n \<and> (\<forall>a \<in> set (bodies n). 0 < mass a) \<and>
     (\<forall>c \<in> set (children n). positive_masses c))"
  by (cases n) simp

lemma insertFirst_positive:
  assumes "ins_positive ins" "0 < mass b"
  shows "insertFirst ins cs b = Some cs' \<Longrightarrow> \<forall>c \<in> set cs. positive_masses c \<Longrightarrow>
         \<forall>c \<in> set cs'. positive_masses c"
proof (induction cs arbitrary: cs')
  case Nil
  then show ?case by simp
next
  case (Cons c cs)
  show ?case
  proof (cases "contains c (position b)")
    case True
    with Cons.prems obtain c' where "ins c b = Some c'" "cs' = c' # cs"
      by (auto split: option.splits)
    with assms Cons.prems(2) show ?thesis unfolding ins_positive_def by auto
  next
    case False
    with Cons.prems obtain ds where "insertFirst ins cs b = Some ds" "cs' = c # ds"
      by (auto split: option.splits)
    with Cons.IH[of ds] Cons.prems(2) show ?thesis by auto
  qed
qed

lemma insertIntoChild_positive:
  assumes "ins_positive ins" "0 < mass b" "insertIntoChild ins n b = Some n'" "positive_masses n"
  shows "positive_masses n'"
proof -
  from assms(3) obtain cs' where
    cs': "insertFirst ins (children n) b = Some cs'" and
    n': "n' = BNode (center n) (halfSize n) (nmass n) (com n) (isLeaf n) (bodies n) cs'"
    by (auto simp: insertIntoChild_def split: option.splits)
  from insertFirst_positive[OF assms(1,2) cs'] assms(4) positive_masses_iff[of n]
  show ?thesis by (simp add: n')
qed

lemma moveBodies_positive:
  assumes "ins_positive ins"
  shows "moveBodies ins n bs = Some n' \<Longrightarrow> \<forall>a \<in> set bs. 0 < mass a \<Longrightarrow>
         positive_masses n \<Longrightarrow> positive_masses n'"
proof (induction bs arbitrary: n)
  case Nil
  then show ?case by simp
next
  case (Cons b bs)
  from Cons.prems(1) obtain n1 where
    n1: "insertIntoChild ins n b = Some n1" and rest: "moveBodies ins n1 bs = Some n'"
    by (auto split: option.splits)
  from Cons.prems(2) have b: "0 < mass b" and bs: "\<forall>a \<in> set bs. 0 < mass a" by simp_all
  from Cons.IH[OF rest bs insertIntoChild_positive[OF assms b n1 Cons.prems(3)]] show ?case .
qed

lemma newChildren_positive: "\<forall>c \<in> set (newChildren n). positive_masses c"
  unfolding newChildren_list Let_def by (simp add: OctreeNode_def)

lemma subdivide_positive:
  assumes "ins_positive ins" "subdivide ins n = Some n'" "positive_masses n"
  shows "positive_masses n'"
proof -
  let ?n0 = "BNode (center n) (halfSize n) (nmass n) (com n) False [] (children n @ newChildren n)"
  from assms(3) have "positive_masses ?n0" and "\<forall>a \<in> set (bodies n). 0 < mass a"
    using positive_masses_iff[of n] newChildren_positive[of n] by auto
  with moveBodies_positive[OF assms(1), of ?n0 "bodies n" n'] assms(2)
  show ?thesis by (simp add: subdivide_def)
qed

lemma positive_masses_update:
  "positive_masses n \<Longrightarrow> 0 < mass b \<Longrightarrow> positive_masses (updateMassDistribution n b)"
  by (cases n) (simp add: updateMassDistribution_def Let_def)

lemma insert_body_positive:
  assumes ins: "ins_positive ins"
  shows "ins_positive (insert_body ins)"
  unfolding ins_positive_def
proof (intro allI impI)
  fix n b n'
  assume run: "insert_body ins n b = Some n'" and ok: "positive_masses n" and b: "0 < mass b"
  let ?n1 = "BNode (center n) (halfSize n) (nmass n) (com n) (isLeaf n) (bodies n @ [b]) (children n)"
  have ok1: "positive_masses ?n1" using ok b positive_masses_iff[of n] by simp
  from run obtain n2 where
    first: "(if \<not> isLeaf n then insertIntoChild ins n b
             else if length (bodies n @ [b]) > MAX_BODIES_PER_NODE then subdivide ins ?n1
                  else Some ?n1) = Some n2" and
    last: "(if isLeaf n2 \<and> length (bodies n2) > MAX_BODIES_PER_NODE
            then subdivide ins (updateMassDistribution n2 b)
            else Some (updateMassDistribution n2 b)) = Some n'"
    by (rule insert_body_run)
  from first have "positive_masses n2"
    using insertIntoChild_positive[OF ins b _ ok, of n2] subdivide_positive[OF ins _ ok1, of n2] ok1
    by (auto split: if_splits)
  then have "positive_masses (updateMassDistribution n2 b)"
    using b by (rule positive_masses_update)
  with last show "positive_masses n'"
    using subdivide_positive[OF ins, of "updateMassDistribution n2 b" n']
    by (auto split: if_splits)
qed

lemma insert_node_positive: "ins_positive (insert_node k)"
proof (induction k)
  case 0
  have "insert_node 0 = (\<lambda>n b. None)" by (intro ext) simp
  then show ?case by (simp add: ins_positive_def)
next
  case (Suc k)
  have "insert_node (Suc k) = insert_body (insert_node k)" by (intro ext) simp
  with insert_body_positive[OF Suc] show ?case by simp
qed

lemma insert_all_positive:
  "insert_all k t bs = Some t' \<Longrightarrow> \<forall>a \<in> set bs. 0 < mass a \<Longrightarrow> positive_masses (root t) \<Longrightarrow>
   positive_masses (root t')"
proof (induction bs arbitrary: t)
  case Nil
  then show ?case by simp
next
  case (Cons b bs)
  from Cons.prems(1) obtain r where
    r: "insert_node k (root t) b = Some r" and rest: "insert_all k (t\<lparr>root := r\<rparr>) bs = Some t'"
    by (auto simp: insert_tree_def split: option.splits)
  from insert_node_positive[of k] r Cons.prems(2,3) have "positive_masses r"
    unfolding ins_positive_def by auto
  with Cons.IH[OF rest] Cons.prems(2) show ?case by simp
qed

lemma rebuild_positive:
  assumes "rebuild k t bs = Some t'" "\<forall>a \<in> set bs. 0 < mass a"
  shows "positive_masses (root t')"
proof -
  have "positive_masses (root (clear t))"
    by (simp add: clear_def OctreeNode_def)
  with insert_all_positive[of k "clear t" bs t'] assms
  show ?thesis by (simp add: rebuild_def)
qed

section \<open>Distinct bodies that OctreeNode.js never separates\<close>

lemma beyond_octant: "beyond n p \<Longrightarrow> getOctantIndex n p = 7"
  by (simp add: beyond_def getOctantIndex_def)

lemma beyond_child: "beyond n p \<Longrightarrow> beyond (subdivideChild n 7) p"
  by (cases "halfDimension n")
     (simp add: beyond_def subdivideChild_def octantSign_def OctreeNode_strict_def scale_vec_def
        Let_def)

lemma beyond_never_returns:
  "isLeaf_strict n \<Longrightarrow> s_body n = Some a \<Longrightarrow> beyond n (position a) \<Longrightarrow>
   beyond n (position b) \<Longrightarrow> insert_strict k n b = None"
proof (induction k arbitrary: n)
  case 0
  then show ?case by simp
next
  case (Suc k)
  let ?n1 = "subdivide_strict n"
  let ?child = "subdivideChild n 7"
  have ia: "getOctantIndex ?n1 (position a) = 7" and ib: "getOctantIndex ?n1 (position b) = 7"
    using beyond_octant[OF Suc.prems(3)] beyond_octant[OF Suc.prems(4)]
    by (simp_all add: getOctantIndex_def)
  have child: "js_get (s_children ?n1) 7 = Some ?child"
    by (rule subdivide_strict_child) simp
  show ?case
  proof (cases "insert_strict k ?child a")
    case None
    with child ia Suc.prems show ?thesis
      by (simp add: insert_step_def subdivideAndReinsert_def Let_def del: strict_sel(16))
  next
    case (Some child')
    then obtain k' where k: "k = Suc k'" by (cases k) auto
    with Some have c': "child' = SNode (s_center ?child) (halfDimension ?child) (s_children ?child)
        (Some a) (mass a) (position a)"
      by (simp add: insert_step_empty_leaf)
    then have leaf': "isLeaf_strict child'" "s_body child' = Some a"
      using isLeaf_strict_fresh(3)[of n 7] by (simp_all add: isLeaf_strict_def)
    have far: "beyond child' (position a)" "beyond child' (position b)"
      using beyond_child[OF Suc.prems(3)] beyond_child[OF Suc.prems(4)]
      by (simp_all add: c' beyond_def)
    let ?n2 = "set_body (set_children ?n1 (js_set (s_children ?n1) 7 (Some child'))) None"
    have reinsert: "subdivideAndReinsert (insert_strict k) n = Some ?n2"
      using child ia Some Suc.prems
      by (simp add: subdivideAndReinsert_def Let_def del: strict_sel(16))
    have idx: "getOctantIndex ?n2 (position b) = 7"
      using ib by (simp add: getOctantIndex_def)
    have "js_get (s_children ?n2) 7 = Some child'"
      by (simp add: js_get_set del: strict_sel(16))
    with idx Suc.IH[OF leaf' far]
    have "insertIntoOctant (insert_strict k) ?n2 b = None"
      by (simp add: insertIntoOctant_def Let_def del: strict_sel(16))
    with reinsert Suc.prems show ?thesis
      by (simp add: insert_step_def)
  qed
qed

section \<open>Rebuilds that return\<close>

lemma rebuild_masses:
  assumes "rebuild k t bs = Some t'" "\<forall>b \<in> set bs. contains (root t) (position b)"
  shows "mass_ok (root t')" "mset (all_bodies (root t')) = mset bs"
proof -
  from assms(1) have run: "insert_all k (clear t) bs = Some t'" by (simp add: rebuild_def)
  have inside: "\<forall>b \<in> set bs. contains (root (clear t)) (position b)"
    using assms(2) contains_box[of "root (clear t)" "root t"] by simp
  have "tree_ok (root t') \<and> mass_ok (root t') \<and> box (root t') = box (root (clear t)) \<and>
      mset (all_bodies (root t')) = mset (all_bodies (root (clear t))) + mset bs"
    by (rule insert_all_invariant[OF run clear_root(1) clear_root(2) inside])
  then show "mass_ok (root t')" "mset (all_bodies (root t')) = mset bs"
    by simp_all
qed

lemma rebuild_strict_masses:
  assumes "rebuild_strict j n ds = Some n'"
  shows "mass_ok_strict n'" "mset (all_bodies_strict n') = mset ds"
proof -
  from assms have run: "insert_all_strict j (clear_strict n) ds = Some n'"
    by (simp add: rebuild_strict_def)
  have "mass_ok_strict n' \<and>
      mset (all_bodies_strict n') = mset (all_bodies_strict (clear_strict n)) + mset ds"
    by (rule insert_all_strict_invariant[OF run clear_strict_ok(1)])
  then show "mass_ok_strict n'" "mset (all_bodies_strict n') = mset ds" by simp_all
qed

lemma insert_all_room_mass:
  "isLeaf (root t) \<Longrightarrow> length (bodies (root t)) + length bs \<le> MAX_BODIES_PER_NODE \<Longrightarrow>
   \<exists>t'. insert_all (Suc k) t bs = Some t' \<and> isLeaf (root t') \<and>
        bodies (root t') = bodies (root t) @ bs \<and> children (root t') = children (root t) \<and>
        nmass (root t') = nmass (root t) + sum_list (map mass bs)"
proof (induction bs arbitrary: t)
  case Nil
  then show ?case by simp
next
  case (Cons b bs)
  let ?r = "updateMassDistribution
       (BNode (center (root t)) (halfSize (root t)) (nmass (root t)) (com (root t)) True
          (bodies (root t) @ [b]) (children (root t))) b"
  have step: "insert_node (Suc k) (root t) b = Some ?r"
    using Cons.prems by (intro insert_node_leaf_room) simp_all
  have "\<exists>t'. insert_all (Suc k) (t\<lparr>root := ?r\<rparr>) bs = Some t' \<and> isLeaf (root t') \<and>
        bodies (root t') = bodies (root (t\<lparr>root := ?r\<rparr>)) @ bs \<and>
        children (root t') = children (root (t\<lparr>root := ?r\<rparr>)) \<and>
        nmass (root t') = nmass (root (t\<lparr>root := ?r\<rparr>)) + sum_list (map mass bs)"
    using Cons.prems by (intro Cons.IH) simp_all
  with step show ?case by (simp add: insert_tree_def add.assoc)
qed

lemma rebuild_room:
  assumes "length bs \<le> MAX_BODIES_PER_NODE"
  shows "\<exists>t'. rebuild (Suc k) t bs = Some t' \<and> isLeaf (root t') \<and> bodies (root t') = bs \<and>
           children (root t') = [] \<and> nmass (root t') = sum_list (map mass bs)"
proof -
  have "\<exists>t'. insert_all (Suc k) (clear t) bs = Some t' \<and> isLeaf (root t') \<and>
        bodies (root t') = bodies (root (clear t)) @ bs \<and>
        children (root t') = children (root (clear t)) \<and>
        nmass (root t') = nmass (root (clear t)) + sum_list (map mass bs)"
    using assms by (intro insert_all_room_mass) (simp_all add: clear_def OctreeNode_def)
  then show ?thesis by (simp add: rebuild_def clear_def OctreeNode_def)
qed

lemma rebuild_strict_two:
  assumes "getOctantIndex n (position a) \<noteq> getOctantIndex n (position b)"
  shows "\<exists>n'. rebuild_strict (Suc (Suc j)) n [a, b] = Some n'"
proof -
  let ?n1 = "SNode (s_center n) (halfDimension n) (map (\<lambda>child. None) (s_children n)) (Some a)
             (mass a) (position a)"
  have first: "insert_strict (Suc (Suc j)) (clear_strict n) a = Some ?n1"
    using isLeaf_strict_clear[of n] insert_step_empty_leaf[of "clear_strict n" "insert_strict (Suc j)" a]
    by (simp add: clear_strict_def del: insert_strict.simps(2)) (simp add: clear_strict_def)
  have leaf: "isLeaf_strict ?n1" using isLeaf_strict_clear[of n]
    by (simp add: isLeaf_strict_def clear_strict_def)
  have "getOctantIndex ?n1 (position a) \<noteq> getOctantIndex ?n1 (position b)"
    using assms by (simp add: getOctantIndex_def)
  from insert_strict_two_octants[OF leaf _ this, of j]
  obtain n' where "insert_strict (Suc (Suc j)) ?n1 b = Some n'" by auto
  with first show ?thesis
    by (simp add: rebuild_strict_def del: insert_strict.simps)
qed

lemma rebuild_fixed: "rebuild k t bs = Some t' \<Longrightarrow> rebuild k t' bs = Some t'"
proof -
  assume run: "rebuild k t bs = Some t'"
  then have "insert_all k (clear t) bs = Some t'" by (simp add: rebuild_def)
  from insert_all_frame[OF this]
  have "box (root t') = box (root (clear t))"
    and "\<And>r. t'\<lparr>root := r\<rparr> = (clear t)\<lparr>root := r\<rparr>" by simp_all
  then have "clear t' = clear t"
    by (simp add: clear_def box_def OctreeNode_def)
  with run show "rebuild k t' bs = Some t'" by (simp add: rebuild_def)
qed

lemma rebuild_strict_fixed:
  assumes "length (s_children n) = 8" "rebuild_strict j n ds = Some n'"
  shows "rebuild_strict j n' ds = Some n'"
proof -
  from assms have run: "insert_all_strict j (clear_strict n) ds = Some n'"
    by (simp add: rebuild_strict_def)
  have "length (s_children (clear_strict n)) = 8" using assms by (simp add: clear_strict_def)
  from insert_all_strict_frame[OF run this] assms
  have "clear_strict n' = clear_strict (clear_strict n)"
    by (intro clear_strict_frame) (simp_all add: clear_strict_def)
  also have "\<dots> = clear_strict n" by (simp add: clear_strict_def)
  finally show ?thesis using run by (simp add: rebuild_strict_def)
qed

section \<open>The Barnes-Hut criterion\<close>

text \<open>
  C1, as stated, fails on octree.js: a leaf is a bucket of up to ten bodies, and the walk adds
  one term per occupant, not one term for the leaf's mass at its center of mass. The tree
  rebuilt from two bodies of mass 1 at (1, 0, 0) and (3, 0, 0) is one leaf of mass 2 with
  center of mass (2, 0, 0); on a body of mass 1 at the origin the walk returns
  (10/9, 0, 0), the point-mass term of the leaf is (1/2, 0, 0).
\<close>

theorem bucket_leaf_sums_pairs:
  "rebuild 1 (Octree 16 1) [Body 1 (Vec3 1 0 0) 1, Body 2 (Vec3 3 0 0) 1] =
     Some \<lparr>gravityConstant = 1, root = BNode (Vec3 0 0 0) 8 2 (Vec3 2 0 0) True
             [Body 1 (Vec3 1 0 0) 1, Body 2 (Vec3 3 0 0) 1] []\<rparr> \<and>
   calculateGravity \<lparr>gravityConstant = 1, root = BNode (Vec3 0 0 0) 8 2 (Vec3 2 0 0) True
             [Body 1 (Vec3 1 0 0) 1, Body 2 (Vec3 3 0 0) 1] []\<rparr> (Body 0 (Vec3 0 0 0) 1) (1 / 2) =
     Some (Vec3 (10 / 9) 0 0) \<and>
   pointMassTerm 1 2 (Vec3 2 0 0) (Body 0 (Vec3 0 0 0) 1) = Vec3 (1 / 2) 0 0"
proof (intro conjI)
  show "rebuild 1 (Octree 16 1) [Body 1 (Vec3 1 0 0) 1, Body 2 (Vec3 3 0 0) 1] =
     Some \<lparr>gravityConstant = 1, root = BNode (Vec3 0 0 0) 8 2 (Vec3 2 0 0) True
             [Body 1 (Vec3 1 0 0) 1, Body 2 (Vec3 3 0 0) 1] []\<rparr>"
    by (simp add: rebuild_def clear_def Octree_def insert_tree_def insert_body_def OctreeNode_def
        MAX_BODIES_PER_NODE_def updateMassDistribution_def Let_def)
  show "calculateGravity \<lparr>gravityConstant = 1, root = BNode (Vec3 0 0 0) 8 2 (Vec3 2 0 0) True
             [Body 1 (Vec3 1 0 0) 1, Body 2 (Vec3 3 0 0) 1] []\<rparr> (Body 0 (Vec3 0 0 0) 1) (1 / 2) =
     Some (Vec3 (10 / 9) 0 0)"
    by (simp add: calculateGravity_def pairForce_def same_object_def vsub_def norm2_def js_div_def
        unit_vec_def norm_vec_def scale_vec_def vadd_def zero3_def sqrt_square_numeral Let_def)
  show "pointMassTerm 1 2 (Vec3 2 0 0) (Body 0 (Vec3 0 0 0) 1) = Vec3 (1 / 2) 0 0"
    by (simp add: pointMassTerm_def vsub_def norm2_def unit_vec_def norm_vec_def scale_vec_def
        sqrt_square_numeral Let_def)
qed

text \<open>
  C1, amended. OctreeNode.js: for a node of nonzero mass whose occupant is not the target
  body and whose center of mass is not at the body's position, the walk adds the node's
  contribution to the force; the contribution is the point-mass term when the node is a leaf
  or the source's test on \<open>this.size\<close> holds, and otherwise the sum of the contributions of
  the children that are not \<open>null\<close>. octree.js: an internal node (of a tree with no negative
  half-size) contributes the point-mass term when the distance is not zero and
  \<open>halfSize / distance < theta\<close>, and otherwise the sum of the contributions of its children;
  a leaf contributes the sum over its occupants of the pair's term, which is zero for the
  target itself and for an occupant within squared distance \<open>1e-10\<close>, and the point-mass
  term of the occupant otherwise.
\<close>

theorem force_contribution:
  "(s_mass n \<noteq> 0 \<and> \<not> is_occupant b (s_body n) \<and>
      distanceSquared (centerOfMass n) (position b) \<noteq> 0 \<longrightarrow>
      calculateForcesOnBody n b theta f g = Some (vadd f (contribution_strict n b theta g)) \<and>
      contribution_strict n b theta g =
        (if isLeaf_strict n \<or> sizeTest n (distanceSquared (centerOfMass n) (position b)) theta
         then pointMassTerm g (s_mass n) (centerOfMass n) b
         else sum_vec (map (\<lambda>c. contribution_strict c b theta g)
                (List.map_filter id (s_children n))))) \<and>
   (nonneg_sizes m \<and> \<not> isLeaf m \<longrightarrow>
      calculateGravity_node g m b theta f = Some (vadd f (contribution g m b theta)) \<and>
      contribution g m b theta =
        (if norm_vec (vsub (com m) (position b)) \<noteq> 0 \<and>
            halfSize m / norm_vec (vsub (com m) (position b)) < theta
         then pointMassTerm g (nmass m) (com m) b
         else sum_vec (map (\<lambda>c. contribution g c b theta) (children m)))) \<and>
   (isLeaf l \<longrightarrow>
      calculateGravity_node g l b theta f =
        Some (vadd f (sum_vec (map (pairTerm g b) (bodies l)))) \<and>
      pairTerm g b a =
        (if same_object a b \<or> norm2 (vsub (position a) (position b)) \<le> 1 / 10 ^ 10 then zero3
         else pointMassTerm g (mass a) (position a) b))"
proof (intro conjI impI)
  assume h: "s_mass n \<noteq> 0 \<and> \<not> is_occupant b (s_body n) \<and>
      distanceSquared (centerOfMass n) (position b) \<noteq> 0"
  show "calculateForcesOnBody n b theta f g = Some (vadd f (contribution_strict n b theta g))"
    by (rule calculateForcesOnBody_contribution)
  obtain c hd cs bo ms cm where n: "n = SNode c hd cs bo ms cm" by (cases n)
  let ?d2 = "distanceSquared cm (position b)"
  have unfold: "contribution_strict n b theta g =
      (case calculateForcesOnBody n b theta zero3 g of None \<Rightarrow> zero3 | Some v \<Rightarrow> v)"
    by (simp add: contribution_strict_def)
  show "contribution_strict n b theta g =
        (if isLeaf_strict n \<or> sizeTest n (distanceSquared (centerOfMass n) (position b)) theta
         then pointMassTerm g (s_mass n) (centerOfMass n) b
         else sum_vec (map (\<lambda>c. contribution_strict c b theta g)
                (List.map_filter id (s_children n))))"
  proof (cases "isLeaf_strict n \<or> sizeTest n ?d2 theta")
    case True
    with h n have "calculateForcesOnBody n b theta zero3 g =
        Some (scale_vec (normalize_vec (vsub cm (position b))) (g * ms * mass b / ?d2))"
      by (auto simp: js_div_def)
    with h n have "calculateForcesOnBody n b theta zero3 g = Some (pointMassTerm g ms cm b)"
      by (simp add: strict_pointMass)
    with unfold have "contribution_strict n b theta g = pointMassTerm g ms cm b" by simp
    with True n show ?thesis by simp
  next
    case False
    with h n have "calculateForcesOnBody n b theta zero3 g = forcesOfChildren cs b theta zero3 g"
      by auto
    also have "\<dots> = Some (sum_vec (map (\<lambda>c. contribution_strict c b theta g) (List.map_filter id cs)))"
      by (simp add: forcesOfChildren_contribution)
    finally have "contribution_strict n b theta g =
        sum_vec (map (\<lambda>c. contribution_strict c b theta g) (List.map_filter id cs))"
      using unfold by simp
    with False n show ?thesis by auto
  qed
next
  assume h: "nonneg_sizes m \<and> \<not> isLeaf m"
  then show "calculateGravity_node g m b theta f = Some (vadd f (contribution g m b theta))"
    by (simp add: calculateGravity_node_contribution)
  obtain c hs ms cm lf bs cs where m: "m = BNode c hs ms cm lf bs cs" by (cases m)
  let ?d = "norm_vec (vsub cm (position b))"
  from h m have hs: "0 \<le> hs" and kids: "\<forall>c \<in> set cs. nonneg_sizes c" and lf: "\<not> lf" by auto
  have test: "js_div_less hs ?d theta \<longleftrightarrow> ?d \<noteq> 0 \<and> hs / ?d < theta"
    using hs by (auto simp: js_div_less_def)
  have unfold: "contribution g m b theta =
      (case calculateGravity_node g m b theta zero3 of None \<Rightarrow> zero3 | Some v \<Rightarrow> v)"
    by (simp add: contribution_def)
  show "contribution g m b theta =
        (if norm_vec (vsub (com m) (position b)) \<noteq> 0 \<and>
            halfSize m / norm_vec (vsub (com m) (position b)) < theta
         then pointMassTerm g (nmass m) (com m) b
         else sum_vec (map (\<lambda>c. contribution g c b theta) (children m)))"
  proof (cases "?d \<noteq> 0 \<and> hs / ?d < theta")
    case True
    with test have "js_div_less hs ?d theta" by blast
    then have "calculateGravity_node g m b theta zero3 =
        Some (scale_vec (unit_vec (vsub cm (position b))) (g * mass b * ms / (?d * ?d)))"
      using m lf True by (simp add: js_div_def Let_def)
    moreover have "g * mass b * ms = g * ms * mass b" by simp
    ultimately have "calculateGravity_node g m b theta zero3 = Some (pointMassTerm g ms cm b)"
      by (simp add: pointMassTerm_def Let_def)
    with unfold have "contribution g m b theta = pointMassTerm g ms cm b" by simp
    with True m show ?thesis by simp
  next
    case False
    with test have "\<not> js_div_less hs ?d theta" by blast
    then have "calculateGravity_node g m b theta zero3 = forEachChild g cs b theta zero3"
      using m lf by (simp add: Let_def)
    also have "\<dots> = Some (sum_vec (map (\<lambda>c. contribution g c b theta) cs))"
      using kids by (simp add: forEachChild_contribution)
    finally have "contribution g m b theta = sum_vec (map (\<lambda>c. contribution g c b theta) cs)"
      using unfold by simp
    with False m show ?thesis by auto
  qed
next
  assume "isLeaf l"
  then show "calculateGravity_node g l b theta f =
        Some (vadd f (sum_vec (map (pairTerm g b) (bodies l))))"
    by (cases l) (simp add: forEachBody_eq)
next
  show "pairTerm g b a =
        (if same_object a b \<or> norm2 (vsub (position a) (position b)) \<le> 1 / 10 ^ 10 then zero3
         else pointMassTerm g (mass a) (position a) b)"
    by (rule pairTerm_pointMass)
qed

text \<open>The theorem at a leaf of OctreeNode.js that holds one other body, at an internal node
  of octree.js that is far enough to be taken as one point mass, and at the two-body leaf
  above.\<close>

theorem force_contribution_witness:
  "s_mass (SNode (Vec3 0 0 0) (Vec3 8 8 8) (replicate 8 None) (Some (Body 1 (Vec3 3 0 0) 2)) 2 (Vec3 3 0 0)) \<noteq> 0 \<and>
   \<not> is_occupant (Body 0 (Vec3 0 0 0) 1) (Some (Body 1 (Vec3 3 0 0) 2)) \<and>
   distanceSquared (Vec3 3 0 0) (position (Body 0 (Vec3 0 0 0) 1)) \<noteq> 0 \<and>
   calculateForcesOnBody
     (SNode (Vec3 0 0 0) (Vec3 8 8 8) (replicate 8 None) (Some (Body 1 (Vec3 3 0 0) 2)) 2 (Vec3 3 0 0))
     (Body 0 (Vec3 0 0 0) 1) 1 zero3 1 = Some (Vec3 (2 / 9) 0 0) \<and>
   nonneg_sizes (BNode (Vec3 0 0 0) 8 11 (Vec3 16 0 0) False [] (newChildren (OctreeNode (Vec3 0 0 0) 8))) \<and>
   calculateGravity_node 1
     (BNode (Vec3 0 0 0) 8 11 (Vec3 16 0 0) False [] (newChildren (OctreeNode (Vec3 0 0 0) 8)))
     (Body 0 (Vec3 0 0 0) 1) 1 zero3 = Some (Vec3 (11 / 256) 0 0) \<and>
   calculateGravity_node 1
     (BNode (Vec3 0 0 0) 8 2 (Vec3 2 0 0) True [Body 1 (Vec3 1 0 0) 1, Body 2 (Vec3 3 0 0) 1] [])
     (Body 0 (Vec3 0 0 0) 1) 1 zero3 = Some (Vec3 (10 / 9) 0 0)"
  using force_contribution[of
     "SNode (Vec3 0 0 0) (Vec3 8 8 8) (replicate 8 None) (Some (Body 1 (Vec3 3 0 0) 2)) 2 (Vec3 3 0 0)"
     "Body 0 (Vec3 0 0 0) 1" 1 zero3 1
     "BNode (Vec3 0 0 0) 8 11 (Vec3 16 0 0) False [] (newChildren (OctreeNode (Vec3 0 0 0) 8))"
     "BNode (Vec3 0 0 0) 8 2 (Vec3 2 0 0) True [Body 1 (Vec3 1 0 0) 1, Body 2 (Vec3 3 0 0) 1] []"
     "Body 1 (Vec3 3 0 0) 2"]
  by (simp add: is_occupant_def same_object_def distanceSquared_def vsub_def norm2_def
      isLeaf_strict_def pointMassTerm_def pairTerm_def unit_vec_def norm_vec_def scale_vec_def
      vadd_def zero3_def newChildren_def OctreeNode_def sqrt_square_numeral Let_def
      sizeTest_def size_of_def js_div_less_def js_div_def list_all_iff contribution_def
      contribution_strict_def pairForce_def)

section \<open>Aggregate mass\<close>

text \<open>
  C2, as stated, fails: the rebuild cycle does not return for every body set within the
  bounds of the root, so that for such a set no tree is built whose masses could be the sums.
  In octree.js eleven bodies at (2, 3, 4), inside the root cube of half-size 8, exceed every
  bound on the call depth. In OctreeNode.js the two bodies at (5, 5, 5) and (6, 6, 6),
  inside the root cube of half-dimension 8, do: \<open>subdivide\<close> puts the centers of the
  children a quarter of the half-dimension away, both bodies lie in octant 7 of every node
  of the chain, and no subdivision separates them.
\<close>

theorem rebuild_in_bounds_never_returns:
  "list_all (\<lambda>b. contains (root (Octree 16 1)) (position b))
      (map (\<lambda>i. Body i (Vec3 2 3 4) 1) [0..<11]) \<and>
   (\<forall>k. rebuild k (Octree 16 1) (map (\<lambda>i. Body i (Vec3 2 3 4) 1) [0..<11]) = None) \<and>
   (\<forall>k. rebuild_strict k (OctreeNode_strict (Vec3 0 0 0) (Vec3 8 8 8))
          [Body 1 (Vec3 5 5 5) 1, Body 2 (Vec3 6 6 6) 1] = None)"
proof (intro conjI allI)
  show "list_all (\<lambda>b. contains (root (Octree 16 1)) (position b))
      (map (\<lambda>i. Body i (Vec3 2 3 4) 1) [0..<11])"
    by (simp add: list_all_iff contains_def Octree_def OctreeNode_def)
next
  fix k
  let ?bs = "map (\<lambda>i. Body i (Vec3 2 3 4) 1) [0..<11]"
  have "stack (Vec3 2 3 4) 0 (root (clear (Octree 16 1)))"
    by (simp add: stack_def clear_def Octree_def OctreeNode_def contains_def)
  moreover have "\<forall>a \<in> set ?bs. position a = Vec3 2 3 4" by simp
  ultimately have "insert_all k (clear (Octree 16 1)) ?bs = None"
    using insert_all_stack[of ?bs "Vec3 2 3 4" 0 "clear (Octree 16 1)" k]
    by (simp add: MAX_BODIES_PER_NODE_def)
  then show "rebuild k (Octree 16 1) ?bs = None" by (simp add: rebuild_def)
next
  fix k
  let ?n = "OctreeNode_strict (Vec3 0 0 0) (Vec3 8 8 8)"
  let ?a = "Body 1 (Vec3 5 5 5) 1"
  let ?b = "Body 2 (Vec3 6 6 6) 1"
  have clear: "clear_strict ?n = ?n" by (simp add: clear_strict_def OctreeNode_strict_def)
  have "insert_all_strict k ?n [?a, ?b] = None"
  proof (cases k)
    case 0
    then show ?thesis by simp
  next
    case (Suc k')
    let ?n1 = "SNode (s_center ?n) (halfDimension ?n) (s_children ?n) (Some ?a) (mass ?a) (position ?a)"
    have first: "insert_strict k ?n ?a = Some ?n1"
      using Suc by (simp add: insert_step_empty_leaf)
    have "isLeaf_strict ?n1" "s_body ?n1 = Some ?a"
      "beyond ?n1 (position ?a)" "beyond ?n1 (position ?b)"
      using isLeaf_strict_fresh(1)[of "Vec3 0 0 0" "Vec3 8 8 8"]
      by (simp_all add: isLeaf_strict_def beyond_def OctreeNode_strict_def)
    from beyond_never_returns[OF this] have "insert_strict k ?n1 ?b = None" .
    with first show ?thesis by simp
  qed
  with clear show "rebuild_strict k ?n [?a, ?b] = None" by (simp add: rebuild_strict_def)
qed

text \<open>
  C2, amended: when the rebuild cycle (clear, then insert every body) returns, and in
  octree.js every body lies within the bounds of the root, the mass of every node of the
  tree is the sum of the masses of the bodies stored in the node's subtree, the bodies
  stored in the tree are the bodies inserted, and the mass of the root is the sum of the
  masses of all the bodies. For OctreeNode.js the same holds without a condition on the
  positions. The cycle returns, with these sums, in octree.js for every list of at most ten
  bodies, and in OctreeNode.js for every two bodies in different octants of the root.
\<close>

theorem aggregate_mass_is_subtree_sum:
  "(rebuild k t bs = Some t' \<and> (\<forall>b \<in> set bs. contains (root t) (position b)) \<longrightarrow>
      (\<forall>x \<in> set (subtree_nodes (root t')). nmass x = sum_list (map mass (all_bodies x))) \<and>
      mset (all_bodies (root t')) = mset bs \<and>
      nmass (root t') = sum_list (map mass bs)) \<and>
   (rebuild_strict j n ds = Some n' \<longrightarrow>
      (\<forall>x \<in> set (subtree_nodes_strict n'). s_mass x = sum_list (map mass (all_bodies_strict x))) \<and>
      mset (all_bodies_strict n') = mset ds \<and>
      s_mass n' = sum_list (map mass ds)) \<and>
   (length cs \<le> MAX_BODIES_PER_NODE \<longrightarrow>
      (\<exists>u'. rebuild (Suc i) u cs = Some u' \<and>
         (\<forall>x \<in> set (subtree_nodes (root u')). nmass x = sum_list (map mass (all_bodies x))) \<and>
         mset (all_bodies (root u')) = mset cs \<and>
         nmass (root u') = sum_list (map mass cs))) \<and>
   (getOctantIndex m (position a) \<noteq> getOctantIndex m (position b) \<longrightarrow>
      (\<exists>m'. rebuild_strict (Suc (Suc i)) m [a, b] = Some m' \<and>
         (\<forall>x \<in> set (subtree_nodes_strict m'). s_mass x = sum_list (map mass (all_bodies_strict x))) \<and>
         mset (all_bodies_strict m') = mset [a, b] \<and>
         s_mass m' = mass a + mass b))"
proof -
  have strict: "(\<forall>x \<in> set (subtree_nodes_strict q'). s_mass x = sum_list (map mass (all_bodies_strict x))) \<and>
      mset (all_bodies_strict q') = mset es \<and> s_mass q' = sum_list (map mass es)"
    if run: "rebuild_strict l q es = Some q'" for l q es q'
  proof -
    from rebuild_strict_masses[OF run]
    have ok: "mass_ok_strict q'" and all: "mset (all_bodies_strict q') = mset es" by simp_all
    from ok have "s_mass q' = sum_list (map mass (all_bodies_strict q'))"
      using mass_ok_strict_iff[of q'] by blast
    also have "\<dots> = sum_mset (image_mset mass (mset es))"
      by (rule mass_sum_mset[OF all])
    also have "\<dots> = sum_list (map mass es)"
      by (rule mass_sum_mset[OF refl, symmetric])
    finally have "s_mass q' = sum_list (map mass es)" .
    with all mass_ok_strict_subtree(1)[OF ok] show ?thesis by blast
  qed
  have one: "rebuild k t bs = Some t' \<and> (\<forall>b \<in> set bs. contains (root t) (position b)) \<longrightarrow>
      (\<forall>x \<in> set (subtree_nodes (root t')). nmass x = sum_list (map mass (all_bodies x))) \<and>
      mset (all_bodies (root t')) = mset bs \<and>
      nmass (root t') = sum_list (map mass bs)"
  proof (intro impI)
    assume h: "rebuild k t bs = Some t' \<and> (\<forall>b \<in> set bs. contains (root t) (position b))"
    then have run: "rebuild k t bs = Some t'"
      and inside: "\<forall>b \<in> set bs. contains (root t) (position b)" by simp_all
    from rebuild_masses[OF run inside]
    have ok: "mass_ok (root t')" and all: "mset (all_bodies (root t')) = mset bs" by simp_all
    from ok have "nmass (root t') = sum_list (map mass (all_bodies (root t')))"
      using mass_ok_iff[of "root t'"] by blast
    also have "\<dots> = sum_mset (image_mset mass (mset bs))"
      by (rule mass_sum_mset[OF all])
    also have "\<dots> = sum_list (map mass bs)"
      by (rule mass_sum_mset[OF refl, symmetric])
    finally have "nmass (root t') = sum_list (map mass bs)" .
    with all mass_ok_subtree[OF ok]
    show "(\<forall>x \<in> set (subtree_nodes (root t')). nmass x = sum_list (map mass (all_bodies x))) \<and>
      mset (all_bodies (root t')) = mset bs \<and> nmass (root t') = sum_list (map mass bs)"
      by blast
  qed
  have two: "rebuild_strict j n ds = Some n' \<longrightarrow>
      (\<forall>x \<in> set (subtree_nodes_strict n'). s_mass x = sum_list (map mass (all_bodies_strict x))) \<and>
      mset (all_bodies_strict n') = mset ds \<and>
      s_mass n' = sum_list (map mass ds)"
    using strict[of j n ds n'] by blast
  have three: "length cs \<le> MAX_BODIES_PER_NODE \<longrightarrow>
      (\<exists>u'. rebuild (Suc i) u cs = Some u' \<and>
         (\<forall>x \<in> set (subtree_nodes (root u')). nmass x = sum_list (map mass (all_bodies x))) \<and>
         mset (all_bodies (root u')) = mset cs \<and>
         nmass (root u') = sum_list (map mass cs))"
  proof (intro impI)
    assume "length cs \<le> MAX_BODIES_PER_NODE"
    from rebuild_room[OF this, of i u] obtain u' where
      run: "rebuild (Suc i) u cs = Some u'" and leaf: "bodies (root u') = cs"
      "children (root u') = []" "nmass (root u') = sum_list (map mass cs)"
      by blast
    from leaf have "subtree_nodes (root u') = [root u']" "all_bodies (root u') = cs"
      by (cases "root u'"; simp)+
    with run leaf(3)
    show "\<exists>u'. rebuild (Suc i) u cs = Some u' \<and>
         (\<forall>x \<in> set (subtree_nodes (root u')). nmass x = sum_list (map mass (all_bodies x))) \<and>
         mset (all_bodies (root u')) = mset cs \<and>
         nmass (root u') = sum_list (map mass cs)"
      by auto
  qed
  have four: "getOctantIndex m (position a) \<noteq> getOctantIndex m (position b) \<longrightarrow>
      (\<exists>m'. rebuild_strict (Suc (Suc i)) m [a, b] = Some m' \<and>
         (\<forall>x \<in> set (subtree_nodes_strict m'). s_mass x = sum_list (map mass (all_bodies_strict x))) \<and>
         mset (all_bodies_strict m') = mset [a, b] \<and>
         s_mass m' = mass a + mass b)"
  proof (intro impI)
    assume "getOctantIndex m (position a) \<noteq> getOctantIndex m (position b)"
    from rebuild_strict_two[OF this, of i] obtain m' where
      run: "rebuild_strict (Suc (Suc i)) m [a, b] = Some m'" by blast
    from strict[OF run] run
    show "\<exists>m'. rebuild_strict (Suc (Suc i)) m [a, b] = Some m' \<and>
         (\<forall>x \<in> set (subtree_nodes_strict m'). s_mass x = sum_list (map mass (all_bodies_strict x))) \<and>
         mset (all_bodies_strict m') = mset [a, b] \<and>
         s_mass m' = mass a + mass b"
      by (intro exI[of _ m']) simp
  qed
  from one two three four show ?thesis by blast
qed

text \<open>The theorem at eleven bodies, which make the root of octree.js subdivide, at three
  bodies in three octants for OctreeNode.js, at the three bodies in the root leaf of
  octree.js, and at two bodies in two octants for OctreeNode.js.\<close>

theorem aggregate_mass_is_subtree_sum_witness:
  "(\<exists>t'. rebuild 2 (Octree 16 1) eleven = Some t' \<and>
      (\<forall>x \<in> set (subtree_nodes (root t')). nmass x = sum_list (map mass (all_bodies x))) \<and>
      mset (all_bodies (root t')) = mset eleven \<and> nmass (root t') = 66) \<and>
   (\<exists>n'. rebuild_strict 2 (OctreeNode_strict (Vec3 0 0 0) (Vec3 8 8 8)) three = Some n' \<and>
      (\<forall>x \<in> set (subtree_nodes_strict n'). s_mass x = sum_list (map mass (all_bodies_strict x))) \<and>
      mset (all_bodies_strict n') = mset three \<and> s_mass n' = 6) \<and>
   length three \<le> MAX_BODIES_PER_NODE \<and>
   (\<exists>u'. rebuild 1 (Octree 16 1) three = Some u' \<and>
      (\<forall>x \<in> set (subtree_nodes (root u')). nmass x = sum_list (map mass (all_bodies x))) \<and>
      mset (all_bodies (root u')) = mset three \<and> nmass (root u') = 6) \<and>
   getOctantIndex (OctreeNode_strict (Vec3 0 0 0) (Vec3 8 8 8)) (position (Body 1 (Vec3 1 1 1) 1)) \<noteq>
   getOctantIndex (OctreeNode_strict (Vec3 0 0 0) (Vec3 8 8 8)) (position (Body 2 (Vec3 (- 1) 1 1) 2)) \<and>
   (\<exists>m'. rebuild_strict 2 (OctreeNode_strict (Vec3 0 0 0) (Vec3 8 8 8))
            [Body 1 (Vec3 1 1 1) 1, Body 2 (Vec3 (- 1) 1 1) 2] = Some m' \<and>
      (\<forall>x \<in> set (subtree_nodes_strict m'). s_mass x = sum_list (map mass (all_bodies_strict x))) \<and>
      mset (all_bodies_strict m') = mset [Body 1 (Vec3 1 1 1) 1, Body 2 (Vec3 (- 1) 1 1) 2] \<and>
      s_mass m' = 3)"
proof -
  have "rebuild 2 (Octree 16 1) eleven \<noteq> None" by code_simp
  then obtain t' where t': "rebuild 2 (Octree 16 1) eleven = Some t'" by blast
  have "rebuild_strict 2 (OctreeNode_strict (Vec3 0 0 0) (Vec3 8 8 8)) three \<noteq> None" by code_simp
  then obtain n' where n': "rebuild_strict 2 (OctreeNode_strict (Vec3 0 0 0) (Vec3 8 8 8)) three = Some n'"
    by blast
  have inside: "\<forall>b \<in> set eleven. contains (root (Octree 16 1)) (position b)"
    by (simp add: eleven_def contains_def Octree_def OctreeNode_def)
  have sums: "sum_list (map mass eleven) = 66" "sum_list (map mass three) = 6"
    by (simp_all add: eleven_def three_def)
  have room: "length three \<le> MAX_BODIES_PER_NODE"
    by (simp add: three_def MAX_BODIES_PER_NODE_def)
  have octants:
    "getOctantIndex (OctreeNode_strict (Vec3 0 0 0) (Vec3 8 8 8)) (position (Body 1 (Vec3 1 1 1) 1)) \<noteq>
     getOctantIndex (OctreeNode_strict (Vec3 0 0 0) (Vec3 8 8 8)) (position (Body 2 (Vec3 (- 1) 1 1) 2))"
    by (simp add: getOctantIndex_def OctreeNode_strict_def)
  from aggregate_mass_is_subtree_sum[where k=2 and t="Octree 16 1" and bs=eleven and t'=t'
      and j=2 and n="OctreeNode_strict (Vec3 0 0 0) (Vec3 8 8 8)" and ds=three and n'=n'
      and cs=three and i=0 and u="Octree 16 1"
      and m="OctreeNode_strict (Vec3 0 0 0) (Vec3 8 8 8)"
      and a="Body 1 (Vec3 1 1 1) 1" and b="Body 2 (Vec3 (- 1) 1 1) 2"]
    t' n' inside sums room octants
  show ?thesis by (simp add: numeral_2_eq_2 del: insert_strict.simps)
qed

section \<open>Termination of insertion\<close>




section \<open>No ceiling on the force\<close>

text \<open>
  C4, as stated, fails: neither walk clamps the force. For every bound \<open>C\<close> the tree rebuilt
  from one body of mass \<open>\<bar>C\<bar> + 1\<close> at (1, 0, 0) exerts a force of that magnitude on a
  body of mass 1 at the origin.
\<close>

theorem no_force_ceiling:
  "\<not> (\<exists>C. \<forall>a b t v. rebuild 1 (Octree 16 1) [a] = Some t \<and>
          calculateGravity t b (1 / 2) = Some v \<longrightarrow> norm_vec v \<le> C)"
proof
  assume "\<exists>C. \<forall>a b t v. rebuild 1 (Octree 16 1) [a] = Some t \<and>
          calculateGravity t b (1 / 2) = Some v \<longrightarrow> norm_vec v \<le> C"
  then obtain C where C: "\<And>a b t v. rebuild 1 (Octree 16 1) [a] = Some t \<Longrightarrow>
          calculateGravity t b (1 / 2) = Some v \<Longrightarrow> norm_vec v \<le> C"
    by blast
  define M where "M = \<bar>C\<bar> + 1"
  have Mpos: "0 < M" by (simp add: M_def)
  let ?a = "Body 1 (Vec3 1 0 0) M"
  let ?b = "Body 0 (Vec3 0 0 0) 1"
  obtain cm where r: "rebuild 1 (Octree 16 1) [?a] =
      Some \<lparr>gravityConstant = 1, root = BNode (Vec3 0 0 0) 8 M cm True [?a] []\<rparr>"
    by (simp add: rebuild_single Octree_def OctreeNode_def)
  let ?t = "\<lparr>gravityConstant = 1, root = BNode (Vec3 0 0 0) 8 M cm True [?a] []\<rparr>"
  have "calculateGravity ?t ?b (1 / 2) = Some (Vec3 M 0 0)"
    by (simp add: calculateGravity_def pairForce_def same_object_def vsub_def norm2_def
        js_div_def unit_vec_def norm_vec_def scale_vec_def vadd_def zero3_def Let_def)
  from C[OF r this] have "norm_vec (Vec3 M 0 0) \<le> C" .
  then have "\<bar>M\<bar> \<le> C" by (simp add: norm_vec_def norm2_def)
  then show False by (simp add: M_def)
qed

text \<open>
  C4, amended: the walks apply no ceiling. A leaf of octree.js with one occupant other than
  the target, at squared distance above \<open>1e-10\<close>, returns a force of magnitude exactly
  \<open>\<bar>G * m\<^sub>a * m\<^sub>b\<bar> / d\<^sup>2\<close>; a leaf of OctreeNode.js of nonzero mass that does not hold
  the target, with its center of mass not at the target's position, returns a force of
  magnitude exactly \<open>\<bar>G * M * m\<^sub>b\<bar> / d\<^sup>2\<close>.
\<close>

theorem force_magnitude_unclamped:
  "(isLeaf l \<and> bodies l = [a] \<and> \<not> same_object a b \<and>
      1 / 10 ^ 10 < norm2 (vsub (position a) (position b)) \<longrightarrow>
      (\<exists>v. calculateGravity_node g l b theta zero3 = Some v \<and>
           norm_vec v = \<bar>g * mass a * mass b\<bar> / norm2 (vsub (position a) (position b)))) \<and>
   (isLeaf_strict n \<and> s_mass n \<noteq> 0 \<and> \<not> is_occupant b (s_body n) \<and>
      distanceSquared (centerOfMass n) (position b) \<noteq> 0 \<longrightarrow>
      (\<exists>v. calculateForcesOnBody n b theta zero3 g = Some v \<and>
           norm_vec v = \<bar>g * s_mass n * mass b\<bar> / distanceSquared (centerOfMass n) (position b)))"
proof (intro conjI impI)
  assume h: "isLeaf l \<and> bodies l = [a] \<and> \<not> same_object a b \<and>
      1 / 10 ^ 10 < norm2 (vsub (position a) (position b))"
  let ?d2 = "norm2 (vsub (position a) (position b))"
  have pos: "(0::real) < 1 / 10 ^ 10" by simp
  with h have nz: "?d2 \<noteq> 0" by linarith
  from h have "pairTerm g b a = pointMassTerm g (mass a) (position a) b"
    by (simp add: pairTerm_pointMass)
  moreover from h have "calculateGravity_node g l b theta zero3 = Some (pairTerm g b a)"
    by (cases l) (simp add: forEachBody_eq)
  ultimately show "\<exists>v. calculateGravity_node g l b theta zero3 = Some v \<and>
           norm_vec v = \<bar>g * mass a * mass b\<bar> / ?d2"
    using norm_pointMassTerm[OF nz] by simp
next
  assume h: "isLeaf_strict n \<and> s_mass n \<noteq> 0 \<and> \<not> is_occupant b (s_body n) \<and>
      distanceSquared (centerOfMass n) (position b) \<noteq> 0"
  let ?d2 = "distanceSquared (centerOfMass n) (position b)"
  have d: "?d2 = norm2 (vsub (centerOfMass n) (position b))"
    by (simp add: distanceSquared_def norm2_vsub_swap)
  from h have "calculateForcesOnBody n b theta zero3 g =
      Some (scale_vec (normalize_vec (vsub (centerOfMass n) (position b))) (g * s_mass n * mass b / ?d2))"
    by (cases n) (auto simp: js_div_def)
  with h have "calculateForcesOnBody n b theta zero3 g = Some (pointMassTerm g (s_mass n) (centerOfMass n) b)"
    by (simp add: strict_pointMass)
  then show "\<exists>v. calculateForcesOnBody n b theta zero3 g = Some v \<and>
           norm_vec v = \<bar>g * s_mass n * mass b\<bar> / ?d2"
    using norm_pointMassTerm[of "centerOfMass n" b g "s_mass n"] h d by simp
qed

text \<open>The theorem at a body of mass 2 at distance 3 from a body of mass 1, with
  gravitational constant 1000.\<close>

theorem force_magnitude_unclamped_witness:
  "(\<exists>v. calculateGravity_node 1000
          (BNode (Vec3 0 0 0) 8 2 (Vec3 3 0 0) True [Body 1 (Vec3 3 0 0) 2] [])
          (Body 0 (Vec3 0 0 0) 1) (1 / 2) zero3 = Some v \<and> norm_vec v = 2000 / 9) \<and>
   (\<exists>v. calculateForcesOnBody
          (SNode (Vec3 0 0 0) (Vec3 8 8 8) (replicate 8 None) (Some (Body 1 (Vec3 3 0 0) 2)) 2 (Vec3 3 0 0))
          (Body 0 (Vec3 0 0 0) 1) (1 / 2) zero3 1000 = Some v \<and> norm_vec v = 2000 / 9)"
  using force_magnitude_unclamped[of
      "BNode (Vec3 0 0 0) 8 2 (Vec3 3 0 0) True [Body 1 (Vec3 3 0 0) 2] []"
      "Body 1 (Vec3 3 0 0) 2" "Body 0 (Vec3 0 0 0) 1" 1000 "1 / 2"
      "SNode (Vec3 0 0 0) (Vec3 8 8 8) (replicate 8 None) (Some (Body 1 (Vec3 3 0 0) 2)) 2 (Vec3 3 0 0)"]
  by (simp add: same_object_def is_occupant_def isLeaf_strict_def list_all_iff
      distanceSquared_def vsub_def norm2_def)

section \<open>No validation of bodies\<close>

text \<open>
  C5, as stated, fails: insertion does not look at the mass or at the position of the body
  it is given. A body of mass -5 rebuilt into either tree is the occupant of the root, and
  the mass of the root is -5.
\<close>

theorem nonpositive_mass_is_inserted:
  "rebuild 1 (Octree 16 1) [Body 1 (Vec3 1 0 0) (- 5)] =
     Some \<lparr>gravityConstant = 1,
           root = BNode (Vec3 0 0 0) 8 (- 5) (Vec3 1 0 0) True [Body 1 (Vec3 1 0 0) (- 5)] []\<rparr> \<and>
   rebuild_strict 1 (OctreeNode_strict (Vec3 0 0 0) (Vec3 8 8 8)) [Body 1 (Vec3 1 0 0) (- 5)] =
     Some (SNode (Vec3 0 0 0) (Vec3 8 8 8) (replicate 8 None) (Some (Body 1 (Vec3 1 0 0) (- 5)))
             (- 5) (Vec3 1 0 0))"
  by code_simp

text \<open>
  C5, amended: insertion rejects no body. Whatever the mass and the position of a body, the
  rebuild from that body alone returns, in octree.js with the body in the root and the root's
  mass equal to the body's, in OctreeNode.js with the body as the root's occupant, the root's
  mass equal to the body's and the center of mass at the body's position; and a leaf of
  octree.js that holds fewer than ten bodies takes the body and adds its mass to its own.
\<close>

theorem insertion_accepts_every_body:
  "(\<exists>t'. rebuild (Suc k) t [b] = Some t' \<and> bodies (root t') = [b] \<and> nmass (root t') = mass b) \<and>
   (\<exists>n'. rebuild_strict (Suc k) n [b] = Some n' \<and> s_body n' = Some b \<and> s_mass n' = mass b \<and>
         centerOfMass n' = position b) \<and>
   (isLeaf m \<and> length (bodies m) < MAX_BODIES_PER_NODE \<longrightarrow>
      (\<exists>m'. insert_node (Suc k) m b = Some m' \<and> bodies m' = bodies m @ [b] \<and>
            nmass m' = nmass m + mass b))"
proof (intro conjI impI)
  show "\<exists>t'. rebuild (Suc k) t [b] = Some t' \<and> bodies (root t') = [b] \<and> nmass (root t') = mass b"
    by (simp add: rebuild_single)
  show "\<exists>n'. rebuild_strict (Suc k) n [b] = Some n' \<and> s_body n' = Some b \<and> s_mass n' = mass b \<and>
         centerOfMass n' = position b"
    by (simp add: rebuild_strict_single)
next
  assume "isLeaf m \<and> length (bodies m) < MAX_BODIES_PER_NODE"
  then show "\<exists>m'. insert_node (Suc k) m b = Some m' \<and> bodies m' = bodies m @ [b] \<and>
            nmass m' = nmass m + mass b"
    using insert_node_leaf_room[of m k b] by simp
qed

text \<open>The theorem at a body of mass -5 inserted into a leaf that holds a body of mass 3.\<close>

theorem insertion_accepts_every_body_witness:
  "isLeaf (BNode (Vec3 0 0 0) 8 3 (Vec3 2 0 0) True [Body 1 (Vec3 2 0 0) 3] []) \<and>
   (\<exists>m'. insert_node 1 (BNode (Vec3 0 0 0) 8 3 (Vec3 2 0 0) True [Body 1 (Vec3 2 0 0) 3] [])
           (Body 2 (Vec3 1 0 0) (- 5)) = Some m' \<and>
         bodies m' = [Body 1 (Vec3 2 0 0) 3, Body 2 (Vec3 1 0 0) (- 5)] \<and> nmass m' = - 2)"
  using insertion_accepts_every_body[of 0 "Octree 16 1" "Body 2 (Vec3 1 0 0) (- 5)"
      "OctreeNode_strict (Vec3 0 0 0) (Vec3 8 8 8)"
      "BNode (Vec3 0 0 0) 8 3 (Vec3 2 0 0) True [Body 1 (Vec3 2 0 0) 3] []"]
  by (simp add: MAX_BODIES_PER_NODE_def del: insert_node.simps)

section \<open>Zero self-force\<close>

text \<open>
  C6: a node of OctreeNode.js whose mass is 0, or whose occupant is the target body, adds
  nothing to the force, and the force of a body against the tree rebuilt from that body alone
  is the zero vector. In octree.js a leaf whose sole occupant is the target adds nothing, a
  node of mass 0 adds nothing when the masses of the tree are the sums of the positive masses
  of the bodies stored below them, and the force of a body against the tree rebuilt from that
  body alone is the zero vector.
\<close>

theorem zero_self_force:
  "(s_mass n = 0 \<or> is_occupant b (s_body n) \<longrightarrow>
      calculateForcesOnBody n b theta f g = Some f) \<and>
   (\<exists>t. rebuild_strict (Suc k) n [b] = Some t \<and>
        calculateForcesOnBody t b theta zero3 g = Some zero3) \<and>
   (isLeaf m \<and> bodies m = [a] \<and> same_object a b \<longrightarrow>
      calculateGravity_node g m b theta f = Some f) \<and>
   (nonneg_sizes l \<and> mass_ok l \<and> (\<forall>a \<in> set (all_bodies l). 0 < mass a) \<and> nmass l = 0 \<longrightarrow>
      calculateGravity_node g l b theta f = Some f) \<and>
   (\<exists>t'. rebuild (Suc k) t [b] = Some t' \<and> calculateGravity t' b theta = Some zero3)"
proof (intro conjI impI)
  assume "s_mass n = 0 \<or> is_occupant b (s_body n)"
  then show "calculateForcesOnBody n b theta f g = Some f"
    by (cases n) auto
next
  show "\<exists>t. rebuild_strict (Suc k) n [b] = Some t \<and>
        calculateForcesOnBody t b theta zero3 g = Some zero3"
    by (simp add: rebuild_strict_single is_occupant_def same_object_def)
next
  assume "isLeaf m \<and> bodies m = [a] \<and> same_object a b"
  then show "calculateGravity_node g m b theta f = Some f"
    by (cases m) (simp add: pairForce_def)
next
  assume "nonneg_sizes l \<and> mass_ok l \<and> (\<forall>a \<in> set (all_bodies l). 0 < mass a) \<and> nmass l = 0"
  then show "calculateGravity_node g l b theta f = Some f"
    using zero_mass_node by blast
next
  show "\<exists>t'. rebuild (Suc k) t [b] = Some t' \<and> calculateGravity t' b theta = Some zero3"
    by (simp add: rebuild_single calculateGravity_def pairForce_def same_object_def)
qed

theorem zero_self_force_witness:
  "(is_occupant (Body 1 (Vec3 1 2 3) 5) (s_body (SNode (Vec3 0 0 0) (Vec3 8 8 8) (replicate 8 None)
        (Some (Body 1 (Vec3 1 2 3) 5)) 5 (Vec3 1 2 3)))) \<and>
   calculateForcesOnBody (SNode (Vec3 0 0 0) (Vec3 8 8 8) (replicate 8 None)
        (Some (Body 1 (Vec3 1 2 3) 5)) 5 (Vec3 1 2 3)) (Body 1 (Vec3 1 2 3) 5) (1/2) (Vec3 7 7 7) 1
     = Some (Vec3 7 7 7) \<and>
   isLeaf (BNode (Vec3 0 0 0) 8 5 (Vec3 1 2 3) True [Body 1 (Vec3 1 2 3) 5] []) \<and>
   same_object (Body 1 (Vec3 1 2 3) 5) (Body 1 (Vec3 1 2 3) 5) \<and>
   calculateGravity_node 1 (BNode (Vec3 0 0 0) 8 5 (Vec3 1 2 3) True [Body 1 (Vec3 1 2 3) 5] [])
     (Body 1 (Vec3 1 2 3) 5) (1/2) (Vec3 7 7 7) = Some (Vec3 7 7 7) \<and>
   nonneg_sizes (OctreeNode (Vec3 0 0 0) 8) \<and> mass_ok (OctreeNode (Vec3 0 0 0) 8) \<and>
   nmass (OctreeNode (Vec3 0 0 0) 8) = 0 \<and>
   calculateGravity_node 1 (OctreeNode (Vec3 0 0 0) 8) (Body 1 (Vec3 1 2 3) 5) (1/2) (Vec3 7 7 7)
     = Some (Vec3 7 7 7)"
  using zero_self_force[of "SNode (Vec3 0 0 0) (Vec3 8 8 8) (replicate 8 None)
        (Some (Body 1 (Vec3 1 2 3) 5)) 5 (Vec3 1 2 3)" "Body 1 (Vec3 1 2 3) 5" "1/2" "Vec3 7 7 7" 1
        0 "BNode (Vec3 0 0 0) 8 5 (Vec3 1 2 3) True [Body 1 (Vec3 1 2 3) 5] []" "Body 1 (Vec3 1 2 3) 5"
        "OctreeNode (Vec3 0 0 0) 8" "Octree 16 1"]
  by (simp add: is_occupant_def same_object_def OctreeNode_def)

section \<open>Zero and near-zero distances\<close>

text \<open>
  C7, as stated, fails: OctreeNode.js skips a node only when the squared distance is exactly
  zero. A leaf that holds a body of mass 1 at distance \<open>1e-6\<close> from a target of mass 1
  (squared distance \<open>1e-12\<close>) contributes a force of \<open>1e12\<close>, where the leaf walk of
  octree.js, which skips squared distances up to \<open>1e-10\<close>, contributes nothing. The walk of
  octree.js has no such threshold for an internal node: a node of half-size \<open>1e-7\<close> and
  mass 1 whose center of mass is at distance \<open>1e-6\<close> from a target of mass 1 passes the test
  \<open>halfSize / distance < theta\<close> and contributes a force of \<open>1e12\<close>.
\<close>

theorem near_zero_distance_contributes:
  "distanceSquared (Vec3 (1 / 10 ^ 6) 0 0) (position (Body 0 (Vec3 0 0 0) 1)) = 1 / 10 ^ 12 \<and>
   calculateForcesOnBody
     (SNode (Vec3 0 0 0) (Vec3 8 8 8) (replicate 8 None) (Some (Body 1 (Vec3 (1 / 10 ^ 6) 0 0) 1)) 1
        (Vec3 (1 / 10 ^ 6) 0 0))
     (Body 0 (Vec3 0 0 0) 1) (1 / 2) zero3 1 = Some (Vec3 (10 ^ 12) 0 0) \<and>
   calculateGravity_node 1
     (BNode (Vec3 0 0 0) 8 1 (Vec3 (1 / 10 ^ 6) 0 0) True [Body 1 (Vec3 (1 / 10 ^ 6) 0 0) 1] [])
     (Body 0 (Vec3 0 0 0) 1) (1 / 2) zero3 = Some zero3 \<and>
   calculateGravity_node 1
     (BNode (Vec3 0 0 0) (1 / 10 ^ 7) 1 (Vec3 0 0 0) False []
        (newChildren (OctreeNode (Vec3 0 0 0) (1 / 10 ^ 7))))
     (Body 0 (Vec3 (1 / 10 ^ 6) 0 0) 1) (1 / 2) zero3 = Some (Vec3 (- (10 ^ 12)) 0 0)"
  by (simp add: distanceSquared_def vsub_def norm2_def is_occupant_def same_object_def
      sizeTest_def size_of_def isLeaf_strict_def list_all_iff js_div_def js_div_less_def
      normalize_vec_def unit_vec_def norm_vec_def scale_vec_def vadd_def zero3_def pairForce_def
      sqrt_tiny Let_def)

text \<open>
  C7, amended: on a tree whose masses, centers of mass and sizes are numbers, both walks are
  total, and no quotient by zero enters the force (for octree.js, in a tree without negative
  half-sizes). Such a tree is every tree that octree.js rebuilds from
  \<open>Octree worldSize g\<close>, with \<open>worldSize\<close> not negative, and bodies of positive mass: no
  node's mass is negative there, so that every center of mass is a quotient by a positive new
  mass. OctreeNode.js adds nothing for a node whose center of mass is exactly at the target's
  position. octree.js adds nothing for a leaf occupant within squared distance \<open>1e-10\<close> of
  the target; for an internal node at distance zero the quotient \<open>halfSize / distance\<close> is
  not below \<open>theta\<close>, and the walk descends into the children.
\<close>

theorem force_walk_total:
  "(\<exists>v. calculateForcesOnBody n b theta f g = Some v) \<and>
   (distanceSquared (centerOfMass n) (position b) = 0 \<longrightarrow>
      calculateForcesOnBody n b theta f g = Some f) \<and>
   (nonneg_sizes m \<longrightarrow> (\<exists>v. calculateGravity_node g m b theta f = Some v)) \<and>
   (0 \<le> w \<and> (\<forall>c \<in> set bs. 0 < mass c) \<and> rebuild k (Octree w g) bs = Some t \<longrightarrow>
      nonneg_sizes (root t) \<and> positive_masses (root t) \<and>
      (\<exists>v. calculateGravity t b theta = Some v)) \<and>
   (norm2 (vsub (position a) (position b)) \<le> 1 / 10 ^ 10 \<longrightarrow> pairForce g b f a = Some f) \<and>
   (0 \<le> halfSize m \<and> \<not> isLeaf m \<and> norm_vec (vsub (com m) (position b)) = 0 \<longrightarrow>
      calculateGravity_node g m b theta f = forEachChild g (children m) b theta f)"
proof (intro conjI impI)
  show "\<exists>v. calculateForcesOnBody n b theta f g = Some v"
    using calculateForcesOnBody_acc[of n b theta g] by blast
next
  assume "distanceSquared (centerOfMass n) (position b) = 0"
  then show "calculateForcesOnBody n b theta f g = Some f"
    by (cases n) simp
next
  assume "nonneg_sizes m"
  from calculateGravity_node_acc[OF this, of g b theta]
  show "\<exists>v. calculateGravity_node g m b theta f = Some v" by blast
next
  assume h: "0 \<le> w \<and> (\<forall>c \<in> set bs. 0 < mass c) \<and> rebuild k (Octree w g) bs = Some t"
  then show "nonneg_sizes (root t)" using rebuild_nonneg(1) by blast
next
  assume h: "0 \<le> w \<and> (\<forall>c \<in> set bs. 0 < mass c) \<and> rebuild k (Octree w g) bs = Some t"
  then show "positive_masses (root t)" using rebuild_positive by blast
next
  assume h: "0 \<le> w \<and> (\<forall>c \<in> set bs. 0 < mass c) \<and> rebuild k (Octree w g) bs = Some t"
  then have "nonneg_sizes (root t)" using rebuild_nonneg(1) by blast
  from calculateGravity_node_acc[OF this, of "gravityConstant t" b theta]
  show "\<exists>v. calculateGravity t b theta = Some v"
    unfolding calculateGravity_def by blast
next
  assume "norm2 (vsub (position a) (position b)) \<le> 1 / 10 ^ 10"
  then show "pairForce g b f a = Some f"
    by (simp add: pairForce_def Let_def)
next
  assume "0 \<le> halfSize m \<and> \<not> isLeaf m \<and> norm_vec (vsub (com m) (position b)) = 0"
  then show "calculateGravity_node g m b theta f = forEachChild g (children m) b theta f"
    by (cases m) (simp add: js_div_less_def Let_def)
qed

text \<open>The theorem at a node of OctreeNode.js whose center of mass is at the target, at the
  tree rebuilt from the eleven bodies, whose masses are 1 to 11, at a pair of bodies at one position, and at an
  internal node of octree.js whose center of mass is at the target.\<close>

theorem force_walk_total_witness:
  "distanceSquared (Vec3 1 2 3) (position (Body 0 (Vec3 1 2 3) 1)) = 0 \<and>
   calculateForcesOnBody
     (SNode (Vec3 0 0 0) (Vec3 8 8 8) (replicate 8 None) (Some (Body 1 (Vec3 1 2 3) 4)) 4 (Vec3 1 2 3))
     (Body 0 (Vec3 1 2 3) 1) (1 / 2) (Vec3 7 7 7) 1 = Some (Vec3 7 7 7) \<and>
   (\<exists>t. rebuild 2 (Octree 16 1) eleven = Some t \<and> nonneg_sizes (root t) \<and>
      positive_masses (root t) \<and>
      (\<exists>v. calculateGravity t (Body 1 (Vec3 (- 5) 1 1) 1) (1 / 2) = Some v)) \<and>
   pairForce 1 (Body 0 (Vec3 1 2 3) 1) (Vec3 7 7 7) (Body 1 (Vec3 1 2 3) 4) = Some (Vec3 7 7 7) \<and>
   calculateGravity_node 1
     (BNode (Vec3 0 0 0) 8 11 (Vec3 1 2 3) False [] (newChildren (OctreeNode (Vec3 0 0 0) 8)))
     (Body 0 (Vec3 1 2 3) 1) (1 / 2) (Vec3 7 7 7) =
   forEachChild 1 (newChildren (OctreeNode (Vec3 0 0 0) 8)) (Body 0 (Vec3 1 2 3) 1) (1 / 2) (Vec3 7 7 7)"
proof -
  have "rebuild 2 (Octree 16 1) eleven \<noteq> None" by code_simp
  then obtain t where t: "rebuild 2 (Octree 16 1) eleven = Some t" by blast
  have pos: "\<forall>c \<in> set eleven. 0 < mass c" by (simp add: eleven_def)
  from force_walk_total[of
      "SNode (Vec3 0 0 0) (Vec3 8 8 8) (replicate 8 None) (Some (Body 1 (Vec3 1 2 3) 4)) 4 (Vec3 1 2 3)"
      "Body 0 (Vec3 1 2 3) 1" "1 / 2" "Vec3 7 7 7" 1
      "BNode (Vec3 0 0 0) 8 11 (Vec3 1 2 3) False [] (newChildren (OctreeNode (Vec3 0 0 0) 8))"
      16 eleven 2 t "Body 1 (Vec3 1 2 3) 4"]
  have one: "distanceSquared (Vec3 1 2 3) (position (Body 0 (Vec3 1 2 3) 1)) = 0 \<and>
     calculateForcesOnBody
       (SNode (Vec3 0 0 0) (Vec3 8 8 8) (replicate 8 None) (Some (Body 1 (Vec3 1 2 3) 4)) 4 (Vec3 1 2 3))
       (Body 0 (Vec3 1 2 3) 1) (1 / 2) (Vec3 7 7 7) 1 = Some (Vec3 7 7 7) \<and>
     pairForce 1 (Body 0 (Vec3 1 2 3) 1) (Vec3 7 7 7) (Body 1 (Vec3 1 2 3) 4) = Some (Vec3 7 7 7) \<and>
     calculateGravity_node 1
       (BNode (Vec3 0 0 0) 8 11 (Vec3 1 2 3) False [] (newChildren (OctreeNode (Vec3 0 0 0) 8)))
       (Body 0 (Vec3 1 2 3) 1) (1 / 2) (Vec3 7 7 7) =
     forEachChild 1 (newChildren (OctreeNode (Vec3 0 0 0) 8)) (Body 0 (Vec3 1 2 3) 1) (1 / 2) (Vec3 7 7 7)"
    by (simp add: distanceSquared_def vsub_def norm2_def norm_vec_def)
  from force_walk_total[of
      "SNode (Vec3 0 0 0) (Vec3 8 8 8) (replicate 8 None) None 0 (Vec3 0 0 0)"
      "Body 1 (Vec3 (- 5) 1 1) 1" "1 / 2" zero3 1 "root t" 16 eleven 2 t "Body 1 (Vec3 1 2 3) 4"] t pos
  have two: "nonneg_sizes (root t) \<and> positive_masses (root t) \<and>
      (\<exists>v. calculateGravity t (Body 1 (Vec3 (- 5) 1 1) 1) (1 / 2) = Some v)"
    by simp
  from one two t show ?thesis by blast
qed

section \<open>Subdivision geometry\<close>

text \<open>
  C8 (OctreeNode.js): \<open>subdivide\<close> gives the eight children half the parent's
  half-dimension, but offsets their centers by \<open>newHalf * 0.5\<close>, a quarter of the parent's
  half-dimension, where the claim (and the child that \<open>insert\<close> creates for an empty octant,
  and \<open>subdivide\<close> of octree.js) offsets them by half of it. For the node centered at the
  origin with half-dimension (1, 1, 1) the children are centered at (\<plusminus>1/4, \<plusminus>1/4, \<plusminus>1/4),
  not at (\<plusminus>1/2, \<plusminus>1/2, \<plusminus>1/2), so their regions overlap and do not cover the parent.
\<close>

theorem subdivide_strict_quarter_offsets:
  "map (map_option s_center)
     (s_children (subdivide_strict (OctreeNode_strict (Vec3 0 0 0) (Vec3 1 1 1)))) =
   [Some (Vec3 (- 1 / 4) (- 1 / 4) (- 1 / 4)), Some (Vec3 (- 1 / 4) (- 1 / 4) (1 / 4)),
    Some (Vec3 (- 1 / 4) (1 / 4) (- 1 / 4)), Some (Vec3 (- 1 / 4) (1 / 4) (1 / 4)),
    Some (Vec3 (1 / 4) (- 1 / 4) (- 1 / 4)), Some (Vec3 (1 / 4) (- 1 / 4) (1 / 4)),
    Some (Vec3 (1 / 4) (1 / 4) (- 1 / 4)), Some (Vec3 (1 / 4) (1 / 4) (1 / 4))] \<and>
   map (map_option halfDimension)
     (s_children (subdivide_strict (OctreeNode_strict (Vec3 0 0 0) (Vec3 1 1 1)))) =
   replicate 8 (Some (Vec3 (1 / 2) (1 / 2) (1 / 2))) \<and>
   s_center (lazyChild (OctreeNode_strict (Vec3 0 0 0) (Vec3 1 1 1)) 7) = Vec3 (1 / 2) (1 / 2) (1 / 2) \<and>
   map center (newChildren (OctreeNode (Vec3 0 0 0) 1)) =
   [Vec3 (- 1 / 2) (- 1 / 2) (- 1 / 2), Vec3 (- 1 / 2) (- 1 / 2) (1 / 2),
    Vec3 (- 1 / 2) (1 / 2) (- 1 / 2), Vec3 (- 1 / 2) (1 / 2) (1 / 2),
    Vec3 (1 / 2) (- 1 / 2) (- 1 / 2), Vec3 (1 / 2) (- 1 / 2) (1 / 2),
    Vec3 (1 / 2) (1 / 2) (- 1 / 2), Vec3 (1 / 2) (1 / 2) (1 / 2)]"
  by code_simp
section \<open>Rebuilding twice\<close>

text \<open>
  C9, as stated, fails: the rebuild cycle does not return for every body list, so that for
  such a list there are no two trees to compare. For eleven bodies at (-3, 0, 5) in octree.js
  and for two bodies at (-3, 0, 5) in OctreeNode.js the first cycle exceeds every bound on
  the call depth, and the two cycles in a row return nothing.
\<close>

theorem rebuild_cycle_never_returns:
  "(\<forall>k j. Option.bind (rebuild k (Octree 16 1) (map (\<lambda>i. Body i (Vec3 (- 3) 0 5) 2) [0..<11]))
            (\<lambda>t'. rebuild j t' (map (\<lambda>i. Body i (Vec3 (- 3) 0 5) 2) [0..<11])) = None) \<and>
   (\<forall>k j. Option.bind
            (rebuild_strict k (OctreeNode_strict (Vec3 0 0 0) (Vec3 8 8 8))
               [Body 1 (Vec3 (- 3) 0 5) 2, Body 2 (Vec3 (- 3) 0 5) 2])
            (\<lambda>n'. rebuild_strict j n' [Body 1 (Vec3 (- 3) 0 5) 2, Body 2 (Vec3 (- 3) 0 5) 2]) = None)"
proof (intro conjI allI)
  fix k j
  let ?bs = "map (\<lambda>i. Body i (Vec3 (- 3) 0 5) 2) [0..<11]"
  have "stack (Vec3 (- 3) 0 5) 0 (root (clear (Octree 16 1)))"
    by (simp add: stack_def clear_def Octree_def OctreeNode_def contains_def)
  moreover have "\<forall>a \<in> set ?bs. position a = Vec3 (- 3) 0 5" by simp
  ultimately have "insert_all k (clear (Octree 16 1)) ?bs = None"
    using insert_all_stack[of ?bs "Vec3 (- 3) 0 5" 0 "clear (Octree 16 1)" k]
    by (simp add: MAX_BODIES_PER_NODE_def)
  then have "rebuild k (Octree 16 1) ?bs = None" by (simp add: rebuild_def)
  then show "Option.bind (rebuild k (Octree 16 1) ?bs) (\<lambda>t'. rebuild j t' ?bs) = None"
    by simp
next
  fix k j
  let ?n = "OctreeNode_strict (Vec3 0 0 0) (Vec3 8 8 8)"
  let ?a = "Body 1 (Vec3 (- 3) 0 5) 2"
  let ?b = "Body 2 (Vec3 (- 3) 0 5) 2"
  have clear: "clear_strict ?n = ?n" by (simp add: clear_strict_def OctreeNode_strict_def)
  have "insert_all_strict k ?n [?a, ?b] = None"
  proof (cases k)
    case 0
    then show ?thesis by simp
  next
    case (Suc k')
    let ?n1 = "SNode (s_center ?n) (halfDimension ?n) (s_children ?n) (Some ?a) (mass ?a) (position ?a)"
    have first: "insert_strict k ?n ?a = Some ?n1"
      using Suc by (simp add: insert_step_empty_leaf)
    have "isLeaf_strict ?n1" "s_body ?n1 = Some ?a" "position ?a = position ?b"
      using isLeaf_strict_fresh(1)[of "Vec3 0 0 0" "Vec3 8 8 8"] by (simp_all add: isLeaf_strict_def)
    from coincident_never_returns[OF this] have "insert_strict k ?n1 ?b = None" .
    with first show ?thesis by simp
  qed
  with clear have "rebuild_strict k ?n [?a, ?b] = None" by (simp add: rebuild_strict_def)
  then show "Option.bind (rebuild_strict k ?n [?a, ?b]) (\<lambda>n'. rebuild_strict j n' [?a, ?b]) = None"
    by simp
qed

text \<open>
  C9, amended: a rebuild cycle (clear, then insert every body) that returns a tree returns
  the same tree when it is run again on that tree with the same bodies; in particular the
  mass and the center of mass of the root are the same both times. For OctreeNode.js the
  node has the eight entries that its constructor gives \<open>children\<close>. Both cycles return, with
  the same tree, in octree.js for every list of at most ten bodies, and in OctreeNode.js for
  every two bodies in different octants of the root.
\<close>

theorem rebuild_twice:
  "(rebuild k t bs = Some t' \<longrightarrow> rebuild k t' bs = Some t') \<and>
   (length (s_children n) = 8 \<and> rebuild_strict j n ds = Some n' \<longrightarrow>
      rebuild_strict j n' ds = Some n') \<and>
   (length cs \<le> MAX_BODIES_PER_NODE \<longrightarrow>
      (\<exists>u'. rebuild (Suc i) u cs = Some u' \<and> rebuild (Suc i) u' cs = Some u')) \<and>
   (length (s_children m) = 8 \<and>
    getOctantIndex m (position a) \<noteq> getOctantIndex m (position b) \<longrightarrow>
      (\<exists>m'. rebuild_strict (Suc (Suc i)) m [a, b] = Some m' \<and>
            rebuild_strict (Suc (Suc i)) m' [a, b] = Some m'))"
proof (intro conjI impI)
  assume "rebuild k t bs = Some t'"
  then show "rebuild k t' bs = Some t'" by (rule rebuild_fixed)
next
  assume "length (s_children n) = 8 \<and> rebuild_strict j n ds = Some n'"
  then show "rebuild_strict j n' ds = Some n'" using rebuild_strict_fixed by blast
next
  assume "length cs \<le> MAX_BODIES_PER_NODE"
  from rebuild_room[OF this, of i u] obtain u' where "rebuild (Suc i) u cs = Some u'" by blast
  with rebuild_fixed[OF this]
  show "\<exists>u'. rebuild (Suc i) u cs = Some u' \<and> rebuild (Suc i) u' cs = Some u'" by blast
next
  assume h: "length (s_children m) = 8 \<and>
    getOctantIndex m (position a) \<noteq> getOctantIndex m (position b)"
  then have "getOctantIndex m (position a) \<noteq> getOctantIndex m (position b)" by simp
  from rebuild_strict_two[OF this, of i] obtain m' where
    run: "rebuild_strict (Suc (Suc i)) m [a, b] = Some m'" by blast
  from h have "length (s_children m) = 8" by simp
  from rebuild_strict_fixed[OF this run] run
  show "\<exists>m'. rebuild_strict (Suc (Suc i)) m [a, b] = Some m' \<and>
            rebuild_strict (Suc (Suc i)) m' [a, b] = Some m'" by blast
qed

text \<open>The theorem at the eleven bodies and at the three bodies, at the three bodies in the
  root leaf of octree.js, and at two bodies in two octants for OctreeNode.js.\<close>

theorem rebuild_twice_witness:
  "(\<exists>t'. rebuild 2 (Octree 16 1) eleven = Some t' \<and> rebuild 2 t' eleven = Some t') \<and>
   (\<exists>n'. length (s_children (OctreeNode_strict (Vec3 0 0 0) (Vec3 8 8 8))) = 8 \<and>
      rebuild_strict 2 (OctreeNode_strict (Vec3 0 0 0) (Vec3 8 8 8)) three = Some n' \<and>
      rebuild_strict 2 n' three = Some n') \<and>
   length three \<le> MAX_BODIES_PER_NODE \<and>
   (\<exists>u'. rebuild 1 (Octree 16 1) three = Some u' \<and> rebuild 1 u' three = Some u') \<and>
   getOctantIndex (OctreeNode_strict (Vec3 0 0 0) (Vec3 8 8 8)) (position (Body 1 (Vec3 1 1 1) 1)) \<noteq>
   getOctantIndex (OctreeNode_strict (Vec3 0 0 0) (Vec3 8 8 8)) (position (Body 2 (Vec3 (- 1) 1 1) 2)) \<and>
   (\<exists>m'. rebuild_strict 2 (OctreeNode_strict (Vec3 0 0 0) (Vec3 8 8 8))
            [Body 1 (Vec3 1 1 1) 1, Body 2 (Vec3 (- 1) 1 1) 2] = Some m' \<and>
      rebuild_strict 2 m' [Body 1 (Vec3 1 1 1) 1, Body 2 (Vec3 (- 1) 1 1) 2] = Some m')"
proof -
  have "rebuild 2 (Octree 16 1) eleven \<noteq> None" by code_simp
  then obtain t' where t': "rebuild 2 (Octree 16 1) eleven = Some t'" by blast
  have "rebuild_strict 2 (OctreeNode_strict (Vec3 0 0 0) (Vec3 8 8 8)) three \<noteq> None" by code_simp
  then obtain n' where n': "rebuild_strict 2 (OctreeNode_strict (Vec3 0 0 0) (Vec3 8 8 8)) three = Some n'"
    by blast
  have len: "length (s_children (OctreeNode_strict (Vec3 0 0 0) (Vec3 8 8 8))) = 8"
    by (simp add: OctreeNode_strict_def)
  have room: "length three \<le> MAX_BODIES_PER_NODE"
    by (simp add: three_def MAX_BODIES_PER_NODE_def)
  have octants:
    "getOctantIndex (OctreeNode_strict (Vec3 0 0 0) (Vec3 8 8 8)) (position (Body 1 (Vec3 1 1 1) 1)) \<noteq>
     getOctantIndex (OctreeNode_strict (Vec3 0 0 0) (Vec3 8 8 8)) (position (Body 2 (Vec3 (- 1) 1 1) 2))"
    by (simp add: getOctantIndex_def OctreeNode_strict_def)
  from rebuild_twice[where k=2 and t="Octree 16 1" and bs=eleven and t'=t'
      and n="OctreeNode_strict (Vec3 0 0 0) (Vec3 8 8 8)" and j=2 and ds=three and n'=n'
      and cs=three and i=0 and u="Octree 16 1"
      and m="OctreeNode_strict (Vec3 0 0 0) (Vec3 8 8 8)"
      and a="Body 1 (Vec3 1 1 1) 1" and b="Body 2 (Vec3 (- 1) 1 1) 2"]
    t' n' len room octants
  show ?thesis by (simp add: numeral_2_eq_2 del: insert_strict.simps)
qed

section \<open>Bodies dropped by octree.js\<close>

text \<open>
  C10: in octree.js, when a body is inserted into an internal node none of whose children
  contains the body's position, \<open>insert\<close> returns, the bodies stored in the tree are the ones
  stored before, and the node's mass and center of mass are updated with the body as for any
  other body. This is the case of a body outside the bounds of a subdivided root. More
  generally, when the path of the insertion ends at such a node, every node on the path has
  its mass and center of mass updated and no body is stored.
\<close>

theorem dropped_body_still_counted:
  "(\<not> isLeaf n \<and> (\<forall>c \<in> set (children n). \<not> contains c (position b)) \<longrightarrow>
      insert_node (Suc k) n b = Some (updateMassDistribution n b) \<and>
      all_bodies (updateMassDistribution n b) = all_bodies n \<and>
      nmass (updateMassDistribution n b) = nmass n + mass b \<and>
      (nmass n + mass b \<noteq> 0 \<longrightarrow>
         scale_vec (com (updateMassDistribution n b)) (nmass n + mass b) =
         vadd (scale_vec (com n) (nmass n)) (scale_vec (position b) (mass b)))) \<and>
   (tree_ok n \<and> \<not> isLeaf n \<and> \<not> contains n (position b) \<longrightarrow>
      (\<forall>c \<in> set (children n). \<not> contains c (position b))) \<and>
   (dropped n (position b) \<longrightarrow>
      (\<exists>n'. insert_node (length (visited n (position b))) n b = Some n' \<and>
            all_bodies n' = all_bodies n \<and>
            list_all2 (bumped b) (visited n (position b)) (visited n' (position b))))"
proof (intro conjI impI)
  assume h: "\<not> isLeaf n \<and> (\<forall>c \<in> set (children n). \<not> contains c (position b))"
  then have "insertIntoChild ins n b = Some n" for ins
    by (cases n) (simp add: insertIntoChild_def insertFirst_none)
  with h show "insert_node (Suc k) n b = Some (updateMassDistribution n b)"
    by (simp add: insert_body_def Let_def)
  show "all_bodies (updateMassDistribution n b) = all_bodies n" by simp
  show "nmass (updateMassDistribution n b) = nmass n + mass b" by simp
next
  assume "nmass n + mass b \<noteq> 0"
  then show "scale_vec (com (updateMassDistribution n b)) (nmass n + mass b) =
         vadd (scale_vec (com n) (nmass n)) (scale_vec (position b) (mass b))"
    by (rule com_weighted)
next
  assume h: "tree_ok n \<and> \<not> isLeaf n \<and> \<not> contains n (position b)"
  then have boxes: "map box (children n) = map box (newChildren n)"
    using tree_ok_iff[of n] by simp
  have "\<not> (\<exists>c \<in> set (newChildren n). contains c (position b))"
    using h child_inside_parent[of _ n "position b"] by blast
  with exists_contains_box[OF boxes, of "position b"]
  show "\<forall>c \<in> set (children n). \<not> contains c (position b)" by blast
next
  assume "dropped n (position b)"
  from dropped_insert(1)[OF this]
  show "\<exists>n'. insert_node (length (visited n (position b))) n b = Some n' \<and>
            all_bodies n' = all_bodies n \<and>
            list_all2 (bumped b) (visited n (position b)) (visited n' (position b))"
    by (auto simp: drop_result_def)
qed

text \<open>The theorem at the tree rebuilt from the eleven bodies, whose root has subdivided, and
  a body of mass 5 at (100, 0, 0), outside the cube of side 16.\<close>

theorem dropped_body_still_counted_witness:
  "\<exists>t'. rebuild 2 (Octree 16 1) eleven = Some t' \<and>
      \<not> isLeaf (root t') \<and> tree_ok (root t') \<and>
      \<not> contains (root t') (position (Body 12 (Vec3 100 0 0) 5)) \<and>
      dropped (root t') (position (Body 12 (Vec3 100 0 0) 5)) \<and>
      insert_node 1 (root t') (Body 12 (Vec3 100 0 0) 5) =
        Some (updateMassDistribution (root t') (Body 12 (Vec3 100 0 0) 5)) \<and>
      all_bodies (updateMassDistribution (root t') (Body 12 (Vec3 100 0 0) 5)) = all_bodies (root t') \<and>
      nmass (updateMassDistribution (root t') (Body 12 (Vec3 100 0 0) 5)) = 71"
proof -
  let ?b = "Body 12 (Vec3 100 0 0) 5"
  have "case rebuild 2 (Octree 16 1) eleven of None \<Rightarrow> False
        | Some t' \<Rightarrow> \<not> isLeaf (root t') \<and> tree_ok (root t') \<and> nmass (root t') = 66 \<and>
            \<not> contains (root t') (position ?b) \<and> dropped (root t') (position ?b)"
    by code_simp
  then obtain t' where t': "rebuild 2 (Octree 16 1) eleven = Some t'" and
    facts: "\<not> isLeaf (root t')" "tree_ok (root t')" "nmass (root t') = 66"
      "\<not> contains (root t') (position ?b)" "dropped (root t') (position ?b)"
    by (auto split: option.splits)
  from dropped_body_still_counted[of "root t'" ?b 0] facts
  have "insert_node 1 (root t') ?b = Some (updateMassDistribution (root t') ?b) \<and>
      all_bodies (updateMassDistribution (root t') ?b) = all_bodies (root t') \<and>
      nmass (updateMassDistribution (root t') ?b) = 71"
    by simp
  with t' facts show ?thesis by blast
qed

end
